(* ===== verification/Prelude.thy ===== *)
theory Prelude
  imports Main "HOL-Library.Monad_Syntax" "HOL-Library.AList"
begin

text \<open>
  Shared vocabulary of the development: Go's durations and times as integers (nanoseconds), Go's
  \<open>error\<close> values as a datatype, the functions of Go's \<open>strings\<close> and \<open>slices\<close> packages the source
  calls, and the generic list and string lemmas the components use.

  Conventions.  A Go string is its list of bytes, so \<open>length\<close> is Go's \<open>len\<close>.  A Go pointer or
  interface value that may be \<open>nil\<close> is an \<open>option\<close>.  A function that can panic returns an
  \<open>option\<close> whose \<open>None\<close> is the panic; a function that returns \<open>(v, error)\<close> returns
  \<open>goerror + 'a\<close>, or a pair whose second component is a \<open>goerror option\<close> where the code uses the
  value together with the error.
\<close>

named_theorems go_str \<open>facts about Go's string functions\<close>
named_theorems ctx_simps \<open>lookups in a context\<close>
named_theorems trace_simps \<open>which events a step adds to the trace\<close>

section \<open>Durations, times, integers\<close>

type_synonym duration = int
type_synonym gotime = int

abbreviation Second :: duration where "Second \<equiv> 1000000000"
abbreviation Minute :: duration where "Minute \<equiv> 60000000000"
abbreviation Hour :: duration where "Hour \<equiv> 3600000000000"

text \<open>Go's integer division truncates towards zero.\<close>

definition go_quot :: "int \<Rightarrow> int \<Rightarrow> int" where
  "go_quot a b = sgn a * sgn b * (\<bar>a\<bar> div \<bar>b\<bar>)"

lemma go_quot_nonneg [simp]: "0 \<le> a \<Longrightarrow> 0 < b \<Longrightarrow> go_quot a b = a div b"
  by (cases "a = 0") (auto simp: go_quot_def sgn_if)

lemma go_quot_le_0: "a < b \<Longrightarrow> 0 < b \<Longrightarrow> go_quot a b \<le> 0"
proof (cases "0 \<le> a")
  case True
  then show "a < b \<Longrightarrow> 0 < b \<Longrightarrow> go_quot a b \<le> 0" by simp
next
  case False
  then show "a < b \<Longrightarrow> 0 < b \<Longrightarrow> go_quot a b \<le> 0"
    by (simp add: go_quot_def sgn_if pos_imp_zdiv_nonneg_iff)
qed

text \<open>\<open>Time.Sub\<close> saturates at the bounds of a 64-bit duration.\<close>

definition time_sub :: "gotime \<Rightarrow> gotime \<Rightarrow> duration" where
  "time_sub t u = max (- (2 ^ 63)) (min (2 ^ 63 - 1) (t - u))"

lemma time_sub_le_iff: "- (2 ^ 63) \<le> w \<Longrightarrow> w < 2 ^ 63 - 1 \<Longrightarrow> time_sub t u \<le> w \<longleftrightarrow> t \<le> u + w"
  by (auto simp: time_sub_def)

lemma time_sub_gt: "time_sub t u > w \<Longrightarrow> 0 \<le> w \<Longrightarrow> t > u + w"
  by (auto simp: time_sub_def split: if_splits)

section \<open>Errors\<close>

type_synonym tags = "(string \<times> string) list"

text \<open>
  A Go \<open>error\<close>: \<open>Foreign\<close> is an error made by code outside the repository (an identity and its
  text), \<open>ApiStatus\<close> a Kubernetes API status error (its reason, the types of its \<open>Details.Causes\<close>
  when \<open>Details\<close> is not nil, its text), \<open>ErrorString\<close> is \<open>errors.New\<close> or \<open>fmt.Errorf\<close> without
  \<open>%w\<close>, \<open>WrapError m e\<close> is \<open>fmt.Errorf("m: %w", e)\<close> or \<open>errors.Wrap(e, m)\<close>, and \<open>SentryErr\<close> is the
  \<open>Error\<close> struct of \<open>sentry/error.go\<close> with its tags and extras.
\<close>

datatype goerror =
    Foreign nat string
  | ApiStatus string "string list option" string
  | ErrorString string
  | WrapError string goerror
  | SentryErr goerror tags tags

fun error_text :: "goerror \<Rightarrow> string" where
  "error_text (Foreign _ t) = t"
| "error_text (ApiStatus _ _ t) = t"
| "error_text (ErrorString t) = t"
| "error_text (WrapError m e) = m @ '': '' @ error_text e"
| "error_text (SentryErr e _ _) = error_text e"

section \<open>Strings\<close>

definition hasPrefix :: "string \<Rightarrow> string \<Rightarrow> bool" where
  "hasPrefix s p = (take (length p) s = p)"

definition trimPrefix :: "string \<Rightarrow> string \<Rightarrow> string" where
  "trimPrefix s p = (if hasPrefix s p then drop (length p) s else s)"

text \<open>\<open>strings.ReplaceAll\<close> with a one-byte pattern and a one-byte replacement.\<close>

definition replaceChar :: "char \<Rightarrow> char \<Rightarrow> string \<Rightarrow> string" where
  "replaceChar a b s = map (\<lambda>c. if c = a then b else c) s"

text \<open>
  \<open>strings.ToLower\<close>: on an ASCII string the bytes \<open>A\<close> to \<open>Z\<close> are lowered.  On any other string the tables of
  Unicode decide, which may change its length and replace invalid bytes; that part is the parameter \<open>U\<close>.
\<close>

definition lower_char :: "char \<Rightarrow> char" where
  "lower_char c = (let n = of_char c :: nat in if 65 \<le> n \<and> n \<le> 90 then char_of (n + 32) else c)"

definition ascii :: "string \<Rightarrow> bool" where
  "ascii s \<longleftrightarrow> (\<forall>c \<in> set s. (of_char c :: nat) < 128)"

definition asciiLower :: "string \<Rightarrow> string" where
  "asciiLower s = map lower_char s"

definition toLower :: "(string \<Rightarrow> string) \<Rightarrow> string \<Rightarrow> string" where
  "toLower U s = (if ascii s then asciiLower s else U s)"

text \<open>The white space of \<open>strings.TrimSpace\<close> in ASCII.\<close>

definition is_space :: "char \<Rightarrow> bool" where
  "is_space c = (let n = of_char c :: nat in n = 32 \<or> (9 \<le> n \<and> n \<le> 13))"

definition trimSpace :: "string \<Rightarrow> string" where
  "trimSpace s = rev (dropWhile is_space (rev (dropWhile is_space s)))"

text \<open>\<open>strings.EqualFold\<close> on ASCII strings.\<close>

definition equalFold :: "string \<Rightarrow> string \<Rightarrow> bool" where
  "equalFold a b = (asciiLower a = asciiLower b)"

text \<open>\<open>strings.Split\<close> at a one-byte separator: never empty.\<close>

fun splitOn :: "char \<Rightarrow> string \<Rightarrow> string list" where
  "splitOn sep [] = [[]]"
| "splitOn sep (c # cs) =
     (if c = sep then [] # splitOn sep cs
      else (case splitOn sep cs of [] \<Rightarrow> [[c]] | w # ws \<Rightarrow> (c # w) # ws))"

text \<open>\<open>strings.Join\<close>.\<close>

fun joinWith :: "string \<Rightarrow> string list \<Rightarrow> string" where
  "joinWith sep [] = []"
| "joinWith sep [w] = w"
| "joinWith sep (w # v # ws) = w @ sep @ joinWith sep (v # ws)"

text \<open>\<open>strings.Fields\<close>: the maximal runs of non-space bytes.\<close>

function str_fields :: "string \<Rightarrow> string list" where
  "str_fields s =
     (let r = dropWhile is_space s
      in if r = [] then []
         else takeWhile (\<lambda>c. \<not> is_space c) r # str_fields (dropWhile (\<lambda>c. \<not> is_space c) r))"
  by pat_completeness auto
termination
proof (relation "measure length", simp, goal_cases)
  case (1 s r)
  let ?r = "dropWhile is_space s"
  from 1 have "\<not> is_space (hd ?r)" by (metis dropWhile_eq_Nil_conv hd_dropWhile)
  with 1 have "length (dropWhile (\<lambda>c. \<not> is_space c) ?r) < length ?r"
    by (cases ?r) (simp_all add: length_dropWhile_le le_imp_less_Suc)
  also have "length ?r \<le> length s" by (rule length_dropWhile_le)
  finally show ?case using 1 by simp
qed

declare str_fields.simps [simp del]

subsection \<open>Facts about the string functions\<close>

lemma of_char_lower: "of_char (lower_char c) =
    (if 65 \<le> (of_char c :: nat) \<and> (of_char c :: nat) \<le> 90 then (of_char c + 32 :: nat) else of_char c)"
  by (simp add: lower_char_def Let_def)

lemma lower_char_idem [simp]: "lower_char (lower_char c) = lower_char c"
proof -
  let ?n = "of_char (lower_char c) :: nat"
  have "\<not> (65 \<le> ?n \<and> ?n \<le> 90)" by (simp add: of_char_lower)
  then show ?thesis unfolding lower_char_def [of "lower_char c"] Let_def by auto
qed

lemma asciiLower_idem [go_str, simp]: "asciiLower (asciiLower s) = asciiLower s"
  by (simp add: asciiLower_def)

lemma length_asciiLower [go_str, simp]: "length (asciiLower s) = length s"
  by (simp add: asciiLower_def)

lemma ascii_simps [go_str, simp]:
  "ascii []" "ascii (c # s) \<longleftrightarrow> (of_char c :: nat) < 128 \<and> ascii s" "ascii (s @ t) \<longleftrightarrow> ascii s \<and> ascii t"
  by (auto simp: ascii_def)

lemma ascii_drop: "ascii s \<Longrightarrow> ascii (drop n s)"
  using set_drop_subset [of n s] by (auto simp: ascii_def)

lemma ascii_replaceChar: "ascii s \<Longrightarrow> (of_char b :: nat) < 128 \<Longrightarrow> ascii (replaceChar a b s)"
  by (auto simp: ascii_def replaceChar_def)

lemma ascii_asciiLower [go_str, simp]: "ascii s \<Longrightarrow> ascii (asciiLower s)"
  by (auto simp: ascii_def asciiLower_def of_char_lower)

lemma length_replaceChar [go_str, simp]: "length (replaceChar a b s) = length s"
  by (simp add: replaceChar_def)

lemma set_replaceChar [go_str]: "a \<noteq> b \<Longrightarrow> a \<notin> set (replaceChar a b s)"
  by (auto simp: replaceChar_def)

lemma replaceChar_id [go_str]: "a \<notin> set s \<Longrightarrow> replaceChar a b s = s"
  by (induction s) (auto simp: replaceChar_def)

lemma replaceChar_idem [go_str]: "replaceChar a b (replaceChar a b s) = replaceChar a b s"
  by (auto simp: replaceChar_def)

lemma length_trimPrefix [go_str]: "length (trimPrefix s p) \<le> length s"
  by (simp add: trimPrefix_def)

lemma hasPrefix_append [go_str, simp]: "hasPrefix (p @ s) p"
  by (simp add: hasPrefix_def)

lemma trimPrefix_append [go_str, simp]: "trimPrefix (p @ s) p = s"
  by (simp add: trimPrefix_def)

lemma splitOn_not_Nil [go_str, simp]: "splitOn sep s \<noteq> []"
  by (induction s) (auto split: list.split)

lemma joinWith_splitOn [go_str]: "joinWith [sep] (splitOn sep s) = s"
proof (induction s)
  case (Cons c cs)
  show ?case
  proof (cases "splitOn sep cs")
    case (Cons w ws)
    with Cons.IH show ?thesis by (cases ws) auto
  qed simp
qed simp

lemma splitOn_no_sep [go_str]: "w \<in> set (splitOn sep s) \<Longrightarrow> sep \<notin> set w"
  by (induction s arbitrary: w) (auto split: if_splits list.splits)

lemma splitOn_none: "sep \<notin> set w \<Longrightarrow> splitOn sep w = [w]"
  by (induction w) auto

lemma splitOn_here: "sep \<notin> set w \<Longrightarrow> splitOn sep (w @ sep # s) = w # splitOn sep s"
  by (induction w) auto

lemma splitOn_joinWith: "ws \<noteq> [] \<Longrightarrow> \<forall>w \<in> set ws. sep \<notin> set w \<Longrightarrow> splitOn sep (joinWith [sep] ws) = ws"
proof (induction ws)
  case (Cons w ws)
  then show ?case by (cases ws) (simp_all add: splitOn_none splitOn_here)
qed simp

section \<open>Lists and options\<close>

lemma map_prefix_take: "take n xs @ ys = xs \<Longrightarrow> ys = drop n xs"
  by (metis append_take_drop_id same_append_eq)

lemma find_Some_set: "List.find P xs = Some x \<Longrightarrow> x \<in> set xs \<and> P x"
  by (auto simp: find_Some_iff)

lemma filter_append_singleton: "filter P (xs @ [x]) = (if P x then filter P xs @ [x] else filter P xs)"
  by simp

end
