(* ===== verification/Errors.thy ===== *)
theory Errors
  imports Prelude "HOL-Library.Sublist"
begin

text \<open>
  The package \<open>errors\<close>: operator errors (\<open>errors/operatorerror.go\<close>) and the stack comparison that
  decides whether \<open>Wrap\<close> adds another stack trace (\<open>errors/errors.go\<close>).  The functions that make
  and wrap errors with stacks are in \<open>Error_Stacks\<close>.
\<close>

section \<open>Operator errors\<close>

record operator_error =
  op_err :: "goerror option"
  op_retry :: bool
  op_sentry :: bool

text \<open>
  The methods have a pointer receiver and check it for \<open>nil\<close>: the receiver is an option.  The
  interface \<open>OperatorError\<close> adds one more level, since an interface can itself be \<open>nil\<close> or hold a
  \<open>nil\<close> pointer.
\<close>

type_synonym operror_ptr = "operator_error option"
type_synonym OperatorError = "operror_ptr option"

definition Err :: "operror_ptr \<Rightarrow> goerror option" where
  "Err e = (case e of None \<Rightarrow> None | Some d \<Rightarrow> op_err d)"

definition Retry :: "operror_ptr \<Rightarrow> bool" where
  "Retry e = (case e of None \<Rightarrow> False | Some d \<Rightarrow> op_err d \<noteq> None \<and> op_retry d)"

definition Sentry :: "operror_ptr \<Rightarrow> bool" where
  "Sentry e = (case e of None \<Rightarrow> False | Some d \<Rightarrow> op_err d \<noteq> None \<and> op_sentry d)"

definition NewOperatorError :: "goerror option \<Rightarrow> bool \<Rightarrow> bool \<Rightarrow> OperatorError" where
  "NewOperatorError err retry sentry =
     Some (Some \<lparr>op_err = err, op_retry = retry, op_sentry = sentry\<rparr>)"

lemma Retry_has_Err: "Retry e \<Longrightarrow> \<exists>x. Err e = Some x"
  by (auto simp: Retry_def Err_def split: option.splits)

lemma Sentry_has_Err: "Sentry e \<Longrightarrow> \<exists>x. Err e = Some x"
  by (auto simp: Sentry_def Err_def split: option.splits)

lemma NewOperatorError_sel [simp]:
  "NewOperatorError err r s = Some p \<Longrightarrow> Err p = err \<and> (Retry p \<longleftrightarrow> err \<noteq> None \<and> r) \<and> (Sentry p \<longleftrightarrow> err \<noteq> None \<and> s)"
  by (auto simp: NewOperatorError_def Err_def Retry_def Sentry_def)

section \<open>Stack comparison\<close>

text \<open>
  The loop of \<open>ancestorOfCause\<close> with \<open>k\<close> iterations left.  Its body indexes both slices with
  \<open>len - 1\<close>; the index variable is not used.
\<close>

fun ancestor_loop :: "nat \<Rightarrow> nat list \<Rightarrow> nat list \<Rightarrow> bool" where
  "ancestor_loop 0 our cause = True"
| "ancestor_loop (Suc k) our cause =
     (if our ! (length our - 1) \<noteq> cause ! (length cause - 1) then False
      else ancestor_loop k our cause)"

definition ancestorOfCause :: "nat list \<Rightarrow> nat list \<Rightarrow> bool" where
  "ancestorOfCause our cause =
     (if length our > length cause then False else ancestor_loop (length our) our cause)"

lemma ancestor_loop_iff:
  "ancestor_loop k our cause \<longleftrightarrow> k = 0 \<or> our ! (length our - 1) = cause ! (length cause - 1)"
  by (induction k) auto

lemma ancestorOfCause_iff:
  "ancestorOfCause our cause \<longleftrightarrow>
     our = [] \<or> (length our \<le> length cause \<and> last our = last cause)"
proof (cases "our = [] \<or> length our > length cause")
  case True
  then show ?thesis by (auto simp: ancestorOfCause_def)
next
  case False
  then have "cause \<noteq> []" by auto
  with False show ?thesis
    by (simp add: ancestorOfCause_def ancestor_loop_iff last_conv_nth)
qed

text \<open>
  The stack check of \<open>Wrap\<close> never misses an ancestor: a stack that is a suffix of the cause's
  stack (the deepest frame is first) is recognised.  The converse fails: the loop compares the
  outermost frame only, so it accepts exactly the stacks that are not longer and end in the same
  frame.  Two stacks with different callers but the same outermost frame are taken for
  ancestor and cause.
\<close>

theorem ancestorOfCause_spec:
  "(suffix our cause \<longrightarrow> ancestorOfCause our cause) \<and>
   (ancestorOfCause our cause \<longleftrightarrow>
      our = [] \<or> (length our \<le> length cause \<and> last our = last cause)) \<and>
   ancestorOfCause [1, 9] [7, 8, 9] \<and> \<not> suffix [1, 9] [7, 8, 9 :: nat]"
proof (intro conjI impI)
  assume "suffix our cause"
  then obtain pre where "cause = pre @ our" by (auto simp: suffix_def)
  then show "ancestorOfCause our cause" by (cases "our = []") (auto simp: ancestorOfCause_iff)
next
  show "ancestorOfCause [1, 9] [7, 8, 9]" by (simp add: ancestorOfCause_iff)
next
  show "\<not> suffix [1, 9] [7, 8, 9 :: nat]" by (simp add: suffix_to_prefix)
qed (rule ancestorOfCause_iff)

theorem ancestorOfCause_spec_witness: "ancestorOfCause [8, 9] [7, 8, 9]"
  using ancestorOfCause_spec [of "[8, 9]" "[7, 8, 9]"] by (simp add: suffix_to_prefix)

end
