(* ===== verification/Error_Stacks.thy ===== *)
theory Error_Stacks
  imports Errors
begin

text \<open>
  Errors with stack traces: \<open>New\<close>, \<open>Sentinel\<close>, \<open>EnsureStack\<close>, \<open>Wrap\<close> and \<open>PopStack\<close> of \<open>errors/errors.go\<close>.  The
  errors themselves belong to \<open>github.com/pkg/errors\<close> and are of any type \<open>'e\<close>; that package, with the field
  \<open>stack\<close> that \<open>PopStack\<close> reaches by reflection, is a parameter.  A stack is a list of program counters,
  the deepest frame first; \<open>cs\<close> is the stack from the caller of the modelled function on, and \<open>here\<close> the
  program counter of that function itself.
\<close>

section \<open>The package pkg/errors\<close>

text \<open>
  \<open>pe_field\<close> is what reflection finds: \<open>None\<close> when the error is no pointer to a struct with a field
  \<open>stack\<close>, \<open>Some None\<close> when that field is \<open>nil\<close>.  \<open>pe_tracer\<close> is the assertion \<open>err.(StackTracer)\<close> on the error
  itself, \<open>pe_As\<close> is \<open>errors.As\<close>, which looks along the chain of causes.
\<close>

record 'e pkg_errors =
  pe_New :: "nat list \<Rightarrow> string \<Rightarrow> 'e"
  pe_Wrapf :: "nat list \<Rightarrow> 'e \<Rightarrow> string \<Rightarrow> 'e"
  pe_WithMessagef :: "'e \<Rightarrow> string \<Rightarrow> 'e"
  pe_WithStack :: "nat list \<Rightarrow> 'e \<Rightarrow> 'e"
  pe_Errorf :: "string \<Rightarrow> 'e"
  pe_tracer :: "'e \<Rightarrow> nat list option"
  pe_As :: "'e \<Rightarrow> nat list option"
  pe_field :: "'e \<Rightarrow> nat list option option"
  pe_set_field :: "nat list \<Rightarrow> 'e \<Rightarrow> 'e"

text \<open>
  The documented behaviour, and the two facts about the private field that the source counts on: an error
  made by \<open>New\<close>, \<open>Wrapf\<close> or \<open>WithStack\<close> carries the stack of its call, at most 32 frames of it, in a field
  \<open>stack\<close>, and \<open>StackTrace\<close> returns what the field holds.
\<close>

definition stack_laws :: "'e pkg_errors \<Rightarrow> bool" where
  "stack_laws E \<longleftrightarrow>
     (\<forall>st m. pe_field E (pe_New E st m) = Some (Some (take 32 st))) \<and>
     (\<forall>st e m. pe_field E (pe_Wrapf E st e m) = Some (Some (take 32 st))) \<and>
     (\<forall>st e. pe_tracer E (pe_WithStack E st e) = Some (take 32 st)) \<and>
     (\<forall>e fs gs. pe_field E e = Some (Some gs) \<longrightarrow> pe_tracer E (pe_set_field E fs e) = Some fs) \<and>
     (\<forall>e m. pe_As E (pe_WithMessagef E e m) = pe_As E e) \<and>
     (\<forall>e st. pe_tracer E e = Some st \<longrightarrow> pe_As E e = Some st)"

section \<open>The functions\<close>

text \<open>The outer option is a panic, the inner one a \<open>nil\<close> error.\<close>

definition PopStack :: "'e pkg_errors \<Rightarrow> 'e option \<Rightarrow> 'e option option" where
  "PopStack E err =
     (case err of
        None \<Rightarrow> Some None
      | Some e \<Rightarrow>
          (case pe_field E e of
             None \<Rightarrow> None
           | Some None \<Rightarrow> Some err
           | Some (Some []) \<Rightarrow> None
           | Some (Some (_ # frames)) \<Rightarrow> Some (Some (pe_set_field E frames e))))"

definition Sentinel :: "'e pkg_errors \<Rightarrow> string \<Rightarrow> 'e" where
  "Sentinel E msg = pe_Errorf E msg"

definition New_error :: "'e pkg_errors \<Rightarrow> nat \<Rightarrow> nat list \<Rightarrow> string \<Rightarrow> 'e option option" where
  "New_error E here cs msg = PopStack E (Some (pe_New E (here # cs) msg))"

definition EnsureStack :: "'e pkg_errors \<Rightarrow> nat \<Rightarrow> nat list \<Rightarrow> 'e option \<Rightarrow> 'e option" where
  "EnsureStack E here cs cause =
     (case cause of
        None \<Rightarrow> None
      | Some e \<Rightarrow> if pe_tracer E e = None then Some (pe_WithStack E (here # cs) e) else cause)"

text \<open>
  \<open>callers\<close> as \<open>Wrap\<close> calls it, with \<open>skip\<close> 1: \<open>runtime.Callers(4)\<close> leaves out itself, \<open>callers\<close>, \<open>Wrap\<close> and the
  function that called \<open>Wrap\<close>; at most 32 frames are captured.
\<close>

definition callers :: "nat \<Rightarrow> nat list \<Rightarrow> nat list" where
  "callers skip cs = take 32 (drop skip cs)"

definition Wrap_error :: "'e pkg_errors \<Rightarrow> nat \<Rightarrow> nat list \<Rightarrow> 'e option \<Rightarrow> string \<Rightarrow> 'e option option" where
  "Wrap_error E here cs cause msg =
     (case cause of
        None \<Rightarrow> PopStack E None
      | Some e \<Rightarrow>
          (case pe_As E e of
             Some causeStack \<Rightarrow>
               if ancestorOfCause (callers 1 cs) causeStack then Some (Some (pe_WithMessagef E e msg))
               else PopStack E (Some (pe_Wrapf E (here # cs) e msg))
           | None \<Rightarrow> PopStack E (Some (pe_Wrapf E (here # cs) e msg))))"

section \<open>Properties\<close>

lemma PopStack_made:
  assumes "stack_laws E" and "pe_field E e = Some (Some (take 32 (here # cs)))"
  shows "\<exists>e1. PopStack E (Some e) = Some (Some e1) \<and> pe_As E e1 = Some (take 31 cs)"
  using assms by (auto simp: PopStack_def stack_laws_def numeral_eq_Suc)

lemma New_error_stack:
  assumes "stack_laws E"
  shows "\<exists>e. New_error E here cs msg = Some (Some e) \<and> pe_As E e = Some (take 31 cs)"
  unfolding New_error_def using assms by (intro PopStack_made) (simp_all add: stack_laws_def)

lemma Wrap_error_stack:
  assumes "stack_laws E"
  shows "\<exists>e1. Wrap_error E here cs (Some e) msg = Some (Some e1) \<and>
    pe_As E e1 = (case pe_As E e of
        Some s \<Rightarrow> if ancestorOfCause (take 32 (tl cs)) s then Some s else Some (take 31 cs)
      | None \<Rightarrow> Some (take 31 cs))"
proof -
  have pop: "\<exists>e1. PopStack E (Some (pe_Wrapf E (here # cs) e msg)) = Some (Some e1) \<and> pe_As E e1 = Some (take 31 cs)"
    using assms by (intro PopStack_made) (simp_all add: stack_laws_def)
  have wm: "pe_As E (pe_WithMessagef E e msg) = pe_As E e" using assms by (simp add: stack_laws_def)
  show ?thesis
    using pop wm by (cases "pe_As E e") (simp_all add: Wrap_error_def callers_def drop_Suc)
qed

text \<open>A series of calls of \<open>Wrap\<close> on the way up the stack, each with its place, stack and message.\<close>

fun wraps :: "'e pkg_errors \<Rightarrow> (nat \<times> nat list \<times> string) list \<Rightarrow> 'e option \<Rightarrow> 'e option option" where
  "wraps E [] err = Some err"
| "wraps E ((here, cs, m) # ws) err = Option.bind (Wrap_error E here cs err m) (wraps E ws)"

lemma Wrap_error_ancestor:
  assumes "stack_laws E" and "length cs \<le> 31" and "pe_As E e = Some cs" and "suffix (tl cs1) cs"
  shows "\<exists>e1. Wrap_error E h cs1 (Some e) m = Some (Some e1) \<and> pe_As E e1 = Some cs"
proof -
  have "length (tl cs1) \<le> 32" using assms(2,4) by (auto dest: suffix_length_le)
  then have "ancestorOfCause (take 32 (tl cs1)) cs" using assms(4)
    by (cases "tl cs1 = []") (auto simp: ancestorOfCause_iff suffix_def)
  then show ?thesis using Wrap_error_stack [OF assms(1), of h cs1 e m] assms(3) by simp
qed

lemma wraps_ancestors:
  assumes "stack_laws E" and "length cs \<le> 31"
  shows "pe_As E e = Some cs \<Longrightarrow> \<forall>(h, cs1, m) \<in> set ws. suffix (tl cs1) cs \<Longrightarrow>
    \<exists>e1. wraps E ws (Some e) = Some (Some e1) \<and> pe_As E e1 = Some cs"
proof (induction ws arbitrary: e)
  case (Cons w ws)
  obtain h cs1 m where w: "w = (h, cs1, m)" by (cases w)
  with Cons.prems Wrap_error_ancestor [OF assms, of e cs1 h m] obtain e2 where
    "Wrap_error E h cs1 (Some e) m = Some (Some e2)" "pe_As E e2 = Some cs" by auto
  with Cons.IH [of e2] Cons.prems(2) w show ?case by simp
qed simp

text \<open>
  C37.  \<open>Wrap\<close> adds a stack trace at most once per goroutine, as long as stacks are short: an error made
  by \<open>New\<close> at a stack of at most 31 frames keeps its own trace through every \<open>Wrap\<close> in a function that has
  directly or indirectly called the one that made it.  None of the functions panics, and \<open>Wrap\<close> of \<open>nil\<close> is
  \<open>nil\<close>.
\<close>

theorem Wrap_keeps_stack:
  assumes "stack_laws E" and "length cs \<le> 31" and "\<forall>(h, cs1, m) \<in> set ws. suffix (tl cs1) cs"
  shows "\<exists>e e1. New_error E here cs msg = Some (Some e) \<and> pe_As E e = Some cs \<and>
    wraps E ws (Some e) = Some (Some e1) \<and> pe_As E e1 = Some cs \<and> Wrap_error E here cs None msg = Some None"
proof -
  obtain e where e: "New_error E here cs msg = Some (Some e)" "pe_As E e = Some cs"
    using New_error_stack [OF assms(1), of here cs msg] assms(2) by auto
  moreover have "Wrap_error E here cs None msg = Some None" by (simp add: Wrap_error_def PopStack_def)
  ultimately show ?thesis using wraps_ancestors [OF assms(1,2) e(2) assms(3)] by blast
qed

text \<open>
  Deep stacks are not recognised: a trace made by \<open>New\<close> or \<open>Wrap\<close> has at most 31 frames, because one
  of 32 is popped, but \<open>Wrap\<close> compares it with up to 32 of its own.  Called at a stack of 33 frames or
  more it therefore adds another trace to every such error, also to one made at the very same place.
\<close>

theorem Wrap_deep_stack:
  assumes "stack_laws E" and "33 \<le> length cs" and "pe_As E e = Some s" and "length s \<le> 31"
  shows "\<exists>e1. Wrap_error E here cs (Some e) msg = Some (Some e1) \<and> pe_As E e1 = Some (take 31 cs)"
proof -
  have "length (take 32 (tl cs)) = 32" using assms(2) by simp
  then have "\<not> ancestorOfCause (take 32 (tl cs)) s" using assms(4) by (simp add: ancestorOfCause_def)
  then show ?thesis using Wrap_error_stack [OF assms(1), of here cs e msg] assms(3) by simp
qed

lemma EnsureStack_idem:
  assumes "stack_laws E"
  shows "EnsureStack E h2 cs2 (EnsureStack E h1 cs1 cause) = EnsureStack E h1 cs1 cause"
  using assms by (auto simp: EnsureStack_def stack_laws_def split: option.splits)

section \<open>A concrete instance\<close>

datatype traced_error =
    Fundamental string "nat list option"
  | WithStackError traced_error "nat list option"
  | WithMessageError string traced_error
  | PlainError string

fun traced_As :: "traced_error \<Rightarrow> nat list option" where
  "traced_As (Fundamental m st) = st"
| "traced_As (WithStackError e st) = (if st = None then traced_As e else st)"
| "traced_As (WithMessageError m e) = traced_As e"
| "traced_As (PlainError m) = None"

fun traced_own :: "traced_error \<Rightarrow> nat list option" where
  "traced_own (Fundamental m st) = st"
| "traced_own (WithStackError e st) = st"
| "traced_own _ = None"

fun traced_field :: "traced_error \<Rightarrow> nat list option option" where
  "traced_field (Fundamental m st) = Some st"
| "traced_field (WithStackError e st) = Some st"
| "traced_field _ = None"

fun traced_set :: "nat list \<Rightarrow> traced_error \<Rightarrow> traced_error" where
  "traced_set fs (Fundamental m st) = Fundamental m (Some fs)"
| "traced_set fs (WithStackError e st) = WithStackError e (Some fs)"
| "traced_set fs e = e"

definition traced_errors :: "traced_error pkg_errors" where
  "traced_errors = \<lparr>pe_New = (\<lambda>st m. Fundamental m (Some (take 32 st))),
     pe_Wrapf = (\<lambda>st e m. WithStackError (WithMessageError m e) (Some (take 32 st))),
     pe_WithMessagef = (\<lambda>e m. WithMessageError m e),
     pe_WithStack = (\<lambda>st e. WithStackError e (Some (take 32 st))),
     pe_Errorf = PlainError, pe_tracer = traced_own, pe_As = traced_As,
     pe_field = traced_field, pe_set_field = traced_set\<rparr>"

lemma traced_errors_laws: "stack_laws traced_errors"
proof -
  have "traced_own (traced_set fs e) = Some fs" if "traced_field e = Some (Some gs)" for e fs gs
    using that by (cases e) auto
  moreover have "traced_As e = Some st" if "traced_own e = Some st" for e st
    using that by (cases e) auto
  ultimately show ?thesis by (simp add: stack_laws_def traced_errors_def)
qed

theorem Wrap_keeps_stack_witness:
  "\<exists>e. New_error traced_errors 5 [2, 1] ''a'' = Some (Some e) \<and> pe_As traced_errors e = Some [2, 1]"
  using Wrap_keeps_stack [OF traced_errors_laws, of "[2, 1]" "[(6, [3, 1], ''b'')]" 5 "''a''"]
  by (auto simp: suffix_def)

theorem Wrap_deep_stack_witness:
  "\<exists>e1. Wrap_error traced_errors 5 [0..<33] (Some (Fundamental ''a'' (Some [0..<31]))) ''b'' = Some (Some e1) \<and>
     pe_As traced_errors e1 = Some (take 31 [0..<33])"
  by (rule Wrap_deep_stack [OF traced_errors_laws, of "[0..<33]" _ "[0..<31]"]) (simp_all add: traced_errors_def)

end
