(* ===== verification/Jwt.thy ===== *)
theory Jwt
  imports Prelude
begin

text \<open>
  The package \<open>jwt\<close>: the claims of an \<open>id_token\<close> and the SPIFFE URI of a client certificate header
  (\<open>jwt/model.go\<close>, \<open>jwt/raw.go\<close>, \<open>jwt/spiffe.go\<close>).  Parsing the signed token and decoding its claims
  (\<open>github.com/go-jose\<close>) are parameters.
\<close>

section \<open>JSON values and HTTP headers\<close>

text \<open>What \<open>encoding/json\<close> puts into an \<open>interface{}\<close>; objects keep their keys in a list.\<close>

datatype json =
    JNull
  | JBool bool
  | JNum int
  | JStr string
  | JArr "json list"
  | JObj "(string \<times> json) list"

text \<open>An \<open>http.Header\<close>: an absent key has no values.\<close>

type_synonym header = "string \<Rightarrow> string list"

definition header_get :: "header \<Rightarrow> string \<Rightarrow> string" where
  "header_get h k = (case h k of [] \<Rightarrow> [] | v # _ \<Rightarrow> v)"

section \<open>The web token\<close>

record issuer_attributes =
  Issuer :: string
  Subject :: string

record web_token = issuer_attributes +
  FirstName :: string
  LastName :: string
  Audiences :: "string list"
  Mail :: string

record raw_web_token = issuer_attributes +
  RawAudiences :: json
  RawEmail :: string
  RawMail :: string
  RawGivenName :: string
  RawFamilyName :: string
  RawFirstName :: string
  RawLastName :: string

definition getMail :: "raw_web_token \<Rightarrow> string" where
  "getMail r =
     (let mail = trimSpace (RawMail r)
      in if mail = [] then trimSpace (RawEmail r) else mail)"

definition getLastName :: "raw_web_token \<Rightarrow> string" where
  "getLastName r =
     (let lastName = trimSpace (RawLastName r)
      in if lastName = [] then trimSpace (RawFamilyName r) else lastName)"

definition getFirstName :: "raw_web_token \<Rightarrow> string" where
  "getFirstName r =
     (let firstName = trimSpace (RawFirstName r)
      in if firstName = [] then trimSpace (RawGivenName r) else firstName)"

fun string_elems :: "json list \<Rightarrow> string list" where
  "string_elems [] = []"
| "string_elems (JStr s # js) = s # string_elems js"
| "string_elems (_ # js) = string_elems js"

fun audiences_of :: "json \<Rightarrow> string list" where
  "audiences_of (JStr s) = [s]"
| "audiences_of (JArr js) = string_elems js"
| "audiences_of _ = []"

definition getAudiences :: "raw_web_token \<Rightarrow> string list" where
  "getAudiences r = audiences_of (RawAudiences r)"

text \<open>
  \<open>New\<close>: \<open>parse\<close> is \<open>jwt.ParseSigned\<close> and \<open>claims\<close> is \<open>UnsafeClaimsWithoutVerification\<close>.  The claims are
  decoded into the pointer variable \<open>rawToken\<close> itself, not into what it points to, and \<open>encoding/json\<close> decodes
  the JSON value \<open>null\<close> into a pointer by setting it to nil (\<open>Inr None\<close>): the first access to a field then
  panics (\<open>None\<close>).
\<close>

definition New_token ::
  "(string \<Rightarrow> string list \<Rightarrow> goerror + 'tok) \<Rightarrow> ('tok \<Rightarrow> goerror + raw_web_token option) \<Rightarrow>
   string \<Rightarrow> string list \<Rightarrow> (goerror + web_token) option" where
  "New_token parse claims idToken algs =
     (case parse idToken algs of
        Inl e \<Rightarrow> Some (Inl (WrapError ''unable to parse id_token'' e))
      | Inr token \<Rightarrow>
          (case claims token of
             Inl e \<Rightarrow> Some (Inl (WrapError ''unable to deserialize claims'' e))
           | Inr None \<Rightarrow> None
           | Inr (Some raw) \<Rightarrow>
               Some (Inr \<lparr>Issuer = Issuer raw, Subject = Subject raw,
                    FirstName = getFirstName raw, LastName = getLastName raw,
                    Audiences = getAudiences raw, Mail = getMail raw\<rparr>)))"

lemma New_token_Inr:
  assumes "New_token parse claims t algs = Some (Inr w)"
  obtains tok raw where "parse t algs = Inr tok" "claims tok = Inr (Some raw)"
    "Issuer w = Issuer raw" "Subject w = Subject raw" "Mail w = getMail raw"
    "Audiences w = getAudiences raw"
  using assms by (auto simp: New_token_def split: sum.splits option.splits)

lemma New_token_panics:
  "New_token parse claims t algs = None \<longleftrightarrow> (\<exists>tok. parse t algs = Inr tok \<and> claims tok = Inr None)"
  by (auto simp: New_token_def split: sum.splits option.splits)

lemma string_elems_set: "s \<in> set (string_elems js) \<longleftrightarrow> JStr s \<in> set js"
  by (induction js rule: string_elems.induct) auto

lemma audiences_of_set:
  "s \<in> set (audiences_of j) \<longleftrightarrow> j = JStr s \<or> (\<exists>js. j = JArr js \<and> JStr s \<in> set js)"
  by (cases j) (auto simp: string_elems_set)

section \<open>The SPIFFE URI\<close>

text \<open>The character class of \<open>spiffeUriReg\<close>: lower-case letters, colon, slash, dot, hyphen.\<close>

definition uri_char :: "char \<Rightarrow> bool" where
  "uri_char c =
     (let n = of_char c :: nat
      in (97 \<le> n \<and> n \<le> 122) \<or> c = CHR '':'' \<or> c = CHR ''/'' \<or> c = CHR ''.'' \<or> c = CHR ''-'')"

text \<open>
  The leftmost match of \<open>URI=([a-z:/.-]*)\<close>, whose group is greedy; \<open>None\<close> when nothing matches.
\<close>

fun find_uri :: "string \<Rightarrow> string option" where
  "find_uri [] = None"
| "find_uri (c # cs) =
     (if hasPrefix (c # cs) ''URI='' then Some (takeWhile uri_char (drop 4 (c # cs)))
      else find_uri cs)"

definition GetURIValue :: "string \<Rightarrow> string" where
  "GetURIValue headerVal = (case find_uri headerVal of Some m \<Rightarrow> m | None \<Rightarrow> [])"

definition HeaderSpiffeValue :: string where
  "HeaderSpiffeValue = ''X-Forwarded-Client-Cert''"

definition GetSpiffeUrlValue :: "header \<Rightarrow> string option" where
  "GetSpiffeUrlValue h =
     (let uriVal = GetURIValue (header_get h HeaderSpiffeValue)
      in if length uriVal > 0 then Some uriVal else None)"

lemma find_uri_chars: "find_uri s = Some u \<Longrightarrow> \<forall>c \<in> set u. uri_char c"
  by (induction s) (auto split: if_splits dest: set_takeWhileD)

lemma GetSpiffeUrlValue_Some:
  "GetSpiffeUrlValue h = Some u \<Longrightarrow> u \<noteq> [] \<and> (\<forall>c \<in> set u. uri_char c)"
  by (auto simp: GetSpiffeUrlValue_def GetURIValue_def Let_def split: option.splits if_splits
      dest: find_uri_chars)

lemma find_uri_here:
  assumes "\<forall>c \<in> set u. uri_char c" and "rest = [] \<or> \<not> uri_char (hd rest)"
  shows "find_uri (''URI='' @ u @ rest) = Some u"
proof -
  have "takeWhile uri_char (u @ rest) = u"
    using assms by (cases rest) (auto simp: takeWhile_append2)
  then show ?thesis by (simp add: hasPrefix_def)
qed

end
