(* ===== verification/Context.thy ===== *)
theory Context
  imports Jwt
begin

text \<open>
  The logger's attributes (\<open>logger/logger.go\<close>), the context keys (\<open>context/keys/keys.go\<close>), and the
  typed access to a request context (\<open>context/service_context.go\<close>, \<open>context/context.go\<close>,
  \<open>config/config.go\<close>, \<open>sentry/context.go\<close>).  A context is a finite chain of \<open>context.WithValue\<close>:
  a partial map from keys to values, the innermost value winning.
\<close>

section \<open>Loggers\<close>

text \<open>
  A logger is its level and the string fields it writes with every message; what it writes to is
  in the theory \<open>Log_Output\<close>.
\<close>

record logger =
  log_level :: int
  log_fields :: "(string \<times> string) list"

definition ChildLogger :: "logger \<Rightarrow> string \<Rightarrow> string \<Rightarrow> logger" where
  "ChildLogger l k v = l\<lparr>log_fields := log_fields l @ [(k, v)]\<rparr>"

definition ComponentLogger :: "logger \<Rightarrow> string \<Rightarrow> logger" where
  "ComponentLogger l component = ChildLogger l ''component'' component"

definition ErrInvalidKeyValPair :: goerror where
  "ErrInvalidKeyValPair = ErrorString ''invalid key value pair''"

text \<open>The loop over \<open>keyVal\<close>: the flag says whether the index is even, \<open>key\<close> is the last key seen.\<close>

fun child_attributes :: "logger \<Rightarrow> bool \<Rightarrow> string \<Rightarrow> string list \<Rightarrow> logger" where
  "child_attributes l evenIdx key [] = l"
| "child_attributes l evenIdx key (v # vs) =
     (if evenIdx then child_attributes l (\<not> evenIdx) v vs
      else child_attributes (ChildLogger l key v) (\<not> evenIdx) key vs)"

definition ChildLoggerWithAttributes :: "logger \<Rightarrow> string list \<Rightarrow> goerror + logger" where
  "ChildLoggerWithAttributes l keyVal =
     (if length keyVal mod 2 \<noteq> 0 then Inl ErrInvalidKeyValPair
      else Inr (child_attributes l True [] keyVal))"

text \<open>\<open>Must...\<close> ends the process (\<open>Fatal\<close>) on an odd number of arguments: \<open>None\<close>.\<close>

definition MustChildLoggerWithAttributes :: "logger \<Rightarrow> string list \<Rightarrow> logger option" where
  "MustChildLoggerWithAttributes l keyVal =
     (case ChildLoggerWithAttributes l keyVal of Inl _ \<Rightarrow> None | Inr l' \<Rightarrow> Some l')"

fun pairs_of :: "'a list \<Rightarrow> ('a \<times> 'a) list" where
  "pairs_of (k # v # kvs) = (k, v) # pairs_of kvs"
| "pairs_of _ = []"

lemma child_attributes_pairs:
  "even (length kvs) \<Longrightarrow>
   child_attributes l True key kvs = l\<lparr>log_fields := log_fields l @ pairs_of kvs\<rparr>"
  by (induction kvs arbitrary: l key rule: pairs_of.induct) (auto simp: ChildLogger_def)

lemma ChildLoggerWithAttributes_even [simp]:
  "even (length kvs) \<Longrightarrow>
   ChildLoggerWithAttributes l kvs = Inr (l\<lparr>log_fields := log_fields l @ pairs_of kvs\<rparr>)"
  by (simp add: ChildLoggerWithAttributes_def child_attributes_pairs even_iff_mod_2_eq_zero)

lemma MustChildLogger_even [simp]:
  "even (length kvs) \<Longrightarrow>
   MustChildLoggerWithAttributes l kvs = Some (l\<lparr>log_fields := log_fields l @ pairs_of kvs\<rparr>)"
  by (simp add: MustChildLoggerWithAttributes_def)

section \<open>Keys, values, contexts\<close>

datatype ctx_key = ContextKey string | ShutdownTimeoutKey | ForeignKey nat

datatype ctx_value =
    VString string
  | VBool bool
  | VDuration duration
  | VToken web_token
  | VTags tags
  | VLogger logger
  | VAny nat

type_synonym ctx = "ctx_key \<Rightarrow> ctx_value option"

definition WithValue :: "ctx \<Rightarrow> ctx_key \<Rightarrow> ctx_value \<Rightarrow> ctx" where
  "WithValue c k v = c(k \<mapsto> v)"

definition RequestIdCtxKey :: ctx_key where "RequestIdCtxKey = ContextKey ''request-id''"
definition LoggerCtxKey :: ctx_key where "LoggerCtxKey = ContextKey ''logger''"
definition ConfigCtxKey :: ctx_key where "ConfigCtxKey = ContextKey ''config''"
definition SentryTagsCtxKey :: ctx_key where "SentryTagsCtxKey = ContextKey ''sentryTags''"
definition TechnicalUserCtxKey :: ctx_key where "TechnicalUserCtxKey = ContextKey ''technicalUser''"
definition SpiffeCtxKey :: ctx_key where "SpiffeCtxKey = ContextKey ''spiffe''"
definition TenantIdCtxKey :: ctx_key where "TenantIdCtxKey = ContextKey ''tenantId''"
definition AuthHeaderCtxKey :: ctx_key where "AuthHeaderCtxKey = ContextKey ''authHeader''"
definition WebTokenCtxKey :: ctx_key where "WebTokenCtxKey = ContextKey ''webToken''"
definition UserIDCtxKey :: ctx_key where "UserIDCtxKey = ContextKey ''userId''"

lemmas ctx_key_defs [ctx_simps] =
  RequestIdCtxKey_def LoggerCtxKey_def ConfigCtxKey_def SentryTagsCtxKey_def
  TechnicalUserCtxKey_def SpiffeCtxKey_def TenantIdCtxKey_def AuthHeaderCtxKey_def
  WebTokenCtxKey_def UserIDCtxKey_def

lemma WithValue_apply [ctx_simps, simp]: "WithValue c k v k' = (if k' = k then Some v else c k')"
  by (simp add: WithValue_def)

text \<open>The \<open>%T\<close> of a context value.\<close>

fun type_name :: "ctx_value option \<Rightarrow> string" where
  "type_name None = ''<nil>''"
| "type_name (Some (VString _)) = ''string''"
| "type_name (Some (VBool _)) = ''bool''"
| "type_name (Some (VDuration _)) = ''time.Duration''"
| "type_name (Some (VToken _)) = ''jwt.WebToken''"
| "type_name (Some (VTags _)) = ''map[string]string''"
| "type_name (Some (VLogger _)) = ''*logger.Logger''"
| "type_name (Some (VAny _)) = ''interface {}''"

definition wrong_value :: "string \<Rightarrow> ctx_value option \<Rightarrow> string \<Rightarrow> goerror" where
  "wrong_value key v expected =
     ErrorString (''someone stored a wrong value in the ['' @ key @ ''] key with type ['' @
       type_name v @ ''], expected ['' @ expected @ '']'')"

section \<open>Typed access\<close>

definition get_string :: "ctx \<Rightarrow> ctx_key \<Rightarrow> string \<Rightarrow> goerror + string" where
  "get_string c k name =
     (case c k of Some (VString s) \<Rightarrow> Inr s | v \<Rightarrow> Inl (wrong_value name v ''string''))"

definition AddSpiffeToContext :: "ctx \<Rightarrow> string \<Rightarrow> ctx" where
  "AddSpiffeToContext c spiffe = WithValue c SpiffeCtxKey (VString spiffe)"

definition GetSpiffeFromContext :: "ctx \<Rightarrow> goerror + string" where
  "GetSpiffeFromContext c = get_string c SpiffeCtxKey ''spiffe''"

definition AddTenantToContext :: "ctx \<Rightarrow> string \<Rightarrow> ctx" where
  "AddTenantToContext c tenantId = WithValue c TenantIdCtxKey (VString tenantId)"

definition GetTenantFromContext :: "ctx \<Rightarrow> goerror + string" where
  "GetTenantFromContext c = get_string c TenantIdCtxKey ''tenantId''"

definition HasTenantInContext :: "ctx \<Rightarrow> bool" where
  "HasTenantInContext c = (case c TenantIdCtxKey of Some (VString _) \<Rightarrow> True | _ \<Rightarrow> False)"

definition AddAuthHeaderToContext :: "ctx \<Rightarrow> string \<Rightarrow> ctx" where
  "AddAuthHeaderToContext c v = WithValue c AuthHeaderCtxKey (VString v)"

definition GetAuthHeaderFromContext :: "ctx \<Rightarrow> goerror + string" where
  "GetAuthHeaderFromContext c =
     (case c AuthHeaderCtxKey of
        Some (VString s) \<Rightarrow>
          if s = [] then Inl (ErrorString (''someone stored a wrong or empty value in the '' @
            ''[authHeader] key with type [string], expected [string]''))
          else Inr s
      | v \<Rightarrow> Inl (ErrorString (''someone stored a wrong or empty value in the '' @
            ''[authHeader] key with type ['' @ type_name v @ ''], expected [string]'')))"

text \<open>\<open>new\<close> is \<open>jwt.New\<close> with its library parameters supplied; \<open>None\<close> when it panics.\<close>

definition AddWebTokenToContext ::
  "(string \<Rightarrow> string list \<Rightarrow> (goerror + web_token) option) \<Rightarrow> ctx \<Rightarrow> string \<Rightarrow> string list \<Rightarrow> ctx option" where
  "AddWebTokenToContext new c idToken algs =
     (case new idToken algs of
        None \<Rightarrow> None
      | Some (Inl err) \<Rightarrow> Some c
      | Some (Inr token) \<Rightarrow> Some (WithValue c WebTokenCtxKey (VToken token)))"

definition GetWebTokenFromContext :: "ctx \<Rightarrow> goerror + web_token" where
  "GetWebTokenFromContext c =
     (case c WebTokenCtxKey of
        Some (VToken t) \<Rightarrow> Inr t
      | v \<Rightarrow> Inl (wrong_value ''webToken'' v ''jwt.WebToken''))"

definition AddIsTechnicalIssuerToContext :: "ctx \<Rightarrow> ctx" where
  "AddIsTechnicalIssuerToContext c = WithValue c TechnicalUserCtxKey (VBool True)"

definition GetIsTechnicalIssuerFromContext :: "ctx \<Rightarrow> bool" where
  "GetIsTechnicalIssuerFromContext c =
     (case c TechnicalUserCtxKey of Some (VBool b) \<Rightarrow> b | _ \<Rightarrow> False)"

definition AddUserIDToContext :: "ctx \<Rightarrow> string \<Rightarrow> ctx" where
  "AddUserIDToContext c userID = WithValue c UserIDCtxKey (VString userID)"

definition GetUserIDFromContext :: "ctx \<Rightarrow> goerror + string" where
  "GetUserIDFromContext c = get_string c UserIDCtxKey ''userId''"

definition HasUserIDInContext :: "ctx \<Rightarrow> bool" where
  "HasUserIDInContext c = (case c UserIDCtxKey of Some (VString _) \<Rightarrow> True | _ \<Rightarrow> False)"

definition SetConfigInContext :: "ctx \<Rightarrow> nat \<Rightarrow> ctx" where
  "SetConfigInContext c cfg = WithValue c ConfigCtxKey (VAny cfg)"

definition LoadConfigFromContext :: "ctx \<Rightarrow> ctx_value option" where
  "LoadConfigFromContext c = c ConfigCtxKey"

definition SetLoggerInContext :: "ctx \<Rightarrow> logger \<Rightarrow> ctx" where
  "SetLoggerInContext c l = WithValue c LoggerCtxKey (VLogger l)"

text \<open>\<open>std\<close> is the package's \<open>StdLogger\<close>.\<close>

definition LoadLoggerFromContext :: "logger \<Rightarrow> ctx \<Rightarrow> logger" where
  "LoadLoggerFromContext std c = (case c LoggerCtxKey of Some (VLogger l) \<Rightarrow> l | _ \<Rightarrow> std)"

definition NewRequestLoggerFromZerolog :: "ctx \<Rightarrow> logger \<Rightarrow> logger" where
  "NewRequestLoggerFromZerolog c l =
     (let requestId = (case c RequestIdCtxKey of Some (VString s) \<Rightarrow> s | _ \<Rightarrow> [])
      in l\<lparr>log_fields := log_fields l @ [(''rid'', requestId)]\<rparr>)"

definition ContextWithSentryTags :: "ctx \<Rightarrow> tags \<Rightarrow> ctx" where
  "ContextWithSentryTags c t = WithValue c SentryTagsCtxKey (VTags t)"

text \<open>A type assertion without the second result: it panics when the key has no tags.\<close>

definition GetSentryTagsFromContext :: "ctx \<Rightarrow> tags option" where
  "GetSentryTagsFromContext c = (case c SentryTagsCtxKey of Some (VTags t) \<Rightarrow> Some t | _ \<Rightarrow> None)"

definition DefaultShutdownTimeout :: duration where
  "DefaultShutdownTimeout = 3 * Second"

text \<open>A \<open>nil\<close> context is \<open>None\<close>.\<close>

definition TimeoutFromContext :: "ctx option \<Rightarrow> duration" where
  "TimeoutFromContext c =
     (case c of None \<Rightarrow> DefaultShutdownTimeout
      | Some c' \<Rightarrow> (case c' ShutdownTimeoutKey of
                      Some (VDuration d) \<Rightarrow> d | _ \<Rightarrow> DefaultShutdownTimeout))"

lemmas ctx_access_defs [ctx_simps] =
  get_string_def AddSpiffeToContext_def GetSpiffeFromContext_def AddTenantToContext_def
  GetTenantFromContext_def HasTenantInContext_def AddAuthHeaderToContext_def
  GetAuthHeaderFromContext_def GetWebTokenFromContext_def AddIsTechnicalIssuerToContext_def
  GetIsTechnicalIssuerFromContext_def AddUserIDToContext_def GetUserIDFromContext_def
  HasUserIDInContext_def SetConfigInContext_def LoadConfigFromContext_def SetLoggerInContext_def
  LoadLoggerFromContext_def ContextWithSentryTags_def GetSentryTagsFromContext_def

end
