(* ===== verification/Api.thy ===== *)
theory Api
  imports Errors Context
begin

text \<open>
  The interfaces of the controller lifecycle (\<open>controller/lifecycle/api/api.go\<close>,
  \<open>controller/lifecycle/subroutine/subroutine.go\<close>, \<open>controller/lifecycle/runtimeobject\<close>,
  \<open>controller/lifecycle/util/convert.go\<close>) and the state a reconciliation runs on.

  A Kubernetes object is a record with the metadata and status fields the lifecycle reads or
  writes; they are the fields of \<open>TestApiObject\<close> in \<open>controller/testSupport/testApiObjects.go\<close>, and
  \<open>payload\<close> is the rest of the object (its specification and the rest of its status), of any type.
  Go interface values are records of functions.  Everything outside the process (the API server,
  the clock, the random source, whatever a subroutine talks to) is a world of any type \<open>'w\<close> that
  the functions pass on.  Logging is not modelled.
\<close>

section \<open>Objects\<close>

datatype cond_status = ConditionTrue | ConditionFalse | ConditionUnknown

record condition =
  cond_type :: string
  cond_status :: cond_status
  cond_reason :: string
  cond_message :: string
  cond_generation :: int
  cond_transition :: gotime

text \<open>The zero \<open>time.Time\<close> is 0; \<open>deletionTimestamp\<close> is a pointer.\<close>

record 'p object =
  obj_name :: string
  generation :: int
  labels :: "string \<rightharpoonup> string"
  finalizers :: "string list"
  deletionTimestamp :: "gotime option"
  conditions :: "condition list"
  nextReconcileTime :: gotime
  observedGeneration :: int
  terminators :: "string list"
  initializers :: "string list"
  payload :: 'p

text \<open>\<open>IsZero\<close> of \<open>*metav1.Time\<close>: a nil pointer or the zero time.\<close>

definition time_is_zero :: "gotime option \<Rightarrow> bool" where
  "time_is_zero t = (case t of None \<Rightarrow> True | Some x \<Rightarrow> x = 0)"

text \<open>
  The dynamic type of the reconciled instance, as far as type assertions look at it: whether it
  has the methods of \<open>RuntimeObjectConditions\<close> and \<open>RuntimeObjectSpreadReconcileStatus\<close>, and its
  \<open>GenerateNextReconcileTime\<close> when it has one.
\<close>

record 'p object_type =
  has_conditions :: bool
  has_spread_status :: bool
  reconcile_timer :: "('p object \<Rightarrow> duration) option"

text \<open>
  \<open>ToInterface\<close> returns an error when the assertion fails and reports it; \<open>MustToInterface\<close> then
  panics (\<open>None\<close>).  The interface asked for is given by the field of the type it looks at.
\<close>

definition cast_error :: goerror where
  "cast_error = ErrorString ''failed to cast instance''"

definition ToInterface :: "('p object_type \<Rightarrow> bool) \<Rightarrow> 'p object_type \<Rightarrow> goerror + unit" where
  "ToInterface implements t = (if implements t then Inr () else Inl cast_error)"

definition MustToInterface :: "('p object_type \<Rightarrow> bool) \<Rightarrow> 'p object_type \<Rightarrow> unit option" where
  "MustToInterface implements t =
     (case ToInterface implements t of Inr u \<Rightarrow> Some u | Inl _ \<Rightarrow> None)"

lemma MustToInterface_iff [simp]: "MustToInterface f t = (if f t then Some () else None)"
  by (simp add: MustToInterface_def ToInterface_def)

section \<open>Subroutines\<close>

text \<open>The only field of \<open>ctrl.Result\<close> the lifecycle looks at.\<close>

record ctrl_result =
  RequeueAfter :: duration

text \<open>
  A subroutine action gets the context and the instance, may change the instance and the world,
  and returns a result and an operator error.  \<open>Terminate\<close> and \<open>Initialize\<close> are optional
  interfaces: \<open>None\<close> when the type assertion fails.
\<close>

type_synonym ('p, 'w) action =
  "ctx \<Rightarrow> 'p object \<Rightarrow> 'w \<Rightarrow> (ctrl_result \<times> OperatorError) \<times> 'p object \<times> 'w"

record ('p, 'w) subroutine =
  GetName :: string
  Finalizers :: "'p object \<Rightarrow> string list"
  Process :: "('p, 'w) action"
  Finalize :: "('p, 'w) action"
  Terminate :: "('p, 'w) action option"
  Initialize :: "('p, 'w) action option"

section \<open>Managers\<close>

text \<open>
  \<open>ConditionManager\<close> and \<open>SpreadManager\<close>.  The condition slice is passed by pointer: the
  operations return the new slice with their boolean result.
\<close>

record 'w condition_manager =
  SetInstanceConditionUnknownIfNotSet ::
    "condition list \<Rightarrow> int \<Rightarrow> 'w \<Rightarrow> bool \<times> condition list \<times> 'w"
  SetSubroutineConditionToUnknownIfNotSet ::
    "condition list \<Rightarrow> int \<Rightarrow> string \<Rightarrow> bool \<Rightarrow> 'w \<Rightarrow> bool \<times> condition list \<times> 'w"
  SetSubroutineCondition ::
    "condition list \<Rightarrow> int \<Rightarrow> string \<Rightarrow> ctrl_result \<Rightarrow> goerror option \<Rightarrow> bool \<Rightarrow> 'w \<Rightarrow>
     bool \<times> condition list \<times> 'w"
  SetInstanceConditionReady ::
    "condition list \<Rightarrow> int \<Rightarrow> cond_status \<Rightarrow> 'w \<Rightarrow> bool \<times> condition list \<times> 'w"

record ('p, 'w) spread_manager =
  ReconcileRequired :: "'p object_type \<Rightarrow> 'p object \<Rightarrow> 'w \<Rightarrow> (bool \<times> 'w) option"
  OnNextReconcile ::
    "'p object_type \<Rightarrow> 'p object \<Rightarrow> 'w \<Rightarrow> ((ctrl_result \<times> goerror option) \<times> 'w) option"
  RemoveRefreshLabelIfExists :: "'p object \<Rightarrow> bool \<times> 'p object"
  SetNextReconcileTime :: "'p object_type \<Rightarrow> 'p object \<Rightarrow> 'w \<Rightarrow> ('p object \<times> 'w) option"
  UpdateObservedGeneration :: "'p object \<Rightarrow> 'p object"

record Config =
  OperatorName :: string
  ControllerName :: string
  ReadOnly :: bool

type_synonym ('p, 'w) prepare_context =
  "ctx \<Rightarrow> 'p object \<Rightarrow> 'w \<Rightarrow> (ctx \<times> OperatorError) \<times> 'p object \<times> 'w"

text \<open>
  A \<open>Lifecycle\<close>.  The last two fields are the optional interfaces \<open>TerminatingLifecycle\<close> and
  \<open>InitializingLifecycle\<close>: \<open>None\<close> when the lifecycle does not have the method.
\<close>

record ('p, 'w) lifecycle =
  lc_config :: Config
  lc_log :: logger
  lc_spreader :: "('p, 'w) spread_manager option"
  lc_conditions :: "'w condition_manager option"
  lc_prepare :: "('p, 'w) prepare_context option"
  lc_subroutines :: "('p, 'w) subroutine list"
  lc_terminator :: "string option"
  lc_initializer :: "string option"

section \<open>The environment and the state of a reconciliation\<close>

text \<open>
  The API client of controller-runtime.  A write takes the object as changed in memory and leaves
  in it what the server returns; \<open>MergeFrom\<close> patches also get the original.
\<close>

record namespaced_name =
  nn_namespace :: string
  nn_name :: string

record ('p, 'w) client =
  cl_Get :: "namespaced_name \<Rightarrow> 'p object \<Rightarrow> 'w \<Rightarrow> goerror option \<times> 'p object \<times> 'w"
  cl_Patch :: "'p object \<Rightarrow> 'p object \<Rightarrow> 'w \<Rightarrow> goerror option \<times> 'p object \<times> 'w"
  cl_StatusUpdate :: "'p object \<Rightarrow> 'w \<Rightarrow> goerror option \<times> 'p object \<times> 'w"
  cl_StatusPatch :: "'p object \<Rightarrow> 'p object \<Rightarrow> 'w \<Rightarrow> goerror option \<times> 'p object \<times> 'w"

text \<open>
  The library functions the lifecycle calls: the classification of API errors
  (\<open>kerrors.IsNotFound\<close>, \<open>kerrors.IsConflict\<close>), \<open>controllerutil\<close>'s finalizer functions, the unstructured conversion, and the access to string
  slices and fields of an unstructured object.
\<close>

record ('p, 'u) library =
  IsNotFound :: "goerror \<Rightarrow> bool"
  IsConflict :: "goerror \<Rightarrow> bool"
  ContainsFinalizer :: "'p object \<Rightarrow> string \<Rightarrow> bool"
  AddFinalizer :: "'p object \<Rightarrow> string \<Rightarrow> bool \<times> 'p object"
  RemoveFinalizer :: "'p object \<Rightarrow> string \<Rightarrow> bool \<times> 'p object"
  ToUnstructured :: "'p object \<Rightarrow> goerror + 'u"
  FromUnstructured :: "'u \<Rightarrow> 'p object \<Rightarrow> goerror + 'p object"
  NestedStringSlice :: "'u \<Rightarrow> string list \<Rightarrow> goerror + string list option"
  SetNestedStringSlice :: "'u \<Rightarrow> string list \<Rightarrow> string list \<Rightarrow> goerror + 'u"
  NestedFieldCopy :: "'u \<Rightarrow> string list \<Rightarrow> goerror + 'u option"
  DeepEqual :: "'u option \<Rightarrow> 'u option \<Rightarrow> bool"

datatype sub_action = DoProcess | DoFinalize | DoTerminate | DoInitialize

text \<open>
  What a reconciliation does to the outside, in order, the newest event last.  A write records the
  part of the sent object that the properties speak about: a patch its finalizers, a status update
  its conditions, a status patch its terminators and initializers.
\<close>

datatype event =
    EvGet
  | EvPatch "string list"
  | EvStatusUpdate "condition list"
  | EvStatusPatch "string list" "string list"
  | EvSub sub_action string
  | EvPrepare
  | EvSentry goerror

fun is_write :: "event \<Rightarrow> bool" where
  "is_write (EvPatch _) = True"
| "is_write (EvStatusUpdate _) = True"
| "is_write (EvStatusPatch _ _) = True"
| "is_write _ = False"

fun sub_of :: "event \<Rightarrow> (sub_action \<times> string) list" where
  "sub_of (EvSub a n) = [(a, n)]"
| "sub_of _ = []"

definition subs_run :: "event list \<Rightarrow> (sub_action \<times> string) list" where
  "subs_run tr = concat (map sub_of tr)"

lemma subs_run_simps [simp]:
  "subs_run [] = []"
  "subs_run (tr @ tr') = subs_run tr @ subs_run tr'"
  "subs_run (e # tr) = sub_of e @ subs_run tr"
  by (simp_all add: subs_run_def)

record 'w rstate =
  world :: 'w
  trace :: "event list"

definition emit :: "event \<Rightarrow> 'w rstate \<Rightarrow> 'w rstate" where
  "emit e s = s\<lparr>trace := trace s @ [e]\<rparr>"

lemma emit_sel [simp, trace_simps]:
  "trace (emit e s) = trace s @ [e]"
  "world (emit e s) = world s"
  by (simp_all add: emit_def)

text \<open>
  \<open>sentry.CaptureError\<close> as the lifecycle sees it: nothing for a \<open>nil\<close> error.  Which errors Sentry's
  own filter drops is modelled in the theory of the package \<open>sentry\<close>.
\<close>

definition capture :: "goerror option \<Rightarrow> 'w rstate \<Rightarrow> 'w rstate" where
  "capture err s = (case err of None \<Rightarrow> s | Some e \<Rightarrow> emit (EvSentry e) s)"

lemma capture_sel [simp]:
  "world (capture err s) = world s"
  "capture None s = s"
  "capture (Some e) s = emit (EvSentry e) s"
  by (auto simp: capture_def split: option.split)

definition do_Get :: "('p, 'w) client \<Rightarrow> namespaced_name \<Rightarrow> 'p object \<Rightarrow> 'w rstate \<Rightarrow>
    goerror option \<times> 'p object \<times> 'w rstate" where
  "do_Get cl n o1 s = (let (e, o2, w) = cl_Get cl n o1 (world s) in (e, o2, emit EvGet (s\<lparr>world := w\<rparr>)))"

definition do_Patch :: "('p, 'w) client \<Rightarrow> 'p object \<Rightarrow> 'p object \<Rightarrow> 'w rstate \<Rightarrow>
    goerror option \<times> 'p object \<times> 'w rstate" where
  "do_Patch cl o1 orig s =
     (let (e, o2, w) = cl_Patch cl o1 orig (world s) in (e, o2, emit (EvPatch (finalizers o1)) (s\<lparr>world := w\<rparr>)))"

definition do_StatusUpdate :: "('p, 'w) client \<Rightarrow> 'p object \<Rightarrow> 'w rstate \<Rightarrow>
    goerror option \<times> 'p object \<times> 'w rstate" where
  "do_StatusUpdate cl o1 s =
     (let (e, o2, w) = cl_StatusUpdate cl o1 (world s) in (e, o2, emit (EvStatusUpdate (conditions o1)) (s\<lparr>world := w\<rparr>)))"

definition do_StatusPatch :: "('p, 'w) client \<Rightarrow> 'p object \<Rightarrow> 'p object \<Rightarrow> 'w rstate \<Rightarrow>
    goerror option \<times> 'p object \<times> 'w rstate" where
  "do_StatusPatch cl o1 orig s =
     (let (e, o2, w) = cl_StatusPatch cl o1 orig (world s) in (e, o2, emit (EvStatusPatch (terminators o1) (initializers o1)) (s\<lparr>world := w\<rparr>)))"

definition run_action :: "sub_action \<Rightarrow> string \<Rightarrow> ('p, 'w) action \<Rightarrow> ctx \<Rightarrow> 'p object \<Rightarrow> 'w rstate \<Rightarrow>
    (ctrl_result \<times> OperatorError) \<times> 'p object \<times> 'w rstate" where
  "run_action a n f c inst s =
     (let (r, inst', w) = f c inst (world s) in (r, inst', emit (EvSub a n) (s\<lparr>world := w\<rparr>)))"

lemma do_trace [trace_simps]:
  "do_Get cl nn o1 s = (e, o2, s') \<Longrightarrow> trace s' = trace s @ [EvGet]"
  "do_Patch cl o1 orig s = (e, o2, s') \<Longrightarrow> trace s' = trace s @ [EvPatch (finalizers o1)]"
  "do_StatusUpdate cl o1 s = (e, o2, s') \<Longrightarrow> trace s' = trace s @ [EvStatusUpdate (conditions o1)]"
  "do_StatusPatch cl o1 orig s = (e, o2, s') \<Longrightarrow> trace s' = trace s @ [EvStatusPatch (terminators o1) (initializers o1)]"
  "run_action a n f c inst s = (r, o2, s') \<Longrightarrow> trace s' = trace s @ [EvSub a n]"
  by (auto simp: do_Get_def do_Patch_def do_StatusUpdate_def do_StatusPatch_def run_action_def
      split: prod.splits)

end
