(* ===== verification/Conditions.thy ===== *)
theory Conditions
  imports Api
begin

text \<open>
  Status conditions: the condition manager of the lifecycle
  (\<open>controller/lifecycle/conditions/conditions.go\<close>) and the conditions service
  (\<open>controller/conditions/conditionsService.go\<close>).  The two functions of
  \<open>k8s.io/apimachinery/pkg/api/meta\<close> they call are parameters; \<open>meta_laws\<close> states what their
  documentation promises.  The locale \<open>condition_contract\<close> is what the lifecycle relies on.
\<close>

section \<open>The library and its documented behaviour\<close>

record 'w meta_api =
  FindStatusCondition :: "condition list \<Rightarrow> string \<Rightarrow> condition option"
  SetStatusCondition :: "condition list \<Rightarrow> condition \<Rightarrow> 'w \<Rightarrow> bool \<times> condition list \<times> 'w"

definition cond_lookup :: "condition list \<Rightarrow> string \<Rightarrow> condition option" where
  "cond_lookup cs t = List.find (\<lambda>c. cond_type c = t) cs"

definition status_of :: "condition list \<Rightarrow> string \<Rightarrow> cond_status option" where
  "status_of cs t = map_option cond_status (cond_lookup cs t)"

text \<open>
  The first condition of the type is overwritten in place; without one, the condition is appended.
\<close>

fun put_condition :: "condition \<Rightarrow> condition list \<Rightarrow> condition list" where
  "put_condition c [] = [c]"
| "put_condition c (d # ds) =
     (if cond_type d = cond_type c then c # ds else d # put_condition c ds)"

text \<open>
  The documentation: \<open>FindStatusCondition\<close> finds the condition of the type; \<open>SetStatusCondition\<close>
  updates the existing condition of the type or appends the new one, and chooses its
  \<open>LastTransitionTime\<close>.
\<close>

definition meta_laws :: "'w meta_api \<Rightarrow> bool" where
  "meta_laws M \<longleftrightarrow>
     (\<forall>cs t. FindStatusCondition M cs t = cond_lookup cs t) \<and>
     (\<forall>cs c w. \<exists>b t w'. SetStatusCondition M cs c w =
        (b, put_condition (c\<lparr>cond_transition := t\<rparr>) cs, w'))"

lemma cond_lookup_simps [simp]:
  "cond_lookup [] t = None"
  "cond_lookup (c # cs) t = (if cond_type c = t then Some c else cond_lookup cs t)"
  by (simp_all add: cond_lookup_def)

lemma cond_lookup_put [simp]:
  "cond_lookup (put_condition c cs) t = (if t = cond_type c then Some c else cond_lookup cs t)"
  by (induction cs) auto

lemma status_of_put [simp]:
  "status_of (put_condition c cs) t = (if t = cond_type c then Some (cond_status c) else status_of cs t)"
  by (simp add: status_of_def)

lemma length_put_condition:
  "length (put_condition c cs) =
     (if cond_lookup cs (cond_type c) = None then Suc (length cs) else length cs)"
  by (induction cs) auto

lemma distinct_put_condition:
  "distinct (map cond_type cs) \<Longrightarrow> distinct (map cond_type (put_condition c cs))"
proof (induction cs)
  case (Cons d ds)
  have "set (map cond_type (put_condition c ds)) \<subseteq> insert (cond_type c) (set (map cond_type ds))"
    by (induction ds) auto
  with Cons show ?case by auto
qed simp

text \<open>
  A callee that gets a slice by value writes through to the caller's elements, but the caller's
  length stays: what the caller sees of the callee's slice is its prefix.
\<close>

definition callers_view :: "'a list \<Rightarrow> 'a list \<Rightarrow> 'a list" where
  "callers_view old new = take (length old) new"

lemma callers_view_put:
  "callers_view cs (put_condition c cs) =
     (if cond_lookup cs (cond_type c) = None then cs else put_condition c cs)"
proof (cases "cond_lookup cs (cond_type c) = None")
  case True
  then have "put_condition c cs = cs @ [c]" by (induction cs) (auto split: if_splits)
  with True show ?thesis by (simp add: callers_view_def)
next
  case False
  then have "length (put_condition c cs) = length cs" by (simp only: length_put_condition if_False)
  with False show ?thesis by (auto simp: callers_view_def)
qed

section \<open>The condition manager\<close>

definition ConditionReady :: string where
  "ConditionReady = ''Ready''"

definition SetInstanceConditionReady_impl ::
  "'w meta_api \<Rightarrow> condition list \<Rightarrow> int \<Rightarrow> cond_status \<Rightarrow> 'w \<Rightarrow> bool \<times> condition list \<times> 'w" where
  "SetInstanceConditionReady_impl M conds gen status w =
     (let msg = (case status of
                   ConditionTrue \<Rightarrow> ''The resource is ready''
                 | ConditionFalse \<Rightarrow> ''The resource is not ready''
                 | ConditionUnknown \<Rightarrow> ''The resource is processing'')
      in SetStatusCondition M conds
           \<lparr>cond_type = ConditionReady, cond_status = status, cond_reason = ''Complete'',
            cond_message = msg, cond_generation = gen, cond_transition = 0\<rparr> w)"

definition SetInstanceConditionUnknownIfNotSet_impl ::
  "'w meta_api \<Rightarrow> condition list \<Rightarrow> int \<Rightarrow> 'w \<Rightarrow> bool \<times> condition list \<times> 'w" where
  "SetInstanceConditionUnknownIfNotSet_impl M conds gen w =
     (case FindStatusCondition M conds ConditionReady of
        None \<Rightarrow> SetInstanceConditionReady_impl M conds gen ConditionUnknown w
      | Some _ \<Rightarrow> (False, conds, w))"

definition getConditionNameAndMessage :: "string \<Rightarrow> bool \<Rightarrow> string \<times> string" where
  "getConditionNameAndMessage name isFinalize =
     (if isFinalize then (name @ ''_Finalize'', ''subroutine finalization'')
      else (name @ ''_Ready'', ''subroutine''))"

definition SetSubroutineConditionToUnknownIfNotSet_impl ::
  "'w meta_api \<Rightarrow> condition list \<Rightarrow> int \<Rightarrow> string \<Rightarrow> bool \<Rightarrow> 'w \<Rightarrow> bool \<times> condition list \<times> 'w" where
  "SetSubroutineConditionToUnknownIfNotSet_impl M conds gen name isFinalize w =
     (let (cname, cmsg) = getConditionNameAndMessage name isFinalize
      in case FindStatusCondition M conds cname of
           None \<Rightarrow> SetStatusCondition M conds
             \<lparr>cond_type = cname, cond_status = ConditionUnknown, cond_reason = ''Processing'',
              cond_message = ''The '' @ cmsg @ '' is processing'', cond_generation = gen,
              cond_transition = 0\<rparr> w
         | Some _ \<Rightarrow> (False, conds, w))"

text \<open>The error of the last case is \<open>nil\<close> when the requeue delay is negative.\<close>

definition error_verb :: "goerror option \<Rightarrow> string" where
  "error_verb e = (case e of None \<Rightarrow> ''%!s(<nil>)'' | Some e' \<Rightarrow> error_text e')"

definition SetSubroutineCondition_impl ::
  "'w meta_api \<Rightarrow> condition list \<Rightarrow> int \<Rightarrow> string \<Rightarrow> ctrl_result \<Rightarrow> goerror option \<Rightarrow> bool \<Rightarrow> 'w \<Rightarrow>
   bool \<times> condition list \<times> 'w" where
  "SetSubroutineCondition_impl M conds gen name result err isFinalize w =
     (let (cname, cmsg) = getConditionNameAndMessage name isFinalize
      in if err = None \<and> RequeueAfter result = 0 then
           SetStatusCondition M conds
             \<lparr>cond_type = cname, cond_status = ConditionTrue, cond_reason = ''Complete'',
              cond_message = ''The '' @ cmsg @ '' is complete'', cond_generation = gen,
              cond_transition = 0\<rparr> w
         else if err = None \<and> RequeueAfter result > 0 then
           SetStatusCondition M conds
             \<lparr>cond_type = cname, cond_status = ConditionUnknown, cond_reason = ''Processing'',
              cond_message = ''The '' @ cmsg @ '' is processing'', cond_generation = gen,
              cond_transition = 0\<rparr> w
         else
           SetStatusCondition M conds
             \<lparr>cond_type = cname, cond_status = ConditionFalse, cond_reason = ''Error'',
              cond_message = ''The '' @ cmsg @ '' has an error: '' @ error_verb err,
              cond_generation = gen, cond_transition = 0\<rparr> w)"

definition NewConditionManager :: "'w meta_api \<Rightarrow> 'w condition_manager" where
  "NewConditionManager M =
     \<lparr>SetInstanceConditionUnknownIfNotSet = SetInstanceConditionUnknownIfNotSet_impl M,
      SetSubroutineConditionToUnknownIfNotSet = SetSubroutineConditionToUnknownIfNotSet_impl M,
      SetSubroutineCondition = SetSubroutineCondition_impl M,
      SetInstanceConditionReady = SetInstanceConditionReady_impl M\<rparr>"

lemma meta_laws_find: "meta_laws M \<Longrightarrow> FindStatusCondition M cs t = cond_lookup cs t"
  by (simp add: meta_laws_def)

lemma meta_laws_set:
  assumes "meta_laws M" and "SetStatusCondition M cs c w = (b, cs', w')"
  shows "\<exists>t. cs' = put_condition (c\<lparr>cond_transition := t\<rparr>) cs"
proof -
  from assms(1) obtain b2 t w2 where
    "SetStatusCondition M cs c w = (b2, put_condition (c\<lparr>cond_transition := t\<rparr>) cs, w2)"
    unfolding meta_laws_def by blast
  with assms(2) show ?thesis by auto
qed

lemma subroutine_names_not_Ready [simp]:
  "fst (getConditionNameAndMessage n f) \<noteq> ConditionReady"
proof
  assume a: "fst (getConditionNameAndMessage n f) = ConditionReady"
  have "length ConditionReady = 5" by (simp add: ConditionReady_def)
  moreover have "length (fst (getConditionNameAndMessage n f)) \<ge> 6"
    by (simp add: getConditionNameAndMessage_def)
  ultimately show False using a by simp
qed

lemma subroutine_names_inj:
  "fst (getConditionNameAndMessage n f) = fst (getConditionNameAndMessage m f) \<Longrightarrow> n = m"
  by (auto simp: getConditionNameAndMessage_def split: if_splits)

section \<open>What the lifecycle relies on\<close>

text \<open>
  The contract of a condition manager.  \<open>lib\<close> is the assumption on third-party code under which the
  provider keeps it.  \<open>sub_name n f\<close> is the type of the condition of subroutine \<open>n\<close> (\<open>f\<close>: in
  deletion).
\<close>

locale condition_contract =
  fixes cm :: "'w condition_manager"
    and sub_name :: "string \<Rightarrow> bool \<Rightarrow> string"
    and lib :: bool
  assumes ready_put: "lib \<Longrightarrow> SetInstanceConditionReady cm cs g st w = (b, cs', w') \<Longrightarrow>
      \<exists>c. cs' = put_condition c cs \<and> cond_type c = ConditionReady \<and> cond_status c = st \<and>
          cond_generation c = g"
    and ready_unknown: "lib \<Longrightarrow> SetInstanceConditionUnknownIfNotSet cm cs g w = (b, cs', w') \<Longrightarrow>
      (cond_lookup cs ConditionReady \<noteq> None \<longrightarrow> cs' = cs) \<and>
      (cond_lookup cs ConditionReady = None \<longrightarrow>
        (\<exists>c. cs' = put_condition c cs \<and> cond_type c = ConditionReady \<and> cond_status c = ConditionUnknown))"
    and sub_unknown: "lib \<Longrightarrow> SetSubroutineConditionToUnknownIfNotSet cm cs g n f w = (b, cs', w') \<Longrightarrow>
      (cond_lookup cs (sub_name n f) \<noteq> None \<longrightarrow> cs' = cs) \<and>
      (cond_lookup cs (sub_name n f) = None \<longrightarrow>
        (\<exists>c. cs' = put_condition c cs \<and> cond_type c = sub_name n f \<and> cond_status c = ConditionUnknown))"
    and sub_put: "lib \<Longrightarrow> SetSubroutineCondition cm cs g n r e f w = (b, cs', w') \<Longrightarrow>
      \<exists>c. cs' = put_condition c cs \<and> cond_type c = sub_name n f \<and> cond_generation c = g \<and>
          cond_status c = (if e = None \<and> RequeueAfter r = 0 then ConditionTrue
                           else if e = None \<and> RequeueAfter r > 0 then ConditionUnknown
                           else ConditionFalse)"
    and sub_not_ready: "sub_name n f \<noteq> ConditionReady"
begin

lemma ready_status:
  "lib \<Longrightarrow> SetInstanceConditionReady cm cs g st w = (b, cs', w') \<Longrightarrow>
   status_of cs' ConditionReady = Some st"
  using ready_put by fastforce

lemma ready_frame:
  "lib \<Longrightarrow> SetInstanceConditionReady cm cs g st w = (b, cs', w') \<Longrightarrow> t \<noteq> ConditionReady \<Longrightarrow>
   cond_lookup cs' t = cond_lookup cs t"
  using ready_put by fastforce

lemma ready_through_copy:
  assumes "lib" "SetInstanceConditionReady cm cs g st w = (b, cs', w')"
    and "cond_lookup cs ConditionReady \<noteq> None"
  shows "callers_view cs cs' = cs'"
  using ready_put [OF assms(1,2)] assms(3) by (auto simp: callers_view_put)

lemma ready_established:
  "lib \<Longrightarrow> SetInstanceConditionUnknownIfNotSet cm cs g w = (b, cs', w') \<Longrightarrow>
   cond_lookup cs' ConditionReady \<noteq> None"
  using ready_unknown [of cs g w b cs' w'] by (metis cond_lookup_put option.distinct(1))

lemma sub_keeps_ready:
  "lib \<Longrightarrow> SetSubroutineCondition cm cs g n r e f w = (b, cs', w') \<Longrightarrow>
   cond_lookup cs' ConditionReady = cond_lookup cs ConditionReady"
  using sub_put sub_not_ready by (metis cond_lookup_put)

lemma sub_unknown_keeps_ready:
  "lib \<Longrightarrow> SetSubroutineConditionToUnknownIfNotSet cm cs g n f w = (b, cs', w') \<Longrightarrow>
   cond_lookup cs' ConditionReady = cond_lookup cs ConditionReady"
  using sub_unknown sub_not_ready by (metis cond_lookup_put)

lemma sub_established:
  "lib \<Longrightarrow> SetSubroutineConditionToUnknownIfNotSet cm cs g n f w = (b, cs', w') \<Longrightarrow>
   cond_lookup cs' (sub_name n f) \<noteq> None"
  using sub_unknown [of cs g n f w b cs' w'] by (metis cond_lookup_put option.distinct(1))

lemma sub_status:
  "lib \<Longrightarrow> SetSubroutineCondition cm cs g n r e f w = (b, cs', w') \<Longrightarrow>
   status_of cs' (sub_name n f) =
     Some (if e = None \<and> RequeueAfter r = 0 then ConditionTrue
           else if e = None \<and> RequeueAfter r > 0 then ConditionUnknown else ConditionFalse)"
  using sub_put by fastforce

end

lemma NewConditionManager_sel [simp]:
  "SetInstanceConditionUnknownIfNotSet (NewConditionManager M) = SetInstanceConditionUnknownIfNotSet_impl M"
  "SetSubroutineConditionToUnknownIfNotSet (NewConditionManager M) =
     SetSubroutineConditionToUnknownIfNotSet_impl M"
  "SetSubroutineCondition (NewConditionManager M) = SetSubroutineCondition_impl M"
  "SetInstanceConditionReady (NewConditionManager M) = SetInstanceConditionReady_impl M"
  by (simp_all add: NewConditionManager_def)

lemma ready_impl_put:
  assumes "meta_laws M" "SetInstanceConditionReady_impl M cs g st w = (b, cs', w')"
  shows "\<exists>c. cs' = put_condition c cs \<and> cond_type c = ConditionReady \<and> cond_status c = st \<and>
           cond_generation c = g"
  using meta_laws_set [OF assms(1) assms(2) [unfolded SetInstanceConditionReady_impl_def Let_def]]
  by (elim exE) (intro exI conjI, assumption, simp_all)

definition subroutine_condition :: "string \<Rightarrow> bool \<Rightarrow> string" where
  "subroutine_condition n f = fst (getConditionNameAndMessage n f)"

lemma sub_unknown_impl:
  assumes "meta_laws M" "SetSubroutineConditionToUnknownIfNotSet_impl M cs g n f w = (b, cs', w')"
  shows "(cond_lookup cs (subroutine_condition n f) \<noteq> None \<longrightarrow> cs' = cs) \<and>
      (cond_lookup cs (subroutine_condition n f) = None \<longrightarrow>
        (\<exists>c. cs' = put_condition c cs \<and> cond_type c = subroutine_condition n f \<and>
             cond_status c = ConditionUnknown))"
  using assms
  by (auto simp: SetSubroutineConditionToUnknownIfNotSet_impl_def subroutine_condition_def
        meta_laws_find split: prod.splits option.splits dest!: meta_laws_set [OF assms(1)])

lemma sub_put_impl:
  assumes "meta_laws M" "SetSubroutineCondition_impl M cs g n r e f w = (b, cs', w')"
  shows "\<exists>c. cs' = put_condition c cs \<and> cond_type c = subroutine_condition n f \<and> cond_generation c = g \<and>
          cond_status c = (if e = None \<and> RequeueAfter r = 0 then ConditionTrue
                           else if e = None \<and> RequeueAfter r > 0 then ConditionUnknown
                           else ConditionFalse)"
  using assms
  by (auto simp: SetSubroutineCondition_impl_def subroutine_condition_def
        split: prod.splits if_splits dest!: meta_laws_set [OF assms(1)])

lemma ready_unknown_impl:
  assumes "meta_laws M" "SetInstanceConditionUnknownIfNotSet_impl M cs g w = (b, cs', w')"
  shows "(cond_lookup cs ConditionReady \<noteq> None \<longrightarrow> cs' = cs) \<and>
      (cond_lookup cs ConditionReady = None \<longrightarrow>
        (\<exists>c. cs' = put_condition c cs \<and> cond_type c = ConditionReady \<and> cond_status c = ConditionUnknown))"
  using assms ready_impl_put [OF assms(1)]
  by (auto simp: SetInstanceConditionUnknownIfNotSet_impl_def meta_laws_find
      split: option.splits) blast

interpretation cm: condition_contract "NewConditionManager M" subroutine_condition "meta_laws M" for M
  by unfold_locales
    (simp_all add: ready_impl_put sub_put_impl subroutine_condition_def [of _ _]
      sub_unknown_impl [unfolded subroutine_condition_def] ready_unknown_impl
      sub_put_impl [unfolded subroutine_condition_def])

section \<open>The conditions service\<close>

text \<open>A service sets and reads the condition of one type (\<open>controller/conditions\<close>).\<close>

record conditionsService =
  conditionType :: string

definition NewConditionsService :: "string \<Rightarrow> conditionsService" where
  "NewConditionsService ctype = \<lparr>conditionType = ctype\<rparr>"

definition setCondition ::
  "'w meta_api \<Rightarrow> int \<Rightarrow> condition list \<Rightarrow> string \<Rightarrow> cond_status \<Rightarrow> string \<Rightarrow> string \<Rightarrow> gotime \<Rightarrow> 'w \<Rightarrow>
   condition list \<times> 'w" where
  "setCondition M gen conds ctype status reason msg now w =
     (let (_, conds', w') = SetStatusCondition M conds
            \<lparr>cond_type = ctype, cond_status = status, cond_reason = reason, cond_message = msg,
             cond_generation = gen, cond_transition = now\<rparr> w
      in (conds', w'))"

definition SetTrue where
  "SetTrue M c gen conds reason msg now w =
     setCondition M gen conds (conditionType c) ConditionTrue reason msg now w"

definition SetFalse where
  "SetFalse M c gen conds reason msg now w =
     setCondition M gen conds (conditionType c) ConditionFalse reason msg now w"

definition GetStatus :: "'w meta_api \<Rightarrow> conditionsService \<Rightarrow> condition list \<Rightarrow> condition option" where
  "GetStatus M c conds = FindStatusCondition M conds (conditionType c)"

definition IsStatusTrue :: "'w meta_api \<Rightarrow> conditionsService \<Rightarrow> condition list \<Rightarrow> bool" where
  "IsStatusTrue M c conds =
     (case GetStatus M c conds of
        None \<Rightarrow> False | Some c \<Rightarrow> cond_status c = ConditionTrue)"

lemma setCondition_put:
  assumes "meta_laws M"
  shows "\<exists>t. fst (setCondition M gen conds ctype status reason msg now w) =
    put_condition \<lparr>cond_type = ctype, cond_status = status, cond_reason = reason, cond_message = msg,
      cond_generation = gen, cond_transition = t\<rparr> conds"
  by (auto simp: setCondition_def split: prod.splits dest!: meta_laws_set [OF assms])

text \<open>The services of different condition types do not disturb each other.\<close>

theorem conditions_service_spec:
  assumes "meta_laws M"
  shows "IsStatusTrue M (NewConditionsService ct) (fst (SetTrue M (NewConditionsService cs) gen conds reason msg now w)) \<longleftrightarrow>
      ct = cs \<or> IsStatusTrue M (NewConditionsService ct) conds"
    and "IsStatusTrue M (NewConditionsService ct) (fst (SetFalse M (NewConditionsService cs) gen conds reason msg now w)) \<longleftrightarrow>
      ct \<noteq> cs \<and> IsStatusTrue M (NewConditionsService ct) conds"
proof -
  note put = setCondition_put [OF assms, of gen conds cs _ reason msg now w]
  note defs = IsStatusTrue_def GetStatus_def NewConditionsService_def meta_laws_find [OF assms]
  show "IsStatusTrue M (NewConditionsService ct) (fst (SetTrue M (NewConditionsService cs) gen conds reason msg now w)) \<longleftrightarrow>
      ct = cs \<or> IsStatusTrue M (NewConditionsService ct) conds"
    using put [of ConditionTrue] by (auto simp: SetTrue_def defs split: if_splits)
  show "IsStatusTrue M (NewConditionsService ct) (fst (SetFalse M (NewConditionsService cs) gen conds reason msg now w)) \<longleftrightarrow>
      ct \<noteq> cs \<and> IsStatusTrue M (NewConditionsService ct) conds"
    using put [of ConditionFalse] by (auto simp: SetFalse_def defs split: if_splits)
qed

text \<open>A concrete library that satisfies the laws: the world is the clock.\<close>

definition example_meta :: "int meta_api" where
  "example_meta = \<lparr>FindStatusCondition = cond_lookup,
     SetStatusCondition = (\<lambda>cs c w. (put_condition (c\<lparr>cond_transition := w\<rparr>) cs \<noteq> cs,
        put_condition (c\<lparr>cond_transition := w\<rparr>) cs, w + 1))\<rparr>"

lemma example_meta_laws: "meta_laws example_meta"
  by (auto simp: meta_laws_def example_meta_def)

end
