(* ===== verification/Spread.thy ===== *)
theory Spread
  imports Api
begin

text \<open>
  Spreading of reconciliations: \<open>controller/lifecycle/spread/spread.go\<close>, the contract of a
  \<open>SpreadManager\<close> that the lifecycle relies on, and its two providers in the repository, the
  \<open>Spreader\<close> and the \<open>TestSpreader\<close> of \<open>controller/testSupport/lifecycle.go\<close>.
\<close>

section \<open>Clock and random numbers\<close>

text \<open>
  \<open>time.Now\<close> and the raw draw behind \<open>rand.Int64N\<close> come from the world; the draw is reduced to the
  interval asked for, and \<open>Int64N\<close> panics on an empty interval.
\<close>

record 'w stdlib =
  Now :: "'w \<Rightarrow> gotime \<times> 'w"
  Draw :: "'w \<Rightarrow> int \<times> 'w"

definition Int64N :: "'w stdlib \<Rightarrow> int \<Rightarrow> 'w \<Rightarrow> (int \<times> 'w) option" where
  "Int64N L n w =
     (if n \<le> 0 then None else (let (r, w') = Draw L w in Some (r mod n, w')))"

section \<open>The spreader\<close>

definition ReconcileRefreshLabel :: string where
  "ReconcileRefreshLabel = ''platform-mesh.io/refresh-reconcile''"

definition defaultMaxReconcileDuration :: duration where
  "defaultMaxReconcileDuration = 24 * Hour"

text \<open>
  \<open>int64(maxReconcileTime.Minutes() / 2)\<close> is the quotient by two minutes, truncated.  The code
  computes it in 64-bit floating point, which is exact for durations below 90 days and for whole
  minutes.
\<close>

definition getNextReconcileTime :: "'w stdlib \<Rightarrow> duration \<Rightarrow> 'w \<Rightarrow> (duration \<times> 'w) option" where
  "getNextReconcileTime L maxReconcileTime w = do {
     let minTime = go_quot maxReconcileTime (2 * Minute);
     (jitter, w') \<leftarrow> Int64N L minTime w;
     Some ((jitter + minTime) * Minute, w')
   }"

definition OnNextReconcile_impl ::
  "'w stdlib \<Rightarrow> 'p object_type \<Rightarrow> 'p object \<Rightarrow> 'w \<Rightarrow> ((ctrl_result \<times> goerror option) \<times> 'w) option" where
  "OnNextReconcile_impl L T inst w = do {
     _ \<leftarrow> MustToInterface has_spread_status T;
     let (now, w') = Now L w;
     Some ((\<lparr>RequeueAfter = time_sub (nextReconcileTime inst) now\<rparr>, None), w')
   }"

definition reconcile_border :: "'p object_type \<Rightarrow> 'p object \<Rightarrow> duration" where
  "reconcile_border T inst =
     (case reconcile_timer T of None \<Rightarrow> defaultMaxReconcileDuration | Some f \<Rightarrow> f inst)"

definition SetNextReconcileTime_impl ::
  "'w stdlib \<Rightarrow> 'p object_type \<Rightarrow> 'p object \<Rightarrow> 'w \<Rightarrow> ('p object \<times> 'w) option" where
  "SetNextReconcileTime_impl L T inst w = do {
     (next, w1) \<leftarrow> getNextReconcileTime L (reconcile_border T inst) w;
     let (now, w2) = Now L w1;
     Some (inst\<lparr>nextReconcileTime := now + next\<rparr>, w2)
   }"

definition UpdateObservedGeneration_impl :: "'p object \<Rightarrow> 'p object" where
  "UpdateObservedGeneration_impl inst = inst\<lparr>observedGeneration := generation inst\<rparr>"

text \<open>The number of labels changes exactly when the label was there.\<close>

definition RemoveRefreshLabelIfExists_impl :: "'p object \<Rightarrow> bool \<times> 'p object" where
  "RemoveRefreshLabelIfExists_impl inst =
     (labels inst ReconcileRefreshLabel \<noteq> None,
      inst\<lparr>labels := (labels inst)(ReconcileRefreshLabel := None)\<rparr>)"

definition ReconcileRequired_impl ::
  "'w stdlib \<Rightarrow> 'p object_type \<Rightarrow> 'p object \<Rightarrow> 'w \<Rightarrow> (bool \<times> 'w) option" where
  "ReconcileRequired_impl L T inst w = do {
     _ \<leftarrow> MustToInterface has_spread_status T;
     let generationChanged = (generation inst \<noteq> observedGeneration inst);
     let (now, w') = Now L w;
     let isAfterNextReconcileTime = (now > nextReconcileTime inst);
     let refreshRequested = (labels inst ReconcileRefreshLabel \<noteq> None);
     Some (generationChanged \<or> isAfterNextReconcileTime \<or> refreshRequested, w')
   }"

definition NewSpreader :: "'w stdlib \<Rightarrow> ('p, 'w) spread_manager" where
  "NewSpreader L =
     \<lparr>ReconcileRequired = ReconcileRequired_impl L, OnNextReconcile = OnNextReconcile_impl L,
      RemoveRefreshLabelIfExists = RemoveRefreshLabelIfExists_impl,
      SetNextReconcileTime = SetNextReconcileTime_impl L,
      UpdateObservedGeneration = UpdateObservedGeneration_impl\<rparr>"

section \<open>The spreader of the test support package\<close>

definition TestSpreader :: "'w stdlib \<Rightarrow> bool \<Rightarrow> ('p, 'w) spread_manager" where
  "TestSpreader L shouldReconcile =
     \<lparr>ReconcileRequired = (\<lambda>T inst w. Some (shouldReconcile, w)),
      OnNextReconcile = (\<lambda>T inst w. Some ((\<lparr>RequeueAfter = 10 * Minute\<rparr>, None), w)),
      RemoveRefreshLabelIfExists = (\<lambda>inst.
        if labels inst ''platform-mesh.io/refresh-reconcile'' \<noteq> None
        then (True, inst\<lparr>labels := (labels inst)(''platform-mesh.io/refresh-reconcile'' := None)\<rparr>)
        else (False, inst)),
      SetNextReconcileTime = (\<lambda>T inst w.
        let (now, w') = Now L w in Some (inst\<lparr>nextReconcileTime := now + 10 * Hour\<rparr>, w')),
      UpdateObservedGeneration = (\<lambda>inst. inst\<lparr>observedGeneration := generation inst\<rparr>)\<rparr>"

section \<open>The contract\<close>

locale spread_contract =
  fixes sm :: "('p, 'w) spread_manager"
  assumes required_total: "has_spread_status T \<Longrightarrow> \<exists>b w'. ReconcileRequired sm T inst w = Some (b, w')"
    and next_total: "has_spread_status T \<Longrightarrow> \<exists>r w'. OnNextReconcile sm T inst w = Some ((r, None), w')"
    and set_next_total: "has_spread_status T \<Longrightarrow> 2 * Minute \<le> reconcile_border T inst \<Longrightarrow>
      \<exists>t w'. SetNextReconcileTime sm T inst w = Some (inst\<lparr>nextReconcileTime := t\<rparr>, w')"
    and set_next_frame: "SetNextReconcileTime sm T inst w = Some (inst', w') \<Longrightarrow>
      \<exists>t. inst' = inst\<lparr>nextReconcileTime := t\<rparr>"
    and observed: "UpdateObservedGeneration sm inst = inst\<lparr>observedGeneration := generation inst\<rparr>"
    and refresh: "RemoveRefreshLabelIfExists sm inst =
      (labels inst ReconcileRefreshLabel \<noteq> None,
       inst\<lparr>labels := (labels inst)(ReconcileRefreshLabel := None)\<rparr>)"
begin

lemma mark_frame:
  assumes "SetNextReconcileTime sm T inst w = Some (inst', w')"
  obtains t where "UpdateObservedGeneration sm inst' =
    inst\<lparr>nextReconcileTime := t, observedGeneration := generation inst\<rparr>"
  using set_next_frame [OF assms] observed by (cases inst) auto

lemma refresh_removed: "RemoveRefreshLabelIfExists sm inst = (b, inst') \<Longrightarrow>
    labels inst' ReconcileRefreshLabel = None \<and> (b \<longleftrightarrow> labels inst ReconcileRefreshLabel \<noteq> None) \<and>
    finalizers inst' = finalizers inst \<and> conditions inst' = conditions inst"
  by (auto simp: refresh)

end

subsection \<open>The two providers\<close>

lemma Int64N_bounds: "Int64N L n w = Some (j, w') \<Longrightarrow> 0 \<le> j \<and> j < n"
  by (auto simp: Int64N_def Let_def split: if_splits prod.splits)

lemma Int64N_total: "0 < n \<Longrightarrow> \<exists>j w'. Int64N L n w = Some (j, w')"
  by (cases "Draw L w") (simp add: Int64N_def)

lemma NewSpreader_sel [simp]:
  "ReconcileRequired (NewSpreader L) = ReconcileRequired_impl L"
  "OnNextReconcile (NewSpreader L) = OnNextReconcile_impl L"
  "RemoveRefreshLabelIfExists (NewSpreader L) = RemoveRefreshLabelIfExists_impl"
  "SetNextReconcileTime (NewSpreader L) = SetNextReconcileTime_impl L"
  "UpdateObservedGeneration (NewSpreader L) = UpdateObservedGeneration_impl"
  by (simp_all add: NewSpreader_def)

lemma border_quot_pos: "2 * Minute \<le> b \<Longrightarrow> 0 < go_quot b (2 * Minute)"
  by (simp add: go_quot_nonneg pos_imp_zdiv_pos_iff)

lemma getNext_total:
  assumes "2 * Minute \<le> b"
  shows "\<exists>d w'. getNextReconcileTime L b w = Some (d, w')"
  using Int64N_total [OF border_quot_pos [OF assms], of L w]
  by (auto simp: getNextReconcileTime_def)

lemma SetNext_total:
  "2 * Minute \<le> reconcile_border T inst \<Longrightarrow>
   \<exists>t w'. SetNextReconcileTime_impl L T inst w = Some (inst\<lparr>nextReconcileTime := t\<rparr>, w')"
  using getNext_total [of "reconcile_border T inst" L w]
  by (auto simp: SetNextReconcileTime_impl_def split: prod.splits)

lemma SetNext_frame:
  "SetNextReconcileTime_impl L T inst w = Some (inst', w') \<Longrightarrow> \<exists>t. inst' = inst\<lparr>nextReconcileTime := t\<rparr>"
  by (auto simp: SetNextReconcileTime_impl_def Let_def split: prod.splits Option.bind_splits)

lemma Required_total:
  "has_spread_status T \<Longrightarrow> \<exists>b w'. ReconcileRequired_impl L T inst w = Some (b, w')"
  by (cases "Now L w") (simp add: ReconcileRequired_impl_def)

lemma OnNext_total:
  "has_spread_status T \<Longrightarrow> \<exists>r w'. OnNextReconcile_impl L T inst w = Some ((r, None), w')"
  by (cases "Now L w") (auto simp: OnNextReconcile_impl_def)

interpretation spreader: spread_contract "NewSpreader L" for L
  by unfold_locales
    (simp_all add: Required_total OnNext_total SetNext_total SetNext_frame
      UpdateObservedGeneration_impl_def RemoveRefreshLabelIfExists_impl_def)

interpretation test_spreader: spread_contract "TestSpreader L b" for L b
proof unfold_locales
  fix T inst w inst' w'
  show "\<exists>t w'. SetNextReconcileTime (TestSpreader L b) T inst w = Some (inst\<lparr>nextReconcileTime := t\<rparr>, w')"
    by (cases "Now L w") (auto simp: TestSpreader_def)
  show "SetNextReconcileTime (TestSpreader L b) T inst w = Some (inst', w') \<Longrightarrow>
      \<exists>t. inst' = inst\<lparr>nextReconcileTime := t\<rparr>"
    by (cases "Now L w") (auto simp: TestSpreader_def)
  show "RemoveRefreshLabelIfExists (TestSpreader L b) inst =
      (labels inst ReconcileRefreshLabel \<noteq> None,
       inst\<lparr>labels := (labels inst)(ReconcileRefreshLabel := None)\<rparr>)"
    by (cases inst) (auto simp: TestSpreader_def ReconcileRefreshLabel_def fun_upd_idem)
qed (auto simp: TestSpreader_def)

section \<open>Properties\<close>

lemma getNext_Some:
  assumes "getNextReconcileTime L b w = Some (d, w')" and "0 \<le> b"
  obtains j where "d = (j + b div (2 * Minute)) * Minute" "0 \<le> j" "j < b div (2 * Minute)"
  using assms Int64N_bounds
  by (fastforce simp: getNextReconcileTime_def Let_def split: Option.bind_splits prod.splits)

lemma getNext_None: "getNextReconcileTime L b w = None \<longleftrightarrow> b < 2 * Minute"
proof
  assume "b < 2 * Minute"
  then have "go_quot b (2 * Minute) \<le> 0" by (intro go_quot_le_0) auto
  then show "getNextReconcileTime L b w = None"
    by (simp add: getNextReconcileTime_def Int64N_def)
next
  assume "getNextReconcileTime L b w = None"
  then show "b < 2 * Minute" using getNext_total [of b L w] by fastforce
qed

lemma getNext_range:
  assumes some: "getNextReconcileTime L b w = Some (d, w')"
  shows "Minute dvd d \<and> (b div (2 * Minute)) * Minute \<le> d \<and> d < b"
proof -
  from some have "2 * Minute \<le> b" using getNext_None [of L b w] by auto
  then obtain j where j: "d = (j + b div (2 * Minute)) * Minute" "0 \<le> j" "j < b div (2 * Minute)"
    using getNext_Some [OF some] by auto
  have "2 * (b div (2 * Minute)) * Minute \<le> b" by simp
  with j have "d < b" by (simp add: algebra_simps)
  with j show ?thesis by simp
qed

text \<open>The value for a border of at least two minutes and a draw \<open>r\<close>.\<close>

definition spread_delay :: "duration \<Rightarrow> int \<Rightarrow> duration" where
  "spread_delay b r = (r mod (b div (2 * Minute)) + b div (2 * Minute)) * Minute"

lemma getNext_value:
  "2 * Minute \<le> b \<Longrightarrow> getNextReconcileTime L b w = Some (spread_delay b (fst (Draw L w)), snd (Draw L w))"
  using border_quot_pos [of b]
  by (simp add: getNextReconcileTime_def Int64N_def Let_def spread_delay_def go_quot_nonneg split: prod.splits)

lemma spread_delay_bounds:
  assumes "2 * Minute \<le> b"
  shows "(b div (2 * Minute)) * Minute \<le> spread_delay b r \<and> spread_delay b r < b \<and> b - 2 * Minute < 2 * spread_delay b r"
proof -
  let ?q = "b div (2 * Minute)"
  have q: "0 < ?q" using assms by (simp add: pos_imp_zdiv_pos_iff)
  then have r: "0 \<le> r mod ?q" "r mod ?q < ?q" by simp_all
  have b: "?q * (2 * Minute) + b mod (2 * Minute) = b" by (rule div_mult_mod_eq)
  have m: "0 \<le> b mod (2 * Minute)" "b mod (2 * Minute) < 2 * Minute" by simp_all
  have d: "spread_delay b r = r mod ?q * Minute + ?q * Minute" by (simp add: spread_delay_def distrib_right)
  have "0 \<le> r mod ?q * Minute" "r mod ?q * Minute < ?q * Minute" using r by (simp_all add: mult_less_cancel_right)
  with b m d show ?thesis by linarith
qed

text \<open>
  C24.  Jitter bounds.  \<open>getNextReconcileTime\<close> panics exactly when the border is below two minutes
  (\<open>rand.Int64N\<close> on an empty interval).  Otherwise let \<open>q\<close> be half of the border rounded down to whole
  minutes: the result is \<open>q\<close> minutes plus the draw reduced to the minutes \<open>0\<close> to \<open>q - 1\<close>.  It lies
  below the border, and at least half the border when that half is a whole number of minutes; the rounding
  may take it less than a minute below the half, where the comment of the function promises the half: a
  border of three minutes always gives one minute.
\<close>

theorem getNextReconcileTime_bounds:
  "(b < 2 * Minute \<longrightarrow> getNextReconcileTime L b w = None) \<and>
   (2 * Minute \<le> b \<longrightarrow>
      (let q = b div (2 * Minute); d = (q + fst (Draw L w) mod q) * Minute
       in getNextReconcileTime L b w = Some (d, snd (Draw L w)) \<and> d < b \<and> b - 2 * Minute < 2 * d \<and>
          (2 * Minute dvd b \<longrightarrow> b \<le> 2 * d) \<and> (b = 3 * Minute \<longrightarrow> d = Minute)))"
proof (intro conjI impI)
  assume b: "2 * Minute \<le> b"
  let ?q = "b div (2 * Minute)" and ?d = "spread_delay b (fst (Draw L w))"
  have d: "(?q + fst (Draw L w) mod ?q) * Minute = ?d" by (simp add: spread_delay_def add.commute)
  note r = spread_delay_bounds [OF b, of "fst (Draw L w)"]
  have even: "b \<le> 2 * ?d" if "2 * Minute dvd b"
  proof -
    have "?q * (2 * Minute) = b" using that by (rule dvd_div_mult_self)
    with r show ?thesis by linarith
  qed
  have three: "?d = Minute" if "b = 3 * Minute"
    unfolding that by (simp add: spread_delay_def)
  show "let q = ?q; d = (q + fst (Draw L w) mod q) * Minute
       in getNextReconcileTime L b w = Some (d, snd (Draw L w)) \<and> d < b \<and> b - 2 * Minute < 2 * d \<and>
          (2 * Minute dvd b \<longrightarrow> b \<le> 2 * d) \<and> (b = 3 * Minute \<longrightarrow> d = Minute)"
    unfolding Let_def d getNext_value [OF b] using r even three by blast
qed (simp add: getNext_None)

lemma getNext_below_half: "getNextReconcileTime L (3 * Minute) w = Some (Minute, snd (Draw L w)) \<and> 2 * Minute < 3 * Minute"
  by (simp add: getNext_value spread_delay_def)

text \<open>An example of the standard library: the world is the clock, every draw is 7.\<close>

definition example_std :: "int stdlib" where
  "example_std = \<lparr>Now = (\<lambda>w. (w, w)), Draw = (\<lambda>w. (7, w))\<rparr>"

theorem getNextReconcileTime_bounds_witness:
  "getNextReconcileTime example_std (24 * Hour) 0 = Some (727 * Minute, 0) \<and> 727 * Minute < 24 * Hour \<and>
   24 * Hour \<le> 2 * (727 * Minute)"
  using getNextReconcileTime_bounds [of "24 * Hour" example_std 0] by (simp add: example_std_def Let_def)

text \<open>
  C23.  Marking an instance as reconciled silences the spreader for its interval.  With a border of at
  least two minutes, let \<open>SetNextReconcileTime\<close> draw \<open>r\<close> and read the clock as \<open>t0\<close>: it sets the next time
  to \<open>t0\<close> plus the jittered interval, which lies below the border and above its half less one minute.  After \<open>UpdateObservedGeneration\<close>, \<open>ReconcileRequired\<close> at a clock reading \<open>t1\<close> is true exactly
  when the generation has moved on meanwhile, the refresh label is set, or \<open>t1\<close> is later than that time.
\<close>

theorem spread_silences:
  fixes inst :: "'p object"
  assumes "2 * Minute \<le> reconcile_border T inst" and "Draw L w = (r, wr)" and "Now L wr = (t0, w1)"
    and "has_spread_status T" and "Now L w2 = (t1, w3)"
  shows "\<exists>inst1 d. SetNextReconcileTime_impl L T inst w = Some (inst1, w1) \<and>
    nextReconcileTime (UpdateObservedGeneration_impl inst1) = t0 + d \<and>
    d = (let q = reconcile_border T inst div (2 * Minute) in (r mod q + q) * Minute) \<and>
    reconcile_border T inst - 2 * Minute < 2 * d \<and> d < reconcile_border T inst \<and>
    ReconcileRequired_impl L T ((UpdateObservedGeneration_impl inst1)\<lparr>generation := g, labels := ls\<rparr>) w2 =
      Some (g \<noteq> generation inst \<or> t1 > t0 + d \<or> ls ReconcileRefreshLabel \<noteq> None, w3)"
proof -
  let ?d = "spread_delay (reconcile_border T inst) r"
  have "SetNextReconcileTime_impl L T inst w = Some (inst\<lparr>nextReconcileTime := t0 + ?d\<rparr>, w1)"
    using assms(2,3) by (simp add: SetNextReconcileTime_impl_def getNext_value [OF assms(1)])
  then show ?thesis
    using assms(4,5) spread_delay_bounds [OF assms(1), of r]
    by (intro exI [of _ "inst\<lparr>nextReconcileTime := t0 + ?d\<rparr>"] exI [of _ ?d])
      (simp add: UpdateObservedGeneration_impl_def ReconcileRequired_impl_def spread_delay_def Let_def)
qed

theorem spread_silences_witness:
  "\<exists>inst1. SetNextReconcileTime_impl example_std
       \<lparr>has_conditions = True, has_spread_status = True, reconcile_timer = None\<rparr>
       \<lparr>obj_name = ''a'', generation = 1, labels = Map.empty, finalizers = [],
        deletionTimestamp = None, conditions = [], nextReconcileTime = 0,
        observedGeneration = 0, terminators = [], initializers = [], payload = ()\<rparr> Minute = Some (inst1, Minute) \<and>
     nextReconcileTime (UpdateObservedGeneration_impl inst1) = 728 * Minute \<and>
     ReconcileRequired_impl example_std
       \<lparr>has_conditions = True, has_spread_status = True, reconcile_timer = None\<rparr>
       ((UpdateObservedGeneration_impl inst1)\<lparr>generation := 1, labels := Map.empty\<rparr>) (729 * Minute) =
       Some (True, 729 * Minute)"
proof -
  let ?T = "\<lparr>has_conditions = True, has_spread_status = True, reconcile_timer = None\<rparr> :: unit object_type"
  let ?i = "\<lparr>obj_name = ''a'', generation = 1, labels = Map.empty, finalizers = [],
     deletionTimestamp = None, conditions = [], nextReconcileTime = 0, observedGeneration = 0,
     terminators = [], initializers = [], payload = ()\<rparr>"
  have b: "2 * Minute \<le> reconcile_border ?T ?i" "has_spread_status ?T"
    by (simp_all add: reconcile_border_def defaultMaxReconcileDuration_def)
  have n: "Draw example_std Minute = (7, Minute)" "Now example_std Minute = (Minute, Minute)"
    "Now example_std (729 * Minute) = (729 * Minute, 729 * Minute)" by (simp_all add: example_std_def)
  from spread_silences [OF b(1) n(1,2) b(2) n(3), where g = 1 and ls = Map.empty]
  show ?thesis by (auto simp: reconcile_border_def defaultMaxReconcileDuration_def Let_def)
qed

end
