(* ===== verification/Lifecycle.thy ===== *)
theory Lifecycle
  imports Conditions Spread
begin

text \<open>
  The reconciliation of one object: \<open>controller/lifecycle/lifecycle.go\<close>, function by function.
  \<open>Reconcile\<close> is composed of its segments (context, spread check, finalizers, conditions,
  context preparation, the loop over the subroutines, the final steps) in the order of the code.
  A result \<open>None\<close> is a panic; otherwise it is the returned pair, the instance and the state left
  behind.  The theorems are in the theory \<open>Lifecycle_Props\<close>.
\<close>

section \<open>Finalizers\<close>

fun containsFinalizer :: "('p, 'u) library \<Rightarrow> 'p object \<Rightarrow> string list \<Rightarrow> bool" where
  "containsFinalizer L ob [] = False"
| "containsFinalizer L ob (f # fs) = (if ContainsFinalizer L ob f then True else containsFinalizer L ob fs)"

fun add_finalizers :: "('p, 'u) library \<Rightarrow> string list \<Rightarrow> 'p object \<Rightarrow> bool \<times> 'p object" where
  "add_finalizers L [] inst = (False, inst)"
| "add_finalizers L (f # fs) inst =
     (let (needsUpdate, inst1) = AddFinalizer L inst f;
          (update, inst2) = add_finalizers L fs inst1
      in (needsUpdate \<or> update, inst2))"

definition AddFinalizerIfNeeded ::
  "('p, 'u) library \<Rightarrow> 'p object \<Rightarrow> ('p, 'w) subroutine \<Rightarrow> bool \<times> 'p object" where
  "AddFinalizerIfNeeded L inst s = add_finalizers L (Finalizers s inst) inst"

fun add_all_finalizers ::
  "('p, 'u) library \<Rightarrow> ('p, 'w) subroutine list \<Rightarrow> 'p object \<Rightarrow> bool \<times> 'p object" where
  "add_all_finalizers L [] inst = (False, inst)"
| "add_all_finalizers L (s # ss) inst =
     (if length (Finalizers s inst) > 0 then
        (let (needsUpdate, inst1) = AddFinalizerIfNeeded L inst s;
             (update, inst2) = add_all_finalizers L ss inst1
         in (needsUpdate \<or> update, inst2))
      else add_all_finalizers L ss inst)"

definition AddFinalizersIfNeeded ::
  "('p, 'w) client \<Rightarrow> ('p, 'u) library \<Rightarrow> 'p object \<Rightarrow> ('p, 'w) subroutine list \<Rightarrow> bool \<Rightarrow> 'w rstate \<Rightarrow>
   goerror option \<times> 'p object \<times> 'w rstate" where
  "AddFinalizersIfNeeded cl L inst subs readonly st =
     (if readonly then (None, inst, st)
      else if \<not> time_is_zero (deletionTimestamp inst) then (None, inst, st)
      else
        let (update, inst1) = add_all_finalizers L subs inst
        in if update then do_Patch cl inst1 inst st else (None, inst1, st))"

fun remove_finalizers :: "('p, 'u) library \<Rightarrow> string list \<Rightarrow> 'p object \<Rightarrow> bool \<times> 'p object" where
  "remove_finalizers L [] inst = (False, inst)"
| "remove_finalizers L (f # fs) inst =
     (let (needsUpdate, inst1) = RemoveFinalizer L inst f;
          (update, inst2) = remove_finalizers L fs inst1
      in (needsUpdate \<or> update, inst2))"

definition removeFinalizerIfNeeded ::
  "('p, 'w) client \<Rightarrow> ('p, 'u) library \<Rightarrow> 'p object \<Rightarrow> ('p, 'w) subroutine \<Rightarrow> ctrl_result \<Rightarrow> bool \<Rightarrow>
   'w rstate \<Rightarrow> OperatorError \<times> 'p object \<times> 'w rstate" where
  "removeFinalizerIfNeeded cl L inst s result readonly st =
     (if readonly then (None, inst, st)
      else if RequeueAfter result = 0 then
        let (update, inst1) = remove_finalizers L (Finalizers s inst) inst
        in if update then
             (case do_Patch cl inst1 inst st of
                (Some err, inst2, st2) \<Rightarrow>
                  (NewOperatorError (Some (WrapError ''failed to update instance'' err)) True False, inst2, st2)
              | (None, inst2, st2) \<Rightarrow> (None, inst2, st2))
           else (None, inst1, st)
      else (None, inst, st))"

section \<open>Errors\<close>

definition HandleClientError ::
  "goerror option \<Rightarrow> bool \<Rightarrow> 'w rstate \<Rightarrow> (ctrl_result \<times> goerror option) \<times> 'w rstate" where
  "HandleClientError err generationChanged st =
     ((\<lparr>RequeueAfter = 0\<rparr>, err), if generationChanged then capture err st else st)"

definition HandleOperatorError ::
  "ctx \<Rightarrow> operror_ptr \<Rightarrow> bool \<Rightarrow> 'w rstate \<Rightarrow> ((ctrl_result \<times> goerror option) \<times> 'w rstate) option" where
  "HandleOperatorError c operatorError generationChanged st = do {
     st1 \<leftarrow> (if generationChanged \<and> Sentry operatorError then do {
              _ \<leftarrow> GetSentryTagsFromContext c;
              Some (capture (Err operatorError) st)
            } else Some st);
     if Retry operatorError then Some ((\<lparr>RequeueAfter = 0\<rparr>, Err operatorError), st1)
     else Some ((\<lparr>RequeueAfter = 0\<rparr>, None), st1)
   }"

section \<open>Status\<close>

definition updateStatus ::
  "('p, 'w) client \<Rightarrow> ('p, 'u) library \<Rightarrow> 'p object \<Rightarrow> 'p object \<Rightarrow> bool \<Rightarrow> 'w rstate \<Rightarrow>
   goerror option \<times> 'p object \<times> 'w rstate" where
  "updateStatus cl L original current generationChanged st =
     (case ToUnstructured L current of Inl e \<Rightarrow> (Some e, current, st) | Inr currentUn \<Rightarrow>
      (case ToUnstructured L original of Inl e \<Rightarrow> (Some e, current, st) | Inr originalUn \<Rightarrow>
      (case NestedFieldCopy L currentUn [''status''] of Inl e \<Rightarrow> (Some e, current, st) | Inr currentStatus \<Rightarrow>
      (case NestedFieldCopy L originalUn [''status''] of Inl e \<Rightarrow> (Some e, current, st) | Inr originalStatus \<Rightarrow>
        if DeepEqual L currentStatus originalStatus then (None, current, st)
        else
          (case do_StatusUpdate cl current st of
             (None, inst1, st1) \<Rightarrow> (None, inst1, st1)
           | (Some err, inst1, st1) \<Rightarrow>
               (Some err, inst1,
                if IsConflict L err then st1
                else if generationChanged then capture (Some err) st1 else st1))))))"

text \<open>The common body of \<open>removeTerminator\<close> and \<open>removeInitializer\<close>, which differ in names only.\<close>

definition removeStatusEntry ::
  "string \<Rightarrow> string \<Rightarrow> 'p object \<Rightarrow> ('p, 'w) client \<Rightarrow> ('p, 'u) library \<Rightarrow> string \<Rightarrow> 'w rstate \<Rightarrow>
   goerror option \<times> 'p object \<times> 'w rstate" where
  "removeStatusEntry fld setMsg inst cl L entry st =
     (if entry = [] then (None, inst, st)
      else
        (case ToUnstructured L inst of
           Inl e \<Rightarrow> (Some (WrapError ''failed to convert instance to unstructured'' e), inst, st)
         | Inr currentUn \<Rightarrow>
        (case NestedStringSlice L currentUn [''status'', fld] of
           Inl e \<Rightarrow> (None, inst, st)
         | Inr None \<Rightarrow> (None, inst, st)
         | Inr (Some entries) \<Rightarrow>
             if length entries = 0 then (None, inst, st)
             else
               let newEntries = filter (\<lambda>t. t \<noteq> entry) entries
               in if length newEntries = length entries then (None, inst, st)
                  else
                    (case SetNestedStringSlice L currentUn newEntries [''status'', fld] of
                       Inl e \<Rightarrow> (Some (WrapError setMsg e), inst, st)
                     | Inr un1 \<Rightarrow>
                    (case FromUnstructured L un1 inst of
                       Inl e \<Rightarrow> (Some (WrapError ''failed to convert unstructured to instance'' e), inst, st)
                     | Inr inst1 \<Rightarrow>
                    (case do_StatusPatch cl inst1 inst st of
                       (Some e, inst2, st2) \<Rightarrow>
                         (Some (WrapError ''failed to patch instance status'' e), inst2, st2)
                     | (None, inst2, st2) \<Rightarrow> (None, inst2, st2)))))))"

definition removeTerminator where
  "removeTerminator inst cl L terminator st =
     removeStatusEntry ''terminators'' ''failed to set terminators'' inst cl L terminator st"

definition removeInitializer where
  "removeInitializer inst cl L initializer st =
     removeStatusEntry ''initializers'' ''failed to set initializers'' inst cl L initializer st"

section \<open>Conditions of the instance\<close>

text \<open>
  \<open>GetConditions\<close> and \<open>SetConditions\<close> hand the slice itself over, so the instance and the local
  variable \<open>condArr\<close> share its elements: a later write to an element of \<open>condArr\<close> is seen through
  the instance, an appended element is not (\<open>write_through\<close>).
\<close>

definition get_conditions :: "'p object_type \<Rightarrow> 'p object \<Rightarrow> condition list option" where
  "get_conditions T inst = do { _ \<leftarrow> MustToInterface has_conditions T; Some (conditions inst) }"

definition set_conditions :: "'p object_type \<Rightarrow> condition list \<Rightarrow> 'p object \<Rightarrow> 'p object option" where
  "set_conditions T cs inst = do { _ \<leftarrow> MustToInterface has_conditions T; Some (inst\<lparr>conditions := cs\<rparr>) }"

definition write_through :: "condition list \<Rightarrow> 'p object \<Rightarrow> 'p object" where
  "write_through cs inst = inst\<lparr>conditions := callers_view (conditions inst) cs\<rparr>"

text \<open>
  \<open>MarkResourceAsFinal\<close> gets the condition slice by value: its caller sees the changed elements
  and not an appended one.
\<close>

definition MarkResourceAsFinal ::
  "'p object_type \<Rightarrow> ('p, 'w) lifecycle \<Rightarrow> 'p object \<Rightarrow> condition list \<Rightarrow> cond_status \<Rightarrow> 'w rstate \<Rightarrow>
   (condition list \<times> 'p object \<times> 'w rstate) option" where
  "MarkResourceAsFinal T l inst conds status st = do {
     (inst1, st1) \<leftarrow>
       (case lc_spreader l of
          Some sp \<Rightarrow>
            if time_is_zero (deletionTimestamp inst) then do {
              _ \<leftarrow> MustToInterface has_spread_status T;
              (i1, w1) \<leftarrow> SetNextReconcileTime sp T inst (world st);
              Some (UpdateObservedGeneration sp i1, st\<lparr>world := w1\<rparr>)
            } else Some (inst, st)
        | None \<Rightarrow> Some (inst, st));
     (case lc_conditions l of
        Some cm \<Rightarrow>
          let (_, cs1, w2) = SetInstanceConditionReady cm conds (generation inst1) status (world st1)
          in Some (callers_view conds cs1, write_through cs1 inst1, st1\<lparr>world := w2\<rparr>)
      | None \<Rightarrow> Some (conds, inst1, st1))
   }"

section \<open>One subroutine\<close>

text \<open>
  The choice of the action; \<open>None\<close> when none applies.  In deletion a \<open>Terminator\<close> goes first, then
  a subroutine one of whose finalizers is present; otherwise an \<open>Initializer\<close>, then \<open>Process\<close>.
\<close>

definition choose_action ::
  "('p, 'u) library \<Rightarrow> 'p object \<Rightarrow> ('p, 'w) subroutine \<Rightarrow> (sub_action \<times> ('p, 'w) action) option" where
  "choose_action L inst s =
     (let deleting = (deletionTimestamp inst \<noteq> None)
      in if Terminate s \<noteq> None \<and> deleting then map_option (Pair DoTerminate) (Terminate s)
         else if deleting \<and> containsFinalizer L inst (Finalizers s inst) then Some (DoFinalize, Finalize s)
         else if Initialize s \<noteq> None \<and> \<not> deleting then map_option (Pair DoInitialize) (Initialize s)
         else if \<not> deleting then Some (DoProcess, Process s)
         else None)"

text \<open>
  The chosen action and what its branch does next: a \<open>Finalize\<close> without error removes the
  finalizers, \<open>Terminate\<close> and \<open>Initialize\<close> report an error to Sentry.
\<close>

definition report :: "OperatorError \<Rightarrow> 'w rstate \<Rightarrow> 'w rstate" where
  "report err st =
     (case err of None \<Rightarrow> st | Some p \<Rightarrow> if Sentry p then capture (Err p) st else st)"

definition run_chosen ::
  "('p, 'w) client \<Rightarrow> ('p, 'u) library \<Rightarrow> ('p, 'w) lifecycle \<Rightarrow> ctx \<Rightarrow> 'p object \<Rightarrow>
   ('p, 'w) subroutine \<Rightarrow> sub_action \<Rightarrow> ('p, 'w) action \<Rightarrow> 'w rstate \<Rightarrow>
   (ctrl_result \<times> OperatorError) \<times> 'p object \<times> 'w rstate" where
  "run_chosen cl L l c inst s a f st =
     (let ((result, err), inst1, st1) = run_action a (GetName s) f c inst st
      in (case a of
            DoTerminate \<Rightarrow> ((result, err), inst1, report err st1)
          | DoFinalize \<Rightarrow>
              if err = None then
                (let (err2, inst2, st2) =
                   removeFinalizerIfNeeded cl L inst1 s result (ReadOnly (lc_config l)) st1
                 in ((result, err2), inst2, st2))
              else ((result, err), inst1, st1)
          | DoInitialize \<Rightarrow> ((result, err), inst1, report err st1)
          | DoProcess \<Rightarrow> ((result, err), inst1, st1)))"

text \<open>Every branch reports its error at the end, also the ones that have reported it already.\<close>

definition reconcileSubroutine ::
  "('p, 'w) client \<Rightarrow> ('p, 'u) library \<Rightarrow> ('p, 'w) lifecycle \<Rightarrow> logger \<Rightarrow> ctx \<Rightarrow> 'p object \<Rightarrow>
   ('p, 'w) subroutine \<Rightarrow> bool \<Rightarrow> 'w rstate \<Rightarrow>
   (ctrl_result \<times> bool \<times> goerror option) \<times> 'p object \<times> 'w rstate" where
  "reconcileSubroutine cl L l log c inst s generationChanged st =
     (let c1 = SetLoggerInContext c (ChildLogger log ''subroutine'' (GetName s));
          ((result, err), inst1, st1) =
            (case choose_action L inst s of
               None \<Rightarrow> ((\<lparr>RequeueAfter = 0\<rparr>, None), inst, st)
             | Some (a, f) \<Rightarrow> run_chosen cl L l c1 inst s a f st)
      in (case err of
            Some p \<Rightarrow>
              ((result, Retry p, Err p), inst1, if generationChanged then report err st1 else st1)
          | None \<Rightarrow> ((result, False, None), inst1, st1)))"

section \<open>The loop\<close>

datatype ('p, 'w) loop_end =
    LoopReturn ctrl_result "goerror option" "'p object" "'w rstate"
  | LoopDone ctrl_result "condition list" "'p object" "'w rstate"

text \<open>
  The conditions after a failed subroutine; \<open>result\<close> is the accumulated one, not the subroutine's.
\<close>

definition fail_conditions ::
  "'p object_type \<Rightarrow> ('p, 'w) lifecycle \<Rightarrow> bool \<Rightarrow> string \<Rightarrow> ctrl_result \<Rightarrow> goerror \<Rightarrow>
   condition list \<Rightarrow> 'p object \<Rightarrow> 'w rstate \<Rightarrow> (condition list \<times> 'p object \<times> 'w rstate) option" where
  "fail_conditions T l inDeletion name result err condArr inst st =
     (case lc_conditions l of
        None \<Rightarrow> Some (condArr, inst, st)
      | Some cm \<Rightarrow> do {
          let (_, cs1, w1) = SetSubroutineCondition cm condArr (generation inst) name result (Some err)
                               inDeletion (world st);
          let (_, cs2, w2) = SetInstanceConditionReady cm cs1 (generation inst) ConditionFalse w1;
          i1 \<leftarrow> set_conditions T cs2 inst;
          Some (cs2, i1, st\<lparr>world := w2\<rparr>)
        })"

text \<open>The branch of the loop body for a failed subroutine.\<close>

definition subroutine_failed ::
  "('p, 'w) client \<Rightarrow> ('p, 'u) library \<Rightarrow> 'p object_type \<Rightarrow> ('p, 'w) lifecycle \<Rightarrow> 'p object \<Rightarrow> bool \<Rightarrow>
   string \<Rightarrow> ctrl_result \<Rightarrow> ctrl_result \<Rightarrow> bool \<Rightarrow> goerror \<Rightarrow> condition list \<Rightarrow> 'p object \<Rightarrow> 'w rstate \<Rightarrow>
   ('p, 'w) loop_end option" where
  "subroutine_failed cl L T l original inDeletion name result subResult retry err condArr inst st = do {
     (condArr1, inst1, st1) \<leftarrow> fail_conditions T l inDeletion name result err condArr inst st;
     (condArr2, inst2, st2) \<leftarrow>
       (if \<not> retry then MarkResourceAsFinal T l inst1 condArr1 ConditionFalse st1
        else Some (condArr1, inst1, st1));
     let (_, inst3, st3) =
       (if \<not> ReadOnly (lc_config l) then updateStatus cl L original inst2 True st2
        else (None, inst2, st2));
     if \<not> retry then Some (LoopReturn \<lparr>RequeueAfter = 0\<rparr> None inst3 st3)
     else Some (LoopReturn subResult (Some err) inst3 st3)
   }"

definition merge_requeue :: "ctrl_result \<Rightarrow> ctrl_result \<Rightarrow> ctrl_result" where
  "merge_requeue result subResult =
     (if RequeueAfter subResult > 0 then
        if RequeueAfter subResult < RequeueAfter result \<or> RequeueAfter result = 0
        then result\<lparr>RequeueAfter := RequeueAfter subResult\<rparr> else result
      else result)"

text \<open>The conditions before and after the action of a subroutine.\<close>

definition begin_conditions ::
  "'p object_type \<Rightarrow> ('p, 'w) lifecycle \<Rightarrow> bool \<Rightarrow> string \<Rightarrow> condition list \<Rightarrow> 'p object \<Rightarrow>
   'w rstate \<Rightarrow> (condition list \<times> 'p object \<times> 'w rstate) option" where
  "begin_conditions T l inDeletion name condArr inst st =
     (case lc_conditions l of
        None \<Rightarrow> Some (condArr, inst, st)
      | Some cm \<Rightarrow> do {
          let (_, cs1, w1) = SetSubroutineConditionToUnknownIfNotSet cm condArr (generation inst)
                               name inDeletion (world st);
          i1 \<leftarrow> set_conditions T cs1 inst;
          Some (cs1, i1, st\<lparr>world := w1\<rparr>)
        })"

definition done_conditions ::
  "('p, 'w) lifecycle \<Rightarrow> bool \<Rightarrow> string \<Rightarrow> ctrl_result \<Rightarrow> condition list \<Rightarrow> 'p object \<Rightarrow> 'w rstate \<Rightarrow>
   condition list \<times> 'p object \<times> 'w rstate" where
  "done_conditions l inDeletion name subResult condArr inst st =
     (case lc_conditions l of
        None \<Rightarrow> (condArr, inst, st)
      | Some cm \<Rightarrow>
          if RequeueAfter subResult = 0 then
            (let (_, cs1, w1) = SetSubroutineCondition cm condArr (generation inst) name
                                  subResult None inDeletion (world st)
             in (cs1, write_through cs1 inst, st\<lparr>world := w1\<rparr>))
          else (condArr, inst, st))"

fun process_subs ::
  "('p, 'w) client \<Rightarrow> ('p, 'u) library \<Rightarrow> 'p object_type \<Rightarrow> ('p, 'w) lifecycle \<Rightarrow> logger \<Rightarrow> ctx \<Rightarrow>
   'p object \<Rightarrow> bool \<Rightarrow> ('p, 'w) subroutine list \<Rightarrow> ctrl_result \<Rightarrow> condition list \<Rightarrow> 'p object \<Rightarrow>
   'w rstate \<Rightarrow> ('p, 'w) loop_end option" where
  "process_subs cl L T l log c original inDeletion [] result condArr inst st =
     Some (LoopDone result condArr inst st)"
| "process_subs cl L T l log c original inDeletion (s # ss) result condArr inst st = do {
     (condArr1, inst1, st1) \<leftarrow> begin_conditions T l inDeletion (GetName s) condArr inst st;
     let ((subResult, retry, err), inst2, st2) = reconcileSubroutine cl L l log c inst1 s True st1;
     condArr2 \<leftarrow> (case lc_conditions l of None \<Rightarrow> Some condArr1 | Some _ \<Rightarrow> get_conditions T inst2);
     (case err of
        Some e \<Rightarrow> subroutine_failed cl L T l original inDeletion (GetName s) result subResult retry e
                    condArr2 inst2 st2
      | None \<Rightarrow> do {
          let result1 = merge_requeue result subResult;
          let (condArr3, inst3, st3) =
            done_conditions l inDeletion (GetName s) subResult condArr2 inst2 st2;
          process_subs cl L T l log c original inDeletion ss result1 condArr3 inst3 st3
        })
   }"

section \<open>After the loop\<close>

definition mark_end ::
  "'p object_type \<Rightarrow> ('p, 'w) lifecycle \<Rightarrow> ctrl_result \<Rightarrow> condition list \<Rightarrow> 'p object \<Rightarrow> 'w rstate \<Rightarrow>
   (condition list \<times> 'p object \<times> 'w rstate) option" where
  "mark_end T l result condArr inst st =
     (if RequeueAfter result = 0 then MarkResourceAsFinal T l inst condArr ConditionTrue st
      else (case lc_conditions l of
              None \<Rightarrow> Some (condArr, inst, st)
            | Some cm \<Rightarrow>
                let (_, cs1, w1) = SetInstanceConditionReady cm condArr (generation inst) ConditionFalse (world st)
                in Some (cs1, write_through cs1 inst, st\<lparr>world := w1\<rparr>)))"

definition drop_terminator ::
  "('p, 'w) client \<Rightarrow> ('p, 'u) library \<Rightarrow> ('p, 'w) lifecycle \<Rightarrow> bool \<Rightarrow> ctrl_result \<Rightarrow> 'p object \<Rightarrow>
   'w rstate \<Rightarrow> goerror option \<times> 'p object \<times> 'w rstate" where
  "drop_terminator cl L l inDeletion result inst st =
     (case lc_terminator l of
        Some t \<Rightarrow> if RequeueAfter result = 0 \<and> inDeletion \<and> t \<noteq> []
                  then (case removeTerminator inst cl L t st of
                          (Some e, i1, s1) \<Rightarrow> (Some (WrapError ''potentially removing Terminator'' e), i1, s1)
                        | (None, i1, s1) \<Rightarrow> (None, i1, s1))
                  else (None, inst, st)
      | None \<Rightarrow> (None, inst, st))"

definition drop_initializer ::
  "('p, 'w) client \<Rightarrow> ('p, 'u) library \<Rightarrow> ('p, 'w) lifecycle \<Rightarrow> bool \<Rightarrow> ctrl_result \<Rightarrow> 'p object \<Rightarrow>
   'w rstate \<Rightarrow> goerror option \<times> 'p object \<times> 'w rstate" where
  "drop_initializer cl L l inDeletion result inst st =
     (case lc_initializer l of
        Some t \<Rightarrow> if RequeueAfter result = 0 \<and> \<not> inDeletion \<and> t \<noteq> []
                  then (case removeInitializer inst cl L t st of
                          (Some e, i1, s1) \<Rightarrow> (Some (WrapError ''potentially removing Initializer'' e), i1, s1)
                        | (None, i1, s1) \<Rightarrow> (None, i1, s1))
                  else (None, inst, st)
      | None \<Rightarrow> (None, inst, st))"

definition final_status ::
  "('p, 'w) client \<Rightarrow> ('p, 'u) library \<Rightarrow> ('p, 'w) lifecycle \<Rightarrow> 'p object \<Rightarrow> 'p object \<Rightarrow> 'w rstate \<Rightarrow>
   goerror option \<times> 'p object \<times> 'w rstate" where
  "final_status cl L l original inst st =
     (if \<not> ReadOnly (lc_config l) then
        if deletionTimestamp inst \<noteq> None \<and> length (finalizers inst) = 0 then (None, inst, st)
        else updateStatus cl L original inst True st
      else (None, inst, st))"

text \<open>
  The refresh label.  When its removal cannot be written back, \<open>HandleClientError\<close> gets \<open>err\<close>, which
  is \<open>nil\<close> at this point, and not \<open>updateErr\<close>.
\<close>

definition drop_refresh_label ::
  "('p, 'w) client \<Rightarrow> ('p, 'w) lifecycle \<Rightarrow> ctrl_result \<Rightarrow> 'p object \<Rightarrow> 'w rstate \<Rightarrow>
   (ctrl_result \<times> goerror option) \<times> 'p object \<times> 'w rstate" where
  "drop_refresh_label cl l result inst st =
     (case lc_spreader l of
        Some sp \<Rightarrow>
          if time_is_zero (deletionTimestamp inst) then
            (let (removed, inst1) = RemoveRefreshLabelIfExists sp inst
             in if removed then
                  (case do_Patch cl inst1 inst st of
                     (Some updateErr, inst2, st2) \<Rightarrow>
                       (let (ret, st3) = HandleClientError None True st2 in (ret, inst2, st3))
                   | (None, inst2, st2) \<Rightarrow> ((result, None), inst2, st2))
                else ((result, None), inst1, st))
          else ((result, None), inst, st)
      | None \<Rightarrow> ((result, None), inst, st))"

definition finish ::
  "('p, 'w) client \<Rightarrow> ('p, 'u) library \<Rightarrow> 'p object_type \<Rightarrow> ('p, 'w) lifecycle \<Rightarrow> 'p object \<Rightarrow> bool \<Rightarrow>
   ctrl_result \<Rightarrow> condition list \<Rightarrow> 'p object \<Rightarrow> 'w rstate \<Rightarrow>
   ((ctrl_result \<times> goerror option) \<times> 'p object \<times> 'w rstate) option" where
  "finish cl L T l original inDeletion result condArr inst st = do {
     (condArr1, inst1, st1) \<leftarrow> mark_end T l result condArr inst st;
     (case drop_terminator cl L l inDeletion result inst1 st1 of
        (Some e, inst2, st2) \<Rightarrow> Some ((result, Some e), inst2, st2)
      | (None, inst2, st2) \<Rightarrow>
     (case drop_initializer cl L l inDeletion result inst2 st2 of
        (Some e, inst3, st3) \<Rightarrow> Some ((result, Some e), inst3, st3)
      | (None, inst3, st3) \<Rightarrow> do {
          inst4 \<leftarrow> (case lc_conditions l of
                      None \<Rightarrow> Some inst3 | Some _ \<Rightarrow> set_conditions T condArr1 inst3);
          (case final_status cl L l original inst4 st3 of
             (Some e, inst5, st5) \<Rightarrow> Some ((result, Some e), inst5, st5)
           | (None, inst5, st5) \<Rightarrow> Some (drop_refresh_label cl l result inst5 st5))
        }))
   }"

section \<open>Reconcile\<close>

definition spread_check ::
  "'p object_type \<Rightarrow> ('p, 'w) lifecycle \<Rightarrow> 'p object \<Rightarrow> 'w rstate \<Rightarrow>
   ((ctrl_result \<times> goerror option) option \<times> 'w rstate) option" where
  "spread_check T l inst st =
     (case lc_spreader l of
        Some sp \<Rightarrow>
          if time_is_zero (deletionTimestamp inst) then do {
            (reconcileRequired, w1) \<leftarrow> ReconcileRequired sp T inst (world st);
            if \<not> reconcileRequired then do {
              (ret, w2) \<leftarrow> OnNextReconcile sp T inst w1;
              Some (Some ret, st\<lparr>world := w2\<rparr>)
            } else Some (None, st\<lparr>world := w1\<rparr>)
          } else Some (None, st)
      | None \<Rightarrow> Some (None, st))"

definition init_conditions ::
  "'p object_type \<Rightarrow> ('p, 'w) lifecycle \<Rightarrow> 'p object \<Rightarrow> 'w rstate \<Rightarrow>
   (condition list \<times> 'p object \<times> 'w rstate) option" where
  "init_conditions T l inst st =
     (case lc_conditions l of
        None \<Rightarrow> Some ([], inst, st)
      | Some cm \<Rightarrow> do {
          cs \<leftarrow> get_conditions T inst;
          let (_, cs1, w1) = SetInstanceConditionUnknownIfNotSet cm cs (generation inst) (world st);
          Some (cs1, write_through cs1 inst, st\<lparr>world := w1\<rparr>)
        })"

text \<open>
  The prepare function gets the object and may change it; a function that writes into the elements of the
  object's own condition slice is outside the model, since \<open>condArr\<close> shares them.
\<close>

definition prepare_context ::
  "('p, 'w) lifecycle \<Rightarrow> ctx \<Rightarrow> 'p object \<Rightarrow> 'w rstate \<Rightarrow>
   (ctx \<times> OperatorError) \<times> 'p object \<times> 'w rstate" where
  "prepare_context l c inst st =
     (case lc_prepare l of
        None \<Rightarrow> ((c, None), inst, st)
      | Some f \<Rightarrow> (let (r, inst1, w1) = f c inst (world st)
                  in (r, inst1, emit EvPrepare (st\<lparr>world := w1\<rparr>))))"

text \<open>The subroutines in the order of their execution.\<close>

definition execution_order :: "bool \<Rightarrow> 'a list \<Rightarrow> 'a list" where
  "execution_order inDeletion subs = (if inDeletion then rev subs else subs)"

definition run_subroutines ::
  "('p, 'w) client \<Rightarrow> ('p, 'u) library \<Rightarrow> 'p object_type \<Rightarrow> ('p, 'w) lifecycle \<Rightarrow> logger \<Rightarrow> ctx \<Rightarrow>
   'p object \<Rightarrow> condition list \<Rightarrow> 'p object \<Rightarrow> 'w rstate \<Rightarrow>
   ((ctrl_result \<times> goerror option) \<times> 'p object \<times> 'w rstate) option" where
  "run_subroutines cl L T l log c original condArr inst st = do {
     let inDeletion = (deletionTimestamp original \<noteq> None);
     out \<leftarrow> process_subs cl L T l log c original inDeletion
             (execution_order inDeletion (lc_subroutines l)) \<lparr>RequeueAfter = 0\<rparr> condArr inst st;
     (case out of
        LoopReturn r e inst1 st1 \<Rightarrow> Some ((r, e), inst1, st1)
      | LoopDone r cs inst1 st1 \<Rightarrow> finish cl L T l original inDeletion r cs inst1 st1)
   }"

text \<open>
  From the instance as the API server returned it.  \<open>original\<close> is its deep copy, also the source of
  \<open>inDeletion\<close>.
\<close>

definition reconcile_found ::
  "('p, 'w) client \<Rightarrow> ('p, 'u) library \<Rightarrow> 'p object_type \<Rightarrow> ('p, 'w) lifecycle \<Rightarrow> logger \<Rightarrow> ctx \<Rightarrow>
   'p object \<Rightarrow> 'w rstate \<Rightarrow> ((ctrl_result \<times> goerror option) \<times> 'p object \<times> 'w rstate) option" where
  "reconcile_found cl L T l log c inst st = do {
     let original = inst;
     (skip, st1) \<leftarrow> spread_check T l inst st;
     (case skip of
        Some ret \<Rightarrow> Some (ret, inst, st1)
      | None \<Rightarrow>
     (case AddFinalizersIfNeeded cl L inst (lc_subroutines l) (ReadOnly (lc_config l)) st1 of
        (Some ferr, inst2, st2) \<Rightarrow> Some ((\<lparr>RequeueAfter = 0\<rparr>, Some ferr), inst2, st2)
      | (None, inst2, st2) \<Rightarrow> do {
          (condArr, inst3, st3) \<leftarrow> init_conditions T l inst2 st2;
          (case prepare_context l c inst3 st3 of
             ((c1, Some oErr), inst4, st4) \<Rightarrow> do {
               (ret, st5) \<leftarrow> HandleOperatorError c oErr True st4;
               Some (ret, inst4, st5)
             }
           | ((c1, None), inst4, st4) \<Rightarrow> run_subroutines cl L T l log c1 original condArr inst4 st4)
        }))
   }"

text \<open>
  \<open>rid\<close> is controller-runtime's reconcile id and \<open>cluster\<close> the cluster of a multicluster request,
  both taken from the context.
\<close>

definition Reconcile ::
  "('p, 'w) client \<Rightarrow> ('p, 'u) library \<Rightarrow> 'p object_type \<Rightarrow> ('p, 'w) lifecycle \<Rightarrow> string \<Rightarrow> string option \<Rightarrow>
   ctx \<Rightarrow> namespaced_name \<Rightarrow> 'p object \<Rightarrow> 'w rstate \<Rightarrow>
   ((ctrl_result \<times> goerror option) \<times> 'p object \<times> 'w rstate) option" where
  "Reconcile cl L T l rid cluster c nName inst st = do {
     log1 \<leftarrow> MustChildLoggerWithAttributes (lc_log l)
               [''name'', nn_name nName, ''namespace'', nn_namespace nName, ''reconcile_id'', rid];
     log \<leftarrow> (case cluster of None \<Rightarrow> Some log1
                | Some cn \<Rightarrow> MustChildLoggerWithAttributes log1 [''cluster'', cn]);
     let sentryTags = [(''namespace'', nn_namespace nName), (''name'', nn_name nName)];
     let c1 = ContextWithSentryTags (SetLoggerInContext c log) sentryTags;
     (case do_Get cl nName inst st of
        (Some err, inst1, st1) \<Rightarrow>
          if IsNotFound L err then Some ((\<lparr>RequeueAfter = 0\<rparr>, None), inst1, st1)
          else (let (ret, st2) = HandleClientError (Some err) True st1 in Some (ret, inst1, st2))
      | (None, inst1, st1) \<Rightarrow> reconcile_found cl L T l log c1 inst1 st1)
   }"

definition ValidateInterfaces :: "'p object_type \<Rightarrow> ('p, 'w) lifecycle \<Rightarrow> goerror option" where
  "ValidateInterfaces T l =
     (case (if lc_spreader l \<noteq> None then ToInterface has_spread_status T else Inr ()) of
        Inl e \<Rightarrow> Some e
      | Inr _ \<Rightarrow>
          (case (if lc_conditions l \<noteq> None then ToInterface has_conditions T else Inr ()) of
             Inl e \<Rightarrow> Some e | Inr _ \<Rightarrow> None))"

end
