(* ===== verification/Lifecycle_Trace.thy ===== *)
theory Lifecycle_Trace
  imports Lifecycle "HOL-Library.Sublist"
begin

text \<open>
  What the functions of \<open>lifecycle.go\<close> do to the outside: for each operation, the events it adds
  to the trace; the shape of one round of the subroutine loop; and when nothing panics.  The
  theory \<open>Lifecycle_Props\<close> builds the properties on these lemmas.
\<close>

section \<open>Events added by an operation\<close>

text \<open>\<open>adds E st st'\<close>: the trace of \<open>st'\<close> extends that of \<open>st\<close> by events of the set \<open>E\<close>.\<close>

definition adds :: "event set \<Rightarrow> 'w rstate \<Rightarrow> 'w rstate \<Rightarrow> bool" where
  "adds E st st' \<longleftrightarrow> (\<exists>evs. trace st' = trace st @ evs \<and> set evs \<subseteq> E)"

abbreviation reports :: "event set" where "reports \<equiv> range EvSentry"

lemma adds_refl [simp, intro]: "adds E st st"
  by (simp add: adds_def)

lemma adds_trans [trans]: "adds E s t \<Longrightarrow> adds E t u \<Longrightarrow> adds E s u"
  unfolding adds_def by (metis append.assoc set_append Un_least)

lemma adds_mono: "adds E s t \<Longrightarrow> E \<subseteq> F \<Longrightarrow> adds F s t"
  unfolding adds_def by blast

lemma adds_world [simp]: "adds E st (st'\<lparr>world := w\<rparr>) = adds E st st'" "adds E (st\<lparr>world := w\<rparr>) st' = adds E st st'"
  by (simp_all add: adds_def)

lemma adds_emit: "e \<in> E \<Longrightarrow> adds E st (emit e st)"
  by (auto simp: adds_def)

lemma adds_capture: "reports \<subseteq> E \<Longrightarrow> adds E st (capture err st)"
  by (cases err) (auto intro: adds_emit)

lemma adds_same_trace: "trace st' = trace st \<Longrightarrow> adds E st st'"
  by (simp add: adds_def)

lemma do_adds:
  "do_Get cl nn o1 s = (e, o2, s') \<Longrightarrow> EvGet \<in> E \<Longrightarrow> adds E s s'"
  "do_Patch cl o1 orig s = (e, o2, s') \<Longrightarrow> EvPatch (finalizers o1) \<in> E \<Longrightarrow> adds E s s'"
  "do_StatusUpdate cl o1 s = (e, o2, s') \<Longrightarrow> EvStatusUpdate (conditions o1) \<in> E \<Longrightarrow> adds E s s'"
  "do_StatusPatch cl o1 orig s = (e, o2, s') \<Longrightarrow> EvStatusPatch (terminators o1) (initializers o1) \<in> E \<Longrightarrow>
     adds E s s'"
  by (auto simp: adds_def dest: do_trace)

lemma AddFinalizers_adds:
  "AddFinalizersIfNeeded cl L inst subs ro st = (e, inst', st') \<Longrightarrow>
   adds (if ro then {} else range EvPatch) st st'"
  by (auto simp: AddFinalizersIfNeeded_def Let_def split: if_splits prod.splits intro: do_adds)

lemma removeFinalizer_adds:
  "removeFinalizerIfNeeded cl L inst s r ro st = (e, inst', st') \<Longrightarrow>
   adds (if ro then {} else range EvPatch) st st'"
  by (auto simp: removeFinalizerIfNeeded_def Let_def split: if_splits prod.splits option.splits intro: do_adds)

lemma updateStatus_adds:
  "updateStatus cl L original cur g st = (e, inst', st') \<Longrightarrow>
   adds (insert (EvStatusUpdate (conditions cur)) reports) st st'"
  by (auto simp: updateStatus_def split: if_splits prod.splits option.splits sum.splits
      intro: do_adds adds_trans [OF _ adds_emit])

lemma removeStatusEntry_adds:
  "removeStatusEntry fld m inst cl L entry st = (e, inst', st') \<Longrightarrow> adds {EvStatusPatch ts is |ts is. True} st st'"
  by (auto simp: removeStatusEntry_def Let_def split: if_splits prod.splits option.splits sum.splits
      intro: do_adds)

lemma MarkResourceAsFinal_trace:
  "MarkResourceAsFinal T l inst cs status st = Some (cs', inst', st') \<Longrightarrow> trace st' = trace st"
  by (auto simp: MarkResourceAsFinal_def Let_def split: if_splits prod.splits option.splits Option.bind_splits)

lemma mark_end_trace:
  "mark_end T l r cs inst st = Some (cs', inst', st') \<Longrightarrow> trace st' = trace st"
  by (auto simp: mark_end_def split: if_splits prod.splits option.splits dest: MarkResourceAsFinal_trace)

lemma init_conditions_trace:
  "init_conditions T l inst st = Some (cs, inst', st') \<Longrightarrow> trace st' = trace st"
  by (auto simp: init_conditions_def Let_def split: prod.splits option.splits Option.bind_splits)

lemma spread_check_trace:
  "spread_check T l inst st = Some (ret, st') \<Longrightarrow> trace st' = trace st"
  by (auto simp: spread_check_def split: if_splits prod.splits option.splits Option.bind_splits)

lemma HandleOperatorError_adds:
  "HandleOperatorError c p g st = Some (ret, st') \<Longrightarrow> adds reports st st'"
  by (auto simp: HandleOperatorError_def split: if_splits Option.bind_splits intro: adds_capture)

lemma run_action_trace: "run_action a n f c inst st = (r, inst', st') \<Longrightarrow> trace st' = trace st @ [EvSub a n]"
  by (rule do_trace(5))

lemma report_adds: "reports \<subseteq> E \<Longrightarrow> adds E st (report err st)"
  by (auto simp: report_def split: option.split intro: adds_capture)

definition sub_extras :: "('p, 'w) lifecycle \<Rightarrow> event set" where
  "sub_extras l = (if ReadOnly (lc_config l) then {} else range EvPatch) \<union> reports"

lemma sub_extras_mono: "reports \<subseteq> sub_extras l" "adds (if ReadOnly (lc_config l) then {} else range EvPatch) s t \<Longrightarrow> adds (sub_extras l) s t"
  by (auto simp: sub_extras_def intro: adds_mono)

lemma run_chosen_trace:
  assumes "run_chosen cl L l c inst s a f st = (r, inst', st')"
  shows "\<exists>evs. trace st' = trace st @ EvSub a (GetName s) # evs \<and> set evs \<subseteq> sub_extras l"
proof -
  obtain res err i1 s1 where ra: "run_action a (GetName s) f c inst st = ((res, err), i1, s1)"
    by (metis surj_pair)
  have "adds (sub_extras l) s1 st'"
    using assms ra unfolding run_chosen_def
    by (cases a) (auto split: if_splits prod.splits simp: report_adds sub_extras_mono dest: removeFinalizer_adds sub_extras_mono(2))
  then show ?thesis using run_action_trace [OF ra] by (auto simp: adds_def)
qed

lemma reconcileSubroutine_trace:
  assumes "reconcileSubroutine cl L l log c inst s g st = (r, inst', st')"
  shows "\<exists>evs. set evs \<subseteq> sub_extras l \<and> trace st' = trace st @
    (case choose_action L inst s of None \<Rightarrow> [] | Some (a, _) \<Rightarrow> [EvSub a (GetName s)]) @ evs"
proof (cases "choose_action L inst s")
  case None
  with assms show ?thesis by (auto simp: reconcileSubroutine_def)
next
  case (Some af)
  obtain a f where af: "af = (a, f)" by (cases af)
  obtain res err i1 s1 where rc: "run_chosen cl L l
      (SetLoggerInContext c (ChildLogger log ''subroutine'' (GetName s))) inst s a f st = ((res, err), i1, s1)"
    by (metis surj_pair)
  have "adds (sub_extras l) s1 st'"
    using assms Some af rc
    by (auto simp: reconcileSubroutine_def report_adds sub_extras_mono(1) split: option.splits if_splits)
  then show ?thesis using run_chosen_trace [OF rc] Some af by (auto simp: adds_def)
qed

section \<open>One round of the loop\<close>

fun loop_state :: "('p, 'w) loop_end \<Rightarrow> 'w rstate" where
  "loop_state (LoopReturn _ _ _ st) = st"
| "loop_state (LoopDone _ _ _ st) = st"

lemma begin_conditions_frame:
  "begin_conditions T l del n cs i st = Some (cs1, i1, st1) \<Longrightarrow>
   trace st1 = trace st \<and> deletionTimestamp i1 = deletionTimestamp i \<and> finalizers i1 = finalizers i"
  by (auto simp: begin_conditions_def set_conditions_def Let_def
      split: option.splits prod.splits Option.bind_splits if_splits)

lemma done_conditions_frame:
  "done_conditions l del n sr cs i st = (cs1, i1, st1) \<Longrightarrow>
   trace st1 = trace st \<and> deletionTimestamp i1 = deletionTimestamp i \<and> finalizers i1 = finalizers i"
  by (auto simp: done_conditions_def write_through_def split: option.splits prod.splits if_splits)

lemma fail_conditions_frame:
  "fail_conditions T l del n r e cs i st = Some (cs1, i1, st1) \<Longrightarrow>
   trace st1 = trace st \<and> deletionTimestamp i1 = deletionTimestamp i \<and> finalizers i1 = finalizers i"
  by (auto simp: fail_conditions_def set_conditions_def Let_def
      split: option.splits prod.splits Option.bind_splits if_splits)

definition after_action ::
  "'p object_type \<Rightarrow> ('p, 'w) lifecycle \<Rightarrow> condition list \<Rightarrow> 'p object \<Rightarrow> condition list option" where
  "after_action T l cs i = (case lc_conditions l of None \<Rightarrow> Some cs | Some _ \<Rightarrow> get_conditions T i)"

lemma process_subs_ConsE:
  assumes "process_subs cl L T l log c orig del (s # ss) r cs i st = Some out"
  obtains (failed) cs1 i1 st1 sr retry e i2 st2 cs2 where
      "begin_conditions T l del (GetName s) cs i st = Some (cs1, i1, st1)"
      "reconcileSubroutine cl L l log c i1 s True st1 = ((sr, retry, Some e), i2, st2)"
      "after_action T l cs1 i2 = Some cs2"
      "subroutine_failed cl L T l orig del (GetName s) r sr retry e cs2 i2 st2 = Some out"
    | (cont) cs1 i1 st1 sr retry i2 st2 cs2 cs3 i3 st3 where
      "begin_conditions T l del (GetName s) cs i st = Some (cs1, i1, st1)"
      "reconcileSubroutine cl L l log c i1 s True st1 = ((sr, retry, None), i2, st2)"
      "after_action T l cs1 i2 = Some cs2"
      "done_conditions l del (GetName s) sr cs2 i2 st2 = (cs3, i3, st3)"
      "process_subs cl L T l log c orig del ss (merge_requeue r sr) cs3 i3 st3 = Some out"
proof -
  from assms obtain cs1 i1 st1 where b: "begin_conditions T l del (GetName s) cs i st = Some (cs1, i1, st1)"
    by (auto split: Option.bind_splits)
  obtain sr retry err i2 st2 where
    rs: "reconcileSubroutine cl L l log c i1 s True st1 = ((sr, retry, err), i2, st2)"
    by (metis surj_pair)
  from assms b rs obtain cs2 where a: "after_action T l cs1 i2 = Some cs2"
    by (auto simp: after_action_def split: Option.bind_splits)
  obtain cs3 i3 st3 where d: "done_conditions l del (GetName s) sr cs2 i2 st2 = (cs3, i3, st3)"
    by (metis surj_pair)
  show ?thesis
    using assms b rs a d by (cases err) (auto simp: after_action_def intro: failed cont)
qed

declare process_subs.simps(2) [simp del]

lemma subroutine_failedE:
  assumes "subroutine_failed cl L T l orig del n r sr retry e cs i st = Some out"
  obtains cs1 i1 st1 cs2 i2 st2 x i' st' where
    "fail_conditions T l del n r e cs i st = Some (cs1, i1, st1)"
    "if retry then (cs2, i2, st2) = (cs1, i1, st1)
     else MarkResourceAsFinal T l i1 cs1 ConditionFalse st1 = Some (cs2, i2, st2)"
    "if ReadOnly (lc_config l) then (x, i', st') = (None, i2, st2)
     else updateStatus cl L orig i2 True st2 = (x, i', st')"
    "out = LoopReturn (if retry then sr else \<lparr>RequeueAfter = 0\<rparr>) (if retry then Some e else None) i' st'"
proof -
  from assms obtain cs1 i1 st1 where f: "fail_conditions T l del n r e cs i st = Some (cs1, i1, st1)"
    by (auto simp: subroutine_failed_def split: Option.bind_splits)
  with assms obtain cs2 i2 st2 where
    m: "(if \<not> retry then MarkResourceAsFinal T l i1 cs1 ConditionFalse st1 else Some (cs1, i1, st1)) = Some (cs2, i2, st2)"
    by (auto simp: subroutine_failed_def split: Option.bind_splits)
  obtain x i' st' where
    u: "(if \<not> ReadOnly (lc_config l) then updateStatus cl L orig i2 True st2 else (None, i2, st2)) = (x, i', st')"
    by (metis surj_pair)
  show ?thesis
    by (rule that [OF f, of cs2 i2 st2 x i' st'])
      (use assms f m u in \<open>auto simp: subroutine_failed_def split: if_splits\<close>)
qed

lemma subroutine_failed_adds:
  assumes "subroutine_failed cl L T l orig del n r sr retry e cs i st = Some out"
  shows "adds ((if ReadOnly (lc_config l) then {} else range EvStatusUpdate) \<union> reports) st (loop_state out)"
    (is "adds ?E _ _")
  using assms
proof (rule subroutine_failedE)
  fix cs1 i1 st1 cs2 i2 st2 x i' st'
  assume a: "fail_conditions T l del n r e cs i st = Some (cs1, i1, st1)"
    "if retry then (cs2, i2, st2) = (cs1, i1, st1)
     else MarkResourceAsFinal T l i1 cs1 ConditionFalse st1 = Some (cs2, i2, st2)"
    "if ReadOnly (lc_config l) then (x, i', st') = (None, i2, st2)
     else updateStatus cl L orig i2 True st2 = (x, i', st')"
    "out = LoopReturn (if retry then sr else \<lparr>RequeueAfter = 0\<rparr>) (if retry then Some e else None) i' st'"
  then have "trace st2 = trace st"
    by (auto dest!: fail_conditions_frame MarkResourceAsFinal_trace split: if_splits)
  then have "adds ?E st st2" by (rule adds_same_trace)
  also have "adds ?E st2 st'"
    using a(3) by (auto split: if_splits dest: updateStatus_adds elim!: adds_mono)
  finally show ?thesis using a(4) by simp
qed

lemma subroutine_failed_value:
  assumes "subroutine_failed cl L T l orig del n r sr retry e cs i st = Some out"
  shows "\<exists>i' st'. out = LoopReturn (if retry then sr else \<lparr>RequeueAfter = 0\<rparr>) (if retry then Some e else None) i' st'"
  using assms by (rule subroutine_failedE) blast

section \<open>The order of the subroutines\<close>

definition loop_events :: "('p, 'w) lifecycle \<Rightarrow> event set" where
  "loop_events l = {EvSub a n |a n. True} \<union> sub_extras l \<union>
     (if ReadOnly (lc_config l) then {} else range EvStatusUpdate)"

lemma subs_run_Nil: "set evs \<subseteq> {e. sub_of e = []} \<Longrightarrow> subs_run evs = []"
  by (induction evs) auto

lemma sub_extras_silent: "sub_extras l \<subseteq> {e. sub_of e = []}"
  by (auto simp: sub_extras_def split: if_splits)

lemma subroutine_names:
  assumes "reconcileSubroutine cl L l log c inst s g st = (r, inst', st')"
  obtains evs where "trace st' = trace st @ evs" "set evs \<subseteq> loop_events l"
    "subs_run evs = (case choose_action L inst s of None \<Rightarrow> [] | Some (a, _) \<Rightarrow> [(a, GetName s)])"
proof -
  obtain evs where 1: "set evs \<subseteq> sub_extras l" and
    2: "trace st' = trace st @ (case choose_action L inst s of None \<Rightarrow> [] | Some (a, _) \<Rightarrow> [EvSub a (GetName s)]) @ evs"
    using reconcileSubroutine_trace [OF assms] by blast
  have "subs_run evs = []" using 1 sub_extras_silent by (intro subs_run_Nil) blast
  with 1 2 show ?thesis
    by (intro that [of "(case choose_action L inst s of None \<Rightarrow> [] | Some (a, _) \<Rightarrow> [EvSub a (GetName s)]) @ evs"])
      (auto simp: loop_events_def split: option.splits)
qed

lemma head_subseq:
  "subseq ns ms \<Longrightarrow> subseq (map snd (case o1 of None \<Rightarrow> [] | Some (a, _) \<Rightarrow> [(a, n)]) @ ns) (n # ms)"
  by (cases o1) auto

lemma process_subs_order:
  "process_subs cl L T l log c orig del ss r cs i st = Some out \<Longrightarrow>
   \<exists>evs. trace (loop_state out) = trace st @ evs \<and> set evs \<subseteq> loop_events l \<and>
     subseq (map snd (subs_run evs)) (map GetName ss)"
proof (induction ss arbitrary: r cs i st)
  case Nil
  then show ?case by auto
next
  case (Cons s ss)
  from Cons.prems show ?case
  proof (cases rule: process_subs_ConsE)
    case (failed cs1 i1 st1 sr retry e i2 st2 cs2)
    have tr: "trace st1 = trace st" using begin_conditions_frame [OF failed(1)] by simp
    obtain evs where e: "trace st2 = trace st1 @ evs" "set evs \<subseteq> loop_events l"
      "subs_run evs = (case choose_action L i1 s of None \<Rightarrow> [] | Some (a, _) \<Rightarrow> [(a, GetName s)])"
      using subroutine_names [OF failed(2)] .
    from subroutine_failed_adds [OF failed(4)]
obtain fs where f: "trace (loop_state out) = trace st2 @ fs"
      "set fs \<subseteq> (if ReadOnly (lc_config l) then {} else range EvStatusUpdate) \<union> reports"
      by (auto simp: adds_def)
    have "subs_run fs = []" using f(2) by (intro subs_run_Nil) (auto split: if_splits)
    moreover have "set fs \<subseteq> loop_events l" using f(2) by (auto simp: loop_events_def sub_extras_def split: if_splits)
    ultimately show ?thesis using e f(1) tr head_subseq [of "[]"]
      by (intro exI [of _ "evs @ fs"]) (simp add: head_subseq [of "[]", simplified])
  next
    case (cont cs1 i1 st1 sr retry i2 st2 cs2 cs3 i3 st3)
    have tr: "trace st1 = trace st" "trace st3 = trace st2"
      using begin_conditions_frame [OF cont(1)] done_conditions_frame [OF cont(4)] by simp_all
    obtain evs where e: "trace st2 = trace st1 @ evs" "set evs \<subseteq> loop_events l"
      "subs_run evs = (case choose_action L i1 s of None \<Rightarrow> [] | Some (a, _) \<Rightarrow> [(a, GetName s)])"
      using subroutine_names [OF cont(2)] .
    from Cons.IH [OF cont(5)] obtain fs where
      "trace (loop_state out) = trace st3 @ fs" "set fs \<subseteq> loop_events l"
      "subseq (map snd (subs_run fs)) (map GetName ss)" by blast
    then show ?thesis using e tr head_subseq
      by (intro exI [of _ "evs @ fs"]) simp
  qed
qed

section \<open>Outcomes\<close>

text \<open>
  The reference for the loop: from the outcomes of the subroutines alone, the first error ends
  the loop, with its result and error when it is to be retried and with nothing otherwise;
  without one the requeue delays are merged.
\<close>

type_synonym outcome = "ctrl_result \<times> bool \<times> goerror option"

fun outcome_spec :: "ctrl_result \<Rightarrow> outcome list \<Rightarrow> ctrl_result + ctrl_result \<times> goerror option" where
  "outcome_spec acc [] = Inl acc"
| "outcome_spec acc ((sr, retry, Some e) # os) =
     Inr (if retry then (sr, Some e) else (\<lparr>RequeueAfter = 0\<rparr>, None))"
| "outcome_spec acc ((sr, retry, None) # os) = outcome_spec (merge_requeue acc sr) os"

fun loop_value :: "('p, 'w) loop_end \<Rightarrow> ctrl_result + ctrl_result \<times> goerror option" where
  "loop_value (LoopReturn r e _ _) = Inr (r, e)"
| "loop_value (LoopDone r _ _ _) = Inl r"

definition outcome_of ::
  "('p, 'w) client \<Rightarrow> ('p, 'u) library \<Rightarrow> ('p, 'w) lifecycle \<Rightarrow> logger \<Rightarrow> ctx \<Rightarrow> ('p, 'w) subroutine \<Rightarrow>
   outcome \<Rightarrow> bool" where
  "outcome_of cl L l log c s out \<longleftrightarrow>
     (\<exists>i st. fst (reconcileSubroutine cl L l log c i s True st) = out)"

lemma process_subs_outcomes:
  "process_subs cl L T l log c orig del ss r cs i st = Some out \<Longrightarrow>
   \<exists>os. list_all2 (outcome_of cl L l log c) (take (length os) ss) os \<and>
     (\<forall>x \<in> set (butlast os). snd (snd x) = None) \<and> loop_value out = outcome_spec r os \<and>
     (isl (loop_value out) \<longrightarrow> length os = length ss)"
proof (induction ss arbitrary: r cs i st)
  case Nil
  then show ?case by (intro exI [of _ "[]"]) auto
next
  case (Cons s ss)
  from Cons.prems show ?case
  proof (cases rule: process_subs_ConsE)
    case (failed cs1 i1 st1 sr retry e i2 st2 cs2)
    from subroutine_failed_value [OF failed(4)]
    have "loop_value out = outcome_spec r [(sr, retry, Some e)]" by auto
    moreover have "outcome_of cl L l log c s (sr, retry, Some e)"
      using failed(2) unfolding outcome_of_def by (metis fst_conv)
    ultimately show ?thesis by (intro exI [of _ "[(sr, retry, Some e)]"]) simp
  next
    case (cont cs1 i1 st1 sr retry i2 st2 cs2 cs3 i3 st3)
    from Cons.IH [OF cont(5)] obtain os where
      "list_all2 (outcome_of cl L l log c) (take (length os) ss) os"
      "\<forall>x \<in> set (butlast os). snd (snd x) = None" "loop_value out = outcome_spec (merge_requeue r sr) os"
      "isl (loop_value out) \<longrightarrow> length os = length ss" by blast
    moreover have "outcome_of cl L l log c s (sr, retry, None)"
      using cont(2) unfolding outcome_of_def by (metis fst_conv)
    ultimately show ?thesis by (intro exI [of _ "(sr, retry, None) # os"]) auto
  qed
qed

section \<open>The whole reconciliation\<close>

text \<open>The events a reconciliation can add, from the configuration of its lifecycle.\<close>

definition has_name :: "string option \<Rightarrow> bool" where
  "has_name t = (case t of None \<Rightarrow> False | Some n \<Rightarrow> n \<noteq> [])"

definition status_patches :: "('p, 'w) lifecycle \<Rightarrow> event set" where
  "status_patches l =
     (if has_name (lc_terminator l) \<or> has_name (lc_initializer l)
      then {EvStatusPatch ts is |ts is. True} else {})"

definition plain_writes :: "('p, 'w) lifecycle \<Rightarrow> event set" where
  "plain_writes l =
     (if ReadOnly (lc_config l) then {} else range EvPatch \<union> range EvStatusUpdate) \<union>
     (if lc_spreader l = None then {} else range EvPatch)"

definition end_events :: "('p, 'w) lifecycle \<Rightarrow> event set" where
  "end_events l = status_patches l \<union> plain_writes l \<union> reports"

lemma drop_terminator_adds:
  "drop_terminator cl L l del r inst st = (e, i', st') \<Longrightarrow> adds (end_events l) st st'"
  by (auto simp: drop_terminator_def removeTerminator_def end_events_def status_patches_def has_name_def
      split: option.splits if_splits prod.splits dest!: removeStatusEntry_adds elim!: adds_mono)

lemma drop_initializer_adds:
  "drop_initializer cl L l del r inst st = (e, i', st') \<Longrightarrow> adds (end_events l) st st'"
  by (auto simp: drop_initializer_def removeInitializer_def end_events_def status_patches_def has_name_def
      split: option.splits if_splits prod.splits dest!: removeStatusEntry_adds elim!: adds_mono)

lemma final_status_adds:
  "final_status cl L l orig inst st = (e, i', st') \<Longrightarrow> adds (end_events l) st st'"
  by (auto simp: final_status_def end_events_def plain_writes_def
      split: if_splits dest!: updateStatus_adds elim!: adds_mono)

lemma drop_refresh_label_adds:
  "drop_refresh_label cl l r inst st = (ret, i', st') \<Longrightarrow> adds (end_events l) st st'"
  by (auto simp: drop_refresh_label_def HandleClientError_def end_events_def plain_writes_def
      split: option.splits if_splits prod.splits intro: do_adds)

lemma finish_adds:
  assumes "finish cl L T l orig del r cs inst st = Some (ret, inst', st')"
  shows "adds (end_events l) st st'"
proof -
  from assms obtain cs1 i1 s1 where m: "mark_end T l r cs inst st = Some (cs1, i1, s1)"
    by (auto simp: finish_def split: Option.bind_splits)
  obtain e2 i2 s2 where t: "drop_terminator cl L l del r i1 s1 = (e2, i2, s2)" by (metis surj_pair)
  obtain e3 i3 s3 where n: "drop_initializer cl L l del r i2 s2 = (e3, i3, s3)" by (metis surj_pair)
  have "adds (end_events l) st s1" using mark_end_trace [OF m] by (rule adds_same_trace)
  also have "adds (end_events l) s1 s2" using t by (rule drop_terminator_adds)
  finally have 2: "adds (end_events l) st s2" .
  have 3: "adds (end_events l) st s3" using 2 drop_initializer_adds [OF n] by (rule adds_trans)
  consider "st' = s2" | "st' = s3" | i4 e5 i5 s5 where
      "final_status cl L l orig i4 s3 = (e5, i5, s5)" "st' = s5"
    | i4 e5 i5 s5 where
      "final_status cl L l orig i4 s3 = (e5, i5, s5)" "drop_refresh_label cl l r i5 s5 = (ret, inst', st')"
    using assms m t n
    by (auto simp: finish_def split: option.splits Option.bind_splits prod.splits)
  then show ?thesis
  proof cases
    case 3
    then show ?thesis using \<open>adds (end_events l) st s3\<close> final_status_adds adds_trans by metis
  next
    case 4
    then show ?thesis
      using \<open>adds (end_events l) st s3\<close> final_status_adds drop_refresh_label_adds adds_trans by metis
  qed (use 2 3 in auto)
qed

definition all_events :: "('p, 'w) lifecycle \<Rightarrow> event set" where
  "all_events l = {EvGet, EvPrepare} \<union> {EvSub a n |a n. True} \<union> end_events l"

lemma loop_events_all: "loop_events l \<subseteq> all_events l"
  by (auto simp: loop_events_def all_events_def end_events_def sub_extras_def plain_writes_def split: if_splits)

lemma end_events_all: "end_events l \<subseteq> all_events l"
  by (auto simp: all_events_def)

lemma end_events_silent: "end_events l \<subseteq> {e. sub_of e = []}"
  by (auto simp: end_events_def status_patches_def plain_writes_def split: if_splits)

lemma run_subroutines_events:
  assumes "run_subroutines cl L T l log c orig cs inst st = Some (ret, inst', st')"
  shows "\<exists>evs. trace st' = trace st @ evs \<and> set evs \<subseteq> all_events l \<and>
    subseq (map snd (subs_run evs))
      (map GetName (execution_order (deletionTimestamp orig \<noteq> None) (lc_subroutines l)))"
proof -
  let ?order = "execution_order (deletionTimestamp orig \<noteq> None) (lc_subroutines l)"
  from assms obtain out where
    p: "process_subs cl L T l log c orig (deletionTimestamp orig \<noteq> None) ?order \<lparr>RequeueAfter = 0\<rparr> cs inst st = Some out"
    by (auto simp: run_subroutines_def Let_def split: Option.bind_splits)
  obtain evs where e: "trace (loop_state out) = trace st @ evs" "set evs \<subseteq> all_events l"
    "subseq (map snd (subs_run evs)) (map GetName ?order)"
    using process_subs_order [OF p] loop_events_all by blast
  show ?thesis
  proof (cases out)
    case (LoopReturn r x i1 s1)
    with assms p e show ?thesis by (auto simp: run_subroutines_def Let_def)
  next
    case (LoopDone r cs1 i1 s1)
    with assms p have "finish cl L T l orig (deletionTimestamp orig \<noteq> None) r cs1 i1 s1 = Some (ret, inst', st')"
      by (auto simp: run_subroutines_def Let_def)
    then obtain fs where f: "trace st' = trace s1 @ fs" "set fs \<subseteq> end_events l"
      using finish_adds by (metis adds_def)
    have "subs_run fs = []" using f(2) end_events_silent by (intro subs_run_Nil) blast
    then show ?thesis using e f LoopDone end_events_all by (intro exI [of _ "evs @ fs"]) auto
  qed
qed

lemma reconcile_found_cases:
  assumes "reconcile_found cl L T l log c inst st = Some (ret, inst', st')"
  obtains (skip) "spread_check T l inst st = Some (Some ret, st')" "inst' = inst"
    | (addfail) e st1 where "spread_check T l inst st = Some (None, st1)"
      "AddFinalizersIfNeeded cl L inst (lc_subroutines l) (ReadOnly (lc_config l)) st1 = (Some e, inst', st')"
    | (prepfail) st1 i2 st2 cs i3 st3 c1 pe st4 where "spread_check T l inst st = Some (None, st1)"
      "AddFinalizersIfNeeded cl L inst (lc_subroutines l) (ReadOnly (lc_config l)) st1 = (None, i2, st2)"
      "init_conditions T l i2 st2 = Some (cs, i3, st3)" "prepare_context l c i3 st3 = ((c1, Some pe), inst', st4)"
      "HandleOperatorError c pe True st4 = Some (ret, st')"
    | (run) st1 i2 st2 cs i3 st3 c1 i4 st4 where "spread_check T l inst st = Some (None, st1)"
      "AddFinalizersIfNeeded cl L inst (lc_subroutines l) (ReadOnly (lc_config l)) st1 = (None, i2, st2)"
      "init_conditions T l i2 st2 = Some (cs, i3, st3)" "prepare_context l c i3 st3 = ((c1, None), i4, st4)"
      "run_subroutines cl L T l log c1 inst cs i4 st4 = Some (ret, inst', st')"
  using assms by (auto simp: reconcile_found_def Let_def split: option.splits prod.splits Option.bind_splits)

text \<open>Up to the subroutines nothing but patches, reports and the preparation of the context happens.\<close>

definition silent_events :: "('p, 'w) lifecycle \<Rightarrow> event set" where
  "silent_events l = all_events l \<inter> {e. sub_of e = []}"

lemma reconcile_found_prefix:
  assumes "spread_check T l inst st = Some (sk, st1)"
    and "AddFinalizersIfNeeded cl L inst (lc_subroutines l) (ReadOnly (lc_config l)) st1 = (e, i2, st2)"
  shows "adds (silent_events l) st st2"
    and "init_conditions T l i2 st2 = Some (cs, i3, st3) \<Longrightarrow> prepare_context l c i3 st3 = (r, i4, st4) \<Longrightarrow>
      adds (silent_events l) st st4"
proof -
  from AddFinalizers_adds [OF assms(2)] have "adds (silent_events l) st1 st2"
    by (rule adds_mono) (auto simp: silent_events_def all_events_def end_events_def plain_writes_def)
  then show a: "adds (silent_events l) st st2" using spread_check_trace [OF assms(1)] by (simp add: adds_def)
  assume i: "init_conditions T l i2 st2 = Some (cs, i3, st3)" and "prepare_context l c i3 st3 = (r, i4, st4)"
  then have "adds (silent_events l) st3 st4"
    by (auto simp: prepare_context_def silent_events_def all_events_def adds_def split: option.splits prod.splits)
  then show "adds (silent_events l) st st4" using a init_conditions_trace [OF i] by (auto simp: adds_def)
qed

lemma reconcile_found_events:
  assumes "reconcile_found cl L T l log c inst st = Some (ret, inst', st')"
  shows "\<exists>evs. trace st' = trace st @ evs \<and> set evs \<subseteq> all_events l \<and>
    subseq (map snd (subs_run evs))
      (map GetName (execution_order (deletionTimestamp inst \<noteq> None) (lc_subroutines l)))"
    (is "\<exists>evs. ?P st evs")
proof -
  have quiet: "\<exists>evs. ?P st evs" if "adds (silent_events l) st st'"
    using that subs_run_Nil by (force simp: adds_def silent_events_def)
  from assms show ?thesis
  proof (cases rule: reconcile_found_cases)
    case skip
    then show ?thesis by (intro quiet adds_same_trace spread_check_trace)
  next
    case addfail
    then show ?thesis by (intro quiet reconcile_found_prefix(1))
  next
    case (prepfail st1 i2 st2 cs i3 st3 c1 pe st4)
    then have "adds (silent_events l) st4 st'"
      by (auto dest!: HandleOperatorError_adds elim!: adds_mono simp: silent_events_def all_events_def end_events_def)
    with reconcile_found_prefix(2) [OF prepfail(1-4)] show ?thesis by (intro quiet) (rule adds_trans)
  next
    case (run st1 i2 st2 cs i3 st3 c1 i4 st4)
    from run_subroutines_events [OF run(5)] obtain evs where e: "?P st4 evs" by blast
    from reconcile_found_prefix(2) [OF run(1-4)] obtain fs where
      g: "trace st4 = trace st @ fs" "set fs \<subseteq> silent_events l" by (auto simp: adds_def)
    have "subs_run fs = []" using g(2) by (intro subs_run_Nil) (auto simp: silent_events_def)
    with e g show ?thesis by (intro exI [of _ "fs @ evs"]) (auto simp: silent_events_def)
  qed
qed

lemma Reconcile_cases:
  assumes "Reconcile cl L T l rid cluster c nn inst st = Some (ret, inst', st')"
  obtains (notfound) err st1 where "do_Get cl nn inst st = (Some err, inst', st1)" "IsNotFound L err"
      "ret = (\<lparr>RequeueAfter = 0\<rparr>, None)" "st' = st1"
    | (geterror) err st1 where "do_Get cl nn inst st = (Some err, inst', st1)" "\<not> IsNotFound L err"
      "ret = (\<lparr>RequeueAfter = 0\<rparr>, Some err)" "st' = emit (EvSentry err) st1"
    | (found) log inst1 st1 c1 where "do_Get cl nn inst st = (None, inst1, st1)"
      "c1 = ContextWithSentryTags (SetLoggerInContext c log)
              [(''namespace'', nn_namespace nn), (''name'', nn_name nn)]"
      "reconcile_found cl L T l log c1 inst1 st1 = Some (ret, inst', st')"
  using assms
  by (auto simp: Reconcile_def HandleClientError_def Let_def
      split: option.splits prod.splits if_splits Option.bind_splits)

section \<open>Nothing panics\<close>

text \<open>\<open>returns x\<close>: the computation does not panic.\<close>

definition returns :: "'a option \<Rightarrow> bool" where
  "returns x \<longleftrightarrow> x \<noteq> None"

lemma returns_Some [simp, intro]: "returns (Some x)"
  by (simp add: returns_def)

lemma returns_bind [intro!]: "returns x \<Longrightarrow> (\<And>y. x = Some y \<Longrightarrow> returns (f y)) \<Longrightarrow> returns (Option.bind x f)"
  by (cases x) (auto simp: returns_def)

lemma returns_bind_Some [simp]: "x = Some y \<Longrightarrow> returns (Option.bind x f) = returns (f y)"
  by simp

lemma returnsE: "returns x \<Longrightarrow> (\<And>y. x = Some y \<Longrightarrow> P) \<Longrightarrow> P"
  by (auto simp: returns_def)

definition spread_total :: "'p object_type \<Rightarrow> ('p, 'w) lifecycle \<Rightarrow> bool" where
  "spread_total T l \<longleftrightarrow> (\<forall>sp. lc_spreader l = Some sp \<longrightarrow> has_spread_status T \<and>
     (\<forall>i w. returns (ReconcileRequired sp T i w) \<and> returns (OnNextReconcile sp T i w) \<and>
            returns (SetNextReconcileTime sp T i w)))"

definition conditions_total :: "'p object_type \<Rightarrow> ('p, 'w) lifecycle \<Rightarrow> bool" where
  "conditions_total T l \<longleftrightarrow> (lc_conditions l \<noteq> None \<longrightarrow> has_conditions T)"

context spread_contract
begin

lemma contract_total:
  assumes "lc_spreader l = Some sm" "has_spread_status T" "\<And>i. 2 * Minute \<le> reconcile_border T i"
  shows "spread_total T l"
proof -
  have "returns (ReconcileRequired sm T i w) \<and> returns (OnNextReconcile sm T i w) \<and>
      returns (SetNextReconcileTime sm T i w)" for i w
    using required_total [of T i w] next_total [of T i w] set_next_total [of T i w] assms(2,3)
    by (auto simp: returns_def)
  with assms show ?thesis by (simp add: spread_total_def)
qed

end

lemma spread_totalD:
  assumes "spread_total T l" "lc_spreader l = Some sp"
  shows "has_spread_status T" "returns (ReconcileRequired sp T i w)" "returns (OnNextReconcile sp T i w)"
    "returns (SetNextReconcileTime sp T i w)"
  using assms by (auto simp: spread_total_def)

lemma MarkResourceAsFinal_total:
  "spread_total T l \<Longrightarrow> returns (MarkResourceAsFinal T l i cs status st)"
  by (auto simp: MarkResourceAsFinal_def split: option.split prod.split dest: spread_totalD)

lemma set_get_total [simp]:
  "returns (set_conditions T cs i) \<longleftrightarrow> has_conditions T" "returns (get_conditions T i) \<longleftrightarrow> has_conditions T"
  by (auto simp: set_conditions_def get_conditions_def returns_def)

lemma conditions_ops_total:
  assumes "conditions_total T l"
  shows "returns (begin_conditions T l del n cs i st)" "returns (fail_conditions T l del n r e cs i st)"
    "returns (init_conditions T l i st)" "returns (after_action T l cs i)"
  using assms
  by (auto simp: conditions_total_def begin_conditions_def fail_conditions_def init_conditions_def
      after_action_def split: option.split prod.split)

lemma subroutine_failed_total:
  assumes "spread_total T l" "conditions_total T l"
  shows "returns (subroutine_failed cl L T l orig del n r sr retry e cs i st)"
  using conditions_ops_total(2) [OF assms(2)] MarkResourceAsFinal_total [OF assms(1)]
  by (auto simp: subroutine_failed_def split: prod.split)

lemma process_subs_total:
  assumes "spread_total T l" "conditions_total T l"
  shows "returns (process_subs cl L T l log c orig del ss r cs i st)"
proof (induction ss arbitrary: r cs i st)
  case (Cons s ss)
  have "returns (case lc_conditions l of None \<Rightarrow> Some ds | Some _ \<Rightarrow> get_conditions T j)" for ds j
    using conditions_ops_total(4) [OF assms(2)] by (simp add: after_action_def)
  then show ?case
    using conditions_ops_total(1) [OF assms(2)] Cons.IH subroutine_failed_total [OF assms]
    by (auto simp: process_subs.simps(2) split: prod.split option.split)
qed simp

lemma mark_end_total: "spread_total T l \<Longrightarrow> returns (mark_end T l r cs i st)"
  by (auto simp: mark_end_def MarkResourceAsFinal_total split: option.split prod.split)

lemma finish_total:
  assumes "spread_total T l" "conditions_total T l"
  shows "returns (finish cl L T l orig del r cs i st)"
proof -
  have "returns (case lc_conditions l of None \<Rightarrow> Some j | Some _ \<Rightarrow> set_conditions T ds j)" for ds j
    using assms(2) by (auto simp: conditions_total_def split: option.split)
  then show ?thesis
    using mark_end_total [OF assms(1)]
    by (auto simp: finish_def simp del: returns_bind_Some split: prod.split option.split)
qed

lemma run_subroutines_total:
  assumes "spread_total T l" "conditions_total T l"
  shows "returns (run_subroutines cl L T l log c orig cs i st)"
  using process_subs_total [OF assms] finish_total [OF assms]
  by (auto simp: run_subroutines_def Let_def split: loop_end.split)

lemma HandleOperatorError_total:
  "returns (GetSentryTagsFromContext c) \<Longrightarrow> returns (HandleOperatorError c p g st)"
  by (auto simp: HandleOperatorError_def)

lemma spread_check_total: "spread_total T l \<Longrightarrow> returns (spread_check T l i st)"
  by (auto simp: spread_check_def split: option.split prod.split dest: spread_totalD)

lemma reconcile_found_total:
  assumes "spread_total T l" "conditions_total T l" "returns (GetSentryTagsFromContext c)"
  shows "returns (reconcile_found cl L T l log c inst st)"
  using spread_check_total [OF assms(1)] conditions_ops_total(3) [OF assms(2)]
    run_subroutines_total [OF assms(1,2)] HandleOperatorError_total [OF assms(3)]
  by (auto simp: reconcile_found_def Let_def split: option.split prod.split)

lemma Reconcile_total:
  assumes "spread_total T l" "conditions_total T l"
  shows "returns (Reconcile cl L T l rid cluster c nn inst st)"
proof -
  have "returns (GetSentryTagsFromContext (ContextWithSentryTags c' t))" for c' t
    by (simp add: ctx_simps)
  then show ?thesis
    by (auto simp: Reconcile_def Let_def reconcile_found_total [OF assms] split: option.split prod.split)
qed

section \<open>A concrete environment\<close>

text \<open>
  An API server that accepts every write and answers with the object it was sent, the documented
  finalizer functions, and objects as their own unstructured form.  The witnesses run in it.
\<close>

definition ok_client :: "('p, 'w) client" where
  "ok_client = \<lparr>cl_Get = (\<lambda>n ob w. (None, ob, w)), cl_Patch = (\<lambda>ob orig w. (None, ob, w)),
     cl_StatusUpdate = (\<lambda>ob w. (None, ob, w)), cl_StatusPatch = (\<lambda>ob orig w. (None, ob, w))\<rparr>"

definition ok_library :: "('p, 'p object) library" where
  "ok_library = \<lparr>IsNotFound = (\<lambda>e. e = Foreign 404 ''not found''), IsConflict = (\<lambda>e. e = Foreign 409 ''conflict''),
     ContainsFinalizer = (\<lambda>ob f. f \<in> set (finalizers ob)),
     AddFinalizer = (\<lambda>ob f. if f \<in> set (finalizers ob) then (False, ob)
        else (True, ob\<lparr>finalizers := finalizers ob @ [f]\<rparr>)),
     RemoveFinalizer = (\<lambda>ob f. if f \<in> set (finalizers ob)
        then (True, ob\<lparr>finalizers := filter (\<lambda>x. x \<noteq> f) (finalizers ob)\<rparr>) else (False, ob)),
     ToUnstructured = Inr, FromUnstructured = (\<lambda>u ob. Inr u),
     NestedStringSlice = (\<lambda>u p. if p = [''status'', ''terminators''] then Inr (Some (terminators u))
        else if p = [''status'', ''initializers''] then Inr (Some (initializers u)) else Inr None),
     SetNestedStringSlice = (\<lambda>u xs p. if p = [''status'', ''terminators''] then Inr (u\<lparr>terminators := xs\<rparr>)
        else Inr (u\<lparr>initializers := xs\<rparr>)),
     NestedFieldCopy = (\<lambda>u p. Inr (Some u)),
     DeepEqual = (\<lambda>a b. map_option conditions a = map_option conditions b)\<rparr>"

definition sample_object :: "unit object" where
  "sample_object = \<lparr>obj_name = ''a'', generation = 1, labels = Map.empty, finalizers = [],
     deletionTimestamp = None, conditions = [], nextReconcileTime = 0, observedGeneration = 0,
     terminators = [], initializers = [], payload = ()\<rparr>"

definition sample_type :: "unit object_type" where
  "sample_type = \<lparr>has_conditions = True, has_spread_status = True, reconcile_timer = None\<rparr>"

definition sample_sub :: "string \<Rightarrow> duration \<Rightarrow> OperatorError \<Rightarrow> ('p, 'w) subroutine" where
  "sample_sub n d e = \<lparr>GetName = n, Finalizers = (\<lambda>_. [n]),
     Process = (\<lambda>c i w. ((\<lparr>RequeueAfter = d\<rparr>, e), i, w)),
     Finalize = (\<lambda>c i w. ((\<lparr>RequeueAfter = d\<rparr>, e), i, w)), Terminate = None, Initialize = None\<rparr>"

definition sample_lifecycle :: "('p, 'w) subroutine list \<Rightarrow> bool \<Rightarrow> ('p, 'w) lifecycle" where
  "sample_lifecycle ss ro =
     \<lparr>lc_config = \<lparr>OperatorName = ''op'', ControllerName = ''ctrl'', ReadOnly = ro\<rparr>,
      lc_log = \<lparr>log_level = 0, log_fields = []\<rparr>, lc_spreader = None, lc_conditions = None,
      lc_prepare = None, lc_subroutines = ss, lc_terminator = None, lc_initializer = None\<rparr>"

definition start :: "'w \<Rightarrow> 'w rstate" where
  "start w = \<lparr>world = w, trace = []\<rparr>"

definition request :: namespaced_name where
  "request = \<lparr>nn_namespace = ''ns'', nn_name = ''a''\<rparr>"

lemmas sample_defs = ok_client_def ok_library_def sample_object_def sample_type_def sample_sub_def
  sample_lifecycle_def start_def request_def

lemmas lifecycle_defs = Reconcile_def reconcile_found_def spread_check_def AddFinalizersIfNeeded_def
  init_conditions_def prepare_context_def run_subroutines_def execution_order_def
  begin_conditions_def reconcileSubroutine_def choose_action_def run_chosen_def run_action_def
  done_conditions_def finish_def mark_end_def MarkResourceAsFinal_def drop_terminator_def
  drop_initializer_def final_status_def updateStatus_def drop_refresh_label_def do_Get_def
  do_Patch_def do_StatusUpdate_def time_is_zero_def AddFinalizerIfNeeded_def emit_def report_def
  process_subs.simps subroutine_failed_def fail_conditions_def merge_requeue_def capture_def
  removeFinalizerIfNeeded_def set_conditions_def get_conditions_def write_through_def

lemma sample_run:
  "Reconcile ok_client ok_library sample_type
     (sample_lifecycle [sample_sub ''x'' 0 None, sample_sub ''y'' Second None] False)
     ''r'' None Map.empty request sample_object (start ()) =
   Some ((\<lparr>RequeueAfter = Second\<rparr>, None), sample_object\<lparr>finalizers := [''x'', ''y'']\<rparr>,
     \<lparr>world = (), trace = [EvGet, EvPatch [''x'', ''y''], EvSub DoProcess ''x'', EvSub DoProcess ''y'']\<rparr>)"
  by (simp add: lifecycle_defs sample_defs)

end
