(* ===== verification/Lifecycle_Props.thy ===== *)
theory Lifecycle_Props
  imports Lifecycle_Trace
begin

text \<open>
  The properties of the reconciliation: order and stopping of the subroutines, the returned result,
  what is written in which mode, the \<open>Ready\<close> condition, finalizers, and the error paths.  The
  witnesses run \<open>Reconcile\<close> in the concrete environment of \<open>Lifecycle_Trace\<close>.
\<close>

section \<open>Order, results, panics\<close>

text \<open>
  C1.  Subroutines run at most once each and in order: the actions a reconciliation starts are, by
  the names of their subroutines, a subsequence of the configured list, and of the reversed list
  when the object the API server returned is being deleted.
\<close>

theorem Reconcile_subroutine_order:
  assumes "Reconcile cl L T l rid cluster c nn inst st = Some (ret, inst', st')"
    and "cl_Get cl nn inst (world st) = (e, inst1, w1)"
  shows "\<exists>evs. trace st' = trace st @ evs \<and>
    subseq (map snd (subs_run evs))
      (map GetName (if deletionTimestamp inst1 \<noteq> None then rev (lc_subroutines l) else lc_subroutines l))"
  using assms(1)
proof (cases rule: Reconcile_cases)
  case (found log inst2 st2 c1)
  with assms(2) have i: "inst2 = inst1" and t: "trace st2 = trace st @ [EvGet]"
    by (auto simp: do_Get_def dest: do_trace)
  from reconcile_found_events [OF found(3)] t i show ?thesis
    by (fastforce simp: execution_order_def)
qed (auto dest: do_trace intro: exI [of _ "[EvGet]"] exI [of _ "[EvGet, EvSentry err]" for err])

text \<open>Two subroutines on an object in deletion: the finalizers run in reverse order.\<close>

definition deleted_object :: "unit object" where
  "deleted_object = sample_object\<lparr>deletionTimestamp := Some 1, finalizers := [''x'', ''y'']\<rparr>"

lemma deleted_run:
  "Reconcile ok_client ok_library sample_type
     (sample_lifecycle [sample_sub ''x'' 0 None, sample_sub ''y'' 0 None] False)
     ''r'' None Map.empty request deleted_object (start ()) =
   Some ((\<lparr>RequeueAfter = 0\<rparr>, None), deleted_object\<lparr>finalizers := []\<rparr>,
     \<lparr>world = (), trace = [EvGet, EvSub DoFinalize ''y'', EvPatch [''x''], EvSub DoFinalize ''x'', EvPatch []]\<rparr>)"
  by (simp add: lifecycle_defs sample_defs deleted_object_def)

theorem Reconcile_subroutine_order_witness:
  "\<exists>evs. [EvGet, EvSub DoFinalize ''y'', EvPatch [''x''], EvSub DoFinalize ''x'', EvPatch []] = evs \<and>
     subseq (map snd (subs_run evs)) [''y'', ''x'']"
  using Reconcile_subroutine_order [OF deleted_run, of None deleted_object "()"]
  by (simp add: sample_defs deleted_object_def)





text \<open>Merged requeue delays: the least positive one, or none.\<close>

definition least_positive :: "duration list \<Rightarrow> duration" where
  "least_positive ds = (let ps = filter (\<lambda>d. d > 0) ds in if ps = [] then 0 else Min (set ps))"

lemma least_positive_Cons:
  "0 \<le> least_positive ds \<and> least_positive (d # ds) =
    (if d > 0 then if least_positive ds = 0 then d else min d (least_positive ds) else least_positive ds)"
proof -
  have pos: "least_positive ds > 0" if "filter (\<lambda>d. d > 0) ds \<noteq> []"
  proof -
    let ?ps = "filter (\<lambda>d. d > 0) ds"
    from that have "Min (set ?ps) \<in> set ?ps" by (intro Min_in) (auto simp del: set_filter)
    with that show ?thesis by (simp add: least_positive_def Let_def)
  qed
  have "Min (insert d (set (filter (\<lambda>d. d > 0) ds))) = min d (Min (set (filter (\<lambda>d. d > 0) ds)))"
    if "filter (\<lambda>d. d > 0) ds \<noteq> []"
    using that by (intro Min_insert) (auto simp del: set_filter)
  then show ?thesis
    using pos by (cases "filter (\<lambda>d. d > 0) ds = []") (auto simp: least_positive_def Let_def)
qed

lemma outcome_spec_least:
  "outcome_spec acc os = Inl r \<Longrightarrow> 0 \<le> RequeueAfter acc \<Longrightarrow>
   RequeueAfter r = least_positive (RequeueAfter acc # map (\<lambda>x. RequeueAfter (fst x)) os) \<and>
   (\<forall>x \<in> set os. snd (snd x) = None)"
proof (induction acc os rule: outcome_spec.induct)
  case (1 acc)
  then show ?case by (simp add: least_positive_def)
next
  case (3 acc sr retry os)
  from "3.prems" have "0 \<le> RequeueAfter (merge_requeue acc sr)" by (simp add: merge_requeue_def)
  with 3 show ?case
    by (auto simp: least_positive_Cons [THEN conjunct2] merge_requeue_def min_def
        dest: least_positive_Cons [THEN conjunct1, THEN order.antisym, rotated])
qed simp

lemma merged_delays:
  assumes "outcome_spec \<lparr>RequeueAfter = 0\<rparr> os = Inl r" "RequeueAfter r = 0" "x \<in> set os"
  shows "RequeueAfter (fst x) \<le> 0"
proof -
  have r: "RequeueAfter r = least_positive (map (\<lambda>x. RequeueAfter (fst x)) os)"
    using outcome_spec_least [OF assms(1)] by (simp add: least_positive_def)
  have "0 < f x \<Longrightarrow> 0 < least_positive (map f os)" for f :: "outcome \<Rightarrow> duration"
    using assms(3)
  proof (induction os)
    case (Cons y ys)
    then show ?case
      using least_positive_Cons [of "map f ys" "f y"] least_positive_Cons [of "map f ys" "f x"] by auto
  qed simp
  from this [of "\<lambda>x. RequeueAfter (fst x)"] show ?thesis using r assms(2) by linarith
qed




lemma validated_no_panic:
  assumes "ValidateInterfaces T l = None"
    and "lc_spreader l = None \<or> (lc_spreader l = Some (NewSpreader S) \<and> (\<forall>i. 2 * Minute \<le> reconcile_border T i))"
  shows "\<exists>ret inst' st'. Reconcile cl L T l rid cluster c nn inst st = Some (ret, inst', st')"
proof -
  have "conditions_total T l"
    using assms(1) by (auto simp: ValidateInterfaces_def conditions_total_def ToInterface_def split: if_splits)
  moreover have "spread_total T l"
  proof (cases "lc_spreader l = None")
    case True
    then show ?thesis by (simp add: spread_total_def)
  next
    case False
    with assms have "has_spread_status T" "lc_spreader l = Some (NewSpreader S)"
      "\<And>i. 2 * Minute \<le> reconcile_border T i"
      by (auto simp: ValidateInterfaces_def ToInterface_def split: if_splits)
    then show ?thesis by (intro spreader.contract_total) auto
  qed
  ultimately have "returns (Reconcile cl L T l rid cluster c nn inst st)" by (intro Reconcile_total)
  then show ?thesis by (auto elim!: returnsE)
qed

text \<open>
  C3.  A reconciliation never panics when the object type passes \<open>ValidateInterfaces\<close> and, with the
  spreader, the object's own reconcile interval is at least two minutes: it always returns a result.
\<close>

theorem Reconcile_no_panic:
  assumes "ValidateInterfaces T l = None"
    and "lc_spreader l = None \<or> (lc_spreader l = Some (NewSpreader S) \<and> (\<forall>i. 2 * Minute \<le> reconcile_border T i))"
  shows "\<exists>ret inst' st'. Reconcile cl L T l rid cluster c nn inst st = Some (ret, inst', st')"
  using assms by (rule validated_no_panic)

definition spread_lifecycle :: "(unit, int) lifecycle" where
  "spread_lifecycle = (sample_lifecycle [] False)
     \<lparr>lc_spreader := Some (NewSpreader example_std), lc_conditions := Some (NewConditionManager example_meta)\<rparr>"

theorem Reconcile_no_panic_witness:
  "\<exists>ret inst' st'. Reconcile ok_client ok_library sample_type spread_lifecycle ''r'' None Map.empty request
     sample_object (start 0) = Some (ret, inst', st')"
  by (rule Reconcile_no_panic [where S = example_std])
    (simp_all add: ValidateInterfaces_def ToInterface_def spread_lifecycle_def sample_defs
      reconcile_border_def defaultMaxReconcileDuration_def)

section \<open>Read-only mode\<close>

lemma read_only_quiet:
  assumes "Reconcile cl L T l rid cluster c nn inst st = Some (ret, inst', st')"
    and "ReadOnly (lc_config l)" and "lc_spreader l = None"
    and "\<not> has_name (lc_terminator l)" and "\<not> has_name (lc_initializer l)"
  shows "\<exists>evs. trace st' = trace st @ evs \<and> (\<forall>e \<in> set evs. \<not> is_write e)"
  using assms(1)
proof (cases rule: Reconcile_cases)
  case (found log inst2 st2 c1)
  have "all_events l \<subseteq> {e. \<not> is_write e}"
    using assms(2-) by (auto simp: all_events_def end_events_def status_patches_def plain_writes_def)
  with reconcile_found_events [OF found(3)] do_trace(1) [OF found(1)] show ?thesis
    by (fastforce intro: exI [of _ "EvGet # evs" for evs])
qed (auto dest: do_trace intro: exI [of _ "[EvGet]"] exI [of _ "[EvGet, EvSentry err]" for err])

text \<open>
  C13.  In read-only mode without spreader, terminator and initializer, a reconciliation writes
  nothing: no patch, no status update, no status patch, whatever the subroutines return.
\<close>

theorem Reconcile_read_only:
  assumes "Reconcile cl L T l rid cluster c nn inst st = Some (ret, inst', st')"
    and "ReadOnly (lc_config l)" and "lc_spreader l = None"
    and "\<not> has_name (lc_terminator l)" and "\<not> has_name (lc_initializer l)"
  shows "\<exists>evs. trace st' = trace st @ evs \<and> (\<forall>e \<in> set evs. \<not> is_write e)"
  using assms by (rule read_only_quiet)

lemma read_only_run:
  "Reconcile ok_client ok_library sample_type
     (sample_lifecycle [sample_sub ''x'' Second None] True) ''r'' None Map.empty request sample_object (start ()) =
   Some ((\<lparr>RequeueAfter = Second\<rparr>, None), sample_object, \<lparr>world = (), trace = [EvGet, EvSub DoProcess ''x'']\<rparr>)"
  by (simp add: lifecycle_defs sample_defs)

theorem Reconcile_read_only_witness:
  "\<exists>evs. [EvGet, EvSub DoProcess ''x''] = evs \<and> (\<forall>e \<in> set evs. \<not> is_write e)"
  using Reconcile_read_only [OF read_only_run] by (simp add: sample_defs has_name_def)

text \<open>
  The other side of read-only mode: a lifecycle with an initializer patches the status of the
  object also when it is read-only.  (\<open>WithReadOnly\<close> is documented to leave the status alone.)
\<close>

theorem read_only_still_patches_status:
  "\<exists>(l :: (unit, unit) lifecycle) inst ret inst' st'.
     ReadOnly (lc_config l) \<and> lc_spreader l = None \<and> lc_conditions l = None \<and>
     Reconcile ok_client ok_library sample_type l ''r'' None Map.empty request inst (start ()) =
       Some (ret, inst', st') \<and>
     EvStatusPatch [] [''other''] \<in> set (trace st') \<and> initializers inst = [''init'', ''other'']"
proof -
  let ?l = "(sample_lifecycle [] True)\<lparr>lc_initializer := Some ''init''\<rparr> :: (unit, unit) lifecycle"
  let ?i = "sample_object\<lparr>initializers := [''init'', ''other'']\<rparr>"
  have "Reconcile ok_client ok_library sample_type ?l ''r'' None Map.empty request ?i (start ()) =
    Some ((\<lparr>RequeueAfter = 0\<rparr>, None), ?i\<lparr>initializers := [''other'']\<rparr>,
      \<lparr>world = (), trace = [EvGet, EvStatusPatch [] [''other'']]\<rparr>)"
    by (simp add: lifecycle_defs sample_defs removeInitializer_def removeStatusEntry_def do_StatusPatch_def Let_def)
  then show ?thesis
    by (intro exI [of _ ?l] exI [of _ ?i]) (simp add: sample_defs)
qed

end
