(* ===== verification/Lifecycle_Conditions.thy ===== *)
theory Lifecycle_Conditions
  imports Lifecycle_Props
begin

text \<open>
  What a reconciliation writes into the object: the \<open>Ready\<close> condition of every status update, the
  finalizers of every patch, terminators and initializers; and the remaining paths of \<open>Reconcile\<close>.
\<close>

section \<open>The conditions a status update sends\<close>

lemma updateStatus_sent:
  assumes "updateStatus cl L original cur g st = (e, i', st')" and "trace st' = trace st @ evs"
    and "EvStatusUpdate ds \<in> set evs"
  shows "ds = conditions cur"
  using updateStatus_adds [OF assms(1)] assms(2,3) by (auto simp: adds_def)

context condition_contract
begin

lemma fail_conditions_ready:
  assumes "lib" "lc_conditions l = Some cm"
    and "fail_conditions T l del n r e cs i st = Some (cs1, i1, st1)"
  shows "conditions i1 = cs1 \<and> status_of cs1 ConditionReady = Some ConditionFalse \<and>
    status_of cs1 (sub_name n del) = Some ConditionFalse \<and>
    (\<forall>t. t \<noteq> ConditionReady \<longrightarrow> t \<noteq> sub_name n del \<longrightarrow> status_of cs1 t = status_of cs t)"
proof -
  from assms(2,3) obtain b cs' w' b' w'' where
    s: "SetSubroutineCondition cm cs (generation i) n r (Some e) del (world st) = (b, cs', w')" and
    y: "SetInstanceConditionReady cm cs' (generation i) ConditionFalse w' = (b', cs1, w'')" and
    c: "conditions i1 = cs1"
    by (auto simp: fail_conditions_def set_conditions_def Let_def
        split: prod.splits Option.bind_splits if_splits)
  have "cond_lookup cs1 (sub_name n del) = cond_lookup cs' (sub_name n del)"
    using ready_frame [OF assms(1) y] sub_not_ready by blast
  moreover have "cond_lookup cs1 t = cond_lookup cs t" if "t \<noteq> ConditionReady" "t \<noteq> sub_name n del" for t
    using ready_frame [OF assms(1) y that(1)] sub_put [OF assms(1) s] that(2) by auto
  ultimately show ?thesis
    using c ready_status [OF assms(1) y] sub_status [OF assms(1) s] by (simp add: status_of_def)
qed

lemma MarkResourceAsFinal_ready:
  assumes "lib" "lc_conditions l = Some cm"
    and "\<forall>sp. lc_spreader l = Some sp \<longrightarrow> spread_contract sp"
    and "MarkResourceAsFinal T l i cs status st = Some (cs1, i1, st1)"
  shows "if cond_lookup cs ConditionReady = None then cs1 = cs
    else status_of cs1 ConditionReady = Some status \<and>
      (\<forall>t. t \<noteq> ConditionReady \<longrightarrow> cond_lookup cs1 t = cond_lookup cs t) \<and>
      (conditions i = cs \<longrightarrow> conditions i1 = cs1)"
proof -
  from assms(2,4) obtain i0 b cs' w0 w' where
    y: "SetInstanceConditionReady cm cs (generation i0) status w0 = (b, cs', w')" and
    c: "cs1 = callers_view cs cs'" and
    i: "i1 = write_through cs' i0" "conditions i0 = conditions i"
  proof (cases "lc_spreader l \<noteq> None \<and> time_is_zero (deletionTimestamp i)")
    case False
    with assms(2,4) that [of i] show ?thesis
      by (auto simp: MarkResourceAsFinal_def split: prod.splits option.splits)
  next
    case True
    then obtain sp where sp: "lc_spreader l = Some sp" by blast
    from assms(2,4) sp True obtain i2 w2 where
      n: "SetNextReconcileTime sp T i (world st) = Some (i2, w2)" and
      m: "(case SetInstanceConditionReady cm cs (generation (UpdateObservedGeneration sp i2)) status w2 of
             (uu, cs1, w2') \<Rightarrow> Some (callers_view cs cs1, write_through cs1 (UpdateObservedGeneration sp i2),
               st\<lparr>world := w2'\<rparr>)) = Some (cs1, i1, st1)"
      by (auto simp: MarkResourceAsFinal_def split: Option.bind_splits if_splits)
    have k: "conditions (UpdateObservedGeneration sp i2) = conditions i"
      by (rule spread_contract.mark_frame [OF assms(3) [rule_format, OF sp] n]) simp
    from m k show ?thesis by (auto split: prod.splits intro: that)
  qed
  show ?thesis
    using ready_put [OF assms(1) y] c i
    by (auto simp: callers_view_put write_through_def)
qed

lemma failed_status_updates:
  assumes "lib" "lc_conditions l = Some cm"
    and "\<forall>sp. lc_spreader l = Some sp \<longrightarrow> spread_contract sp"
    and "subroutine_failed cl L T l orig del n r sr retry e cs i st = Some out"
    and "trace (loop_state out) = trace st @ evs" "EvStatusUpdate ds \<in> set evs"
  shows "status_of ds ConditionReady = Some ConditionFalse \<and> status_of ds (sub_name n del) = Some ConditionFalse \<and>
    (\<forall>t. t \<noteq> ConditionReady \<longrightarrow> t \<noteq> sub_name n del \<longrightarrow> status_of ds t = status_of cs t)"
  using assms(4)
proof (rule subroutine_failedE)
  fix cs1 i1 st1 cs2 i2 st2 x i' st'
  assume f: "fail_conditions T l del n r e cs i st = Some (cs1, i1, st1)"
    and m: "if retry then (cs2, i2, st2) = (cs1, i1, st1)
      else MarkResourceAsFinal T l i1 cs1 ConditionFalse st1 = Some (cs2, i2, st2)"
    and u: "if ReadOnly (lc_config l) then (x, i', st') = (None, i2, st2)
      else updateStatus cl L orig i2 True st2 = (x, i', st')"
    and o: "out = LoopReturn (if retry then sr else \<lparr>RequeueAfter = 0\<rparr>) (if retry then Some e else None) i' st'"
  note ready = fail_conditions_ready [OF assms(1,2) f]
  have c2: "conditions i2 = cs2 \<and> status_of cs2 ConditionReady = Some ConditionFalse \<and>
      status_of cs2 (sub_name n del) = Some ConditionFalse \<and>
      (\<forall>t. t \<noteq> ConditionReady \<longrightarrow> t \<noteq> sub_name n del \<longrightarrow> status_of cs2 t = status_of cs t)"
  proof (cases retry)
    case True
    with m ready show ?thesis by simp
  next
    case False
    with m MarkResourceAsFinal_ready [OF assms(1-3), of T i1 cs1 ConditionFalse st1 cs2 i2 st2] ready
    show ?thesis by (auto simp: status_of_def sub_not_ready split: if_splits)
  qed
  have t: "trace st2 = trace st"
    using m fail_conditions_frame [OF f] by (auto split: if_splits dest: MarkResourceAsFinal_trace)
  from assms(5) o t have tr: "trace st' = trace st2 @ evs" by simp
  have "ds = conditions i2"
    using u tr assms(6) by (auto split: if_splits dest: updateStatus_sent)
  with c2 show ?thesis by simp
qed

lemma end_status:
  assumes "lib" "lc_conditions l = Some cm"
    and "\<forall>sp. lc_spreader l = Some sp \<longrightarrow> spread_contract sp"
    and "mark_end T l r cs i st = Some (cs1, i1, st1)"
  shows "status_of cs1 ConditionReady =
    (if RequeueAfter r \<noteq> 0 then Some ConditionFalse
     else if cond_lookup cs ConditionReady = None then None else Some ConditionTrue)"
proof (cases "RequeueAfter r = 0")
  case True
  with assms(4) have "MarkResourceAsFinal T l i cs ConditionTrue st = Some (cs1, i1, st1)"
    by (simp add: mark_end_def)
  from MarkResourceAsFinal_ready [OF assms(1-3) this] True show ?thesis
    by (auto simp: status_of_def split: if_splits)
next
  case False
  with assms(2,4) obtain b w w' where
    "SetInstanceConditionReady cm cs (generation i) ConditionFalse w = (b, cs1, w')"
    by (auto simp: mark_end_def split: prod.splits)
  from ready_status [OF assms(1) this] False show ?thesis by simp
qed

lemma end_frame:
  assumes "lib" "lc_conditions l = Some cm"
    and "\<forall>sp. lc_spreader l = Some sp \<longrightarrow> spread_contract sp"
    and "mark_end T l r cs i st = Some (cs1, i1, st1)" and "t \<noteq> ConditionReady"
  shows "status_of cs1 t = status_of cs t"
proof (cases "RequeueAfter r = 0")
  case True
  with assms(4) have "MarkResourceAsFinal T l i cs ConditionTrue st = Some (cs1, i1, st1)"
    by (simp add: mark_end_def)
  from MarkResourceAsFinal_ready [OF assms(1-3) this] assms(5) show ?thesis
    by (auto simp: status_of_def split: if_splits)
next
  case False
  with assms(2,4) obtain b w w' where
    "SetInstanceConditionReady cm cs (generation i) ConditionFalse w = (b, cs1, w')"
    by (auto simp: mark_end_def split: prod.splits)
  from ready_frame [OF assms(1) this assms(5)] show ?thesis by (simp add: status_of_def)
qed

end

text \<open>After the loop a single status update can follow; it sends the conditions of \<open>mark_end\<close>.\<close>

lemma no_status_update:
  "adds E st st' \<Longrightarrow> (\<And>ds. EvStatusUpdate ds \<notin> E) \<Longrightarrow> trace st' = trace st @ evs \<Longrightarrow>
   EvStatusUpdate ds \<notin> set evs"
  by (auto simp: adds_def)

lemma finish_status_updates:
  assumes "lc_conditions l = Some cm" "mark_end T l r cs i st = Some (cs1, i1, s1)"
    and "finish cl L T l orig del r cs i st = Some (ret, i', st')"
    and "trace st' = trace st @ evs" "EvStatusUpdate ds \<in> set evs"
  shows "ds = cs1"
proof -
  obtain e2 i2 s2 where t: "drop_terminator cl L l del r i1 s1 = (e2, i2, s2)" by (metis surj_pair)
  obtain e3 i3 s3 where n: "drop_initializer cl L l del r i2 s2 = (e3, i3, s3)" by (metis surj_pair)
  let ?E = "- range EvStatusUpdate"
  have m: "adds ?E st s1" using mark_end_trace [OF assms(2)] by (rule adds_same_trace)
  have "adds ?E s1 s2" "adds ?E s2 s3"
    using t n by (auto simp: drop_terminator_def drop_initializer_def removeTerminator_def removeInitializer_def
        split: option.splits if_splits prod.splits dest!: removeStatusEntry_adds elim!: adds_mono)
  with m have 2: "adds ?E st s2" and 3: "adds ?E st s3" using adds_trans by metis+
  have st': "st' \<noteq> s2" "st' \<noteq> s3"
    using no_status_update [OF 2, of evs ds] no_status_update [OF 3, of evs ds] assms(4,5) by auto
  from 3 obtain fs where fs: "trace s3 = trace st @ fs" "set fs \<subseteq> ?E" by (auto simp: adds_def)
  let ?i4 = "i3\<lparr>conditions := cs1\<rparr>"
  obtain e5 i5 s5 where f: "final_status cl L l orig ?i4 s3 = (e5, i5, s5)" by (metis surj_pair)
  with assms(1-3) t n st' have d: "st' = s5 \<or> drop_refresh_label cl l r i5 s5 = (ret, i', st')"
    by (auto simp: finish_def set_conditions_def split: option.splits Option.bind_splits prod.splits if_splits)
  have "adds ?E s5 st'"
    using d by (auto simp: drop_refresh_label_def HandleClientError_def
        split: option.splits if_splits prod.splits intro: do_adds)
  then obtain gs where gs: "trace st' = trace s5 @ gs" "set gs \<subseteq> ?E" by (auto simp: adds_def)
  from f obtain hs where hs: "trace s5 = trace s3 @ hs" "set hs \<subseteq> insert (EvStatusUpdate cs1) reports"
    by (auto simp: final_status_def adds_def split: if_splits dest!: updateStatus_adds)
  from fs gs hs assms(4) have "evs = fs @ hs @ gs" by simp
  with assms(5) fs gs hs show ?thesis by auto
qed

lemma reconcileSubroutine_no_update:
  assumes "reconcileSubroutine cl L l log c i s g st = (r, i', st')"
  shows "adds (- range EvStatusUpdate) st st'"
proof -
  obtain evs where "set evs \<subseteq> sub_extras l" "trace st' = trace st @
      (case choose_action L i s of None \<Rightarrow> [] | Some (a, _) \<Rightarrow> [EvSub a (GetName s)]) @ evs"
    using reconcileSubroutine_trace [OF assms] by blast
  then show ?thesis
    by (auto simp: adds_def sub_extras_def split: option.splits if_splits prod.splits)
qed

lemma process_subs_status_updates:
  assumes "condition_contract cm sub_name lib" "lib" "lc_conditions l = Some cm"
    and "\<forall>sp. lc_spreader l = Some sp \<longrightarrow> spread_contract sp"
  shows "process_subs cl L T l log c orig del ss r cs i st = Some out \<Longrightarrow>
    trace (loop_state out) = trace st @ evs \<Longrightarrow> EvStatusUpdate ds \<in> set evs \<Longrightarrow>
    (\<exists>r' e' i' st'. out = LoopReturn r' e' i' st') \<and> status_of ds ConditionReady = Some ConditionFalse \<and>
    (\<exists>s \<in> set ss. status_of ds (sub_name (GetName s) del) = Some ConditionFalse)"
proof (induction ss arbitrary: r cs i st evs)
  case Nil
  then show ?case by auto
next
  case (Cons s ss)
  from Cons.prems(1) show ?case
  proof (cases rule: process_subs_ConsE)
    case (failed cs1 i1 st1 sr retry e i2 st2 cs2)
    obtain fs where fs: "trace st2 = trace st1 @ fs" "set fs \<subseteq> - range EvStatusUpdate"
      using reconcileSubroutine_no_update [OF failed(2)] by (auto simp: adds_def)
    obtain gs where gs: "trace (loop_state out) = trace st2 @ gs"
      using subroutine_failed_adds [OF failed(4)] by (auto simp: adds_def)
    from gs fs begin_conditions_frame [OF failed(1)] Cons.prems(2) have "evs = fs @ gs" by simp
    with Cons.prems(3) fs have "EvStatusUpdate ds \<in> set gs" by auto
    from condition_contract.failed_status_updates [OF assms(1-4) failed(4) gs this]
      subroutine_failed_value [OF failed(4)]
    show ?thesis by auto
  next
    case (cont cs1 i1 st1 sr retry i2 st2 cs2 cs3 i3 st3)
    obtain fs where fs: "trace st2 = trace st1 @ fs" "set fs \<subseteq> - range EvStatusUpdate"
      using reconcileSubroutine_no_update [OF cont(2)] by (auto simp: adds_def)
    obtain gs where gs: "trace (loop_state out) = trace st3 @ gs"
      using process_subs_order [OF cont(5)] by auto
    from gs fs begin_conditions_frame [OF cont(1)] done_conditions_frame [OF cont(4)] Cons.prems(2)
    have "evs = fs @ gs" by simp
    with Cons.prems(3) fs have "EvStatusUpdate ds \<in> set gs" by auto
    from Cons.IH [OF cont(5) gs this] show ?thesis by auto
  qed
qed

lemma sub_spreaders:
  "lc_spreader l = None \<or> lc_spreader l = Some (NewSpreader S) \<Longrightarrow>
   \<forall>sp. lc_spreader l = Some sp \<longrightarrow> spread_contract sp"
  using spreader.spread_contract_axioms by auto

text \<open>
  Where a status update of the subroutines' part comes from: a subroutine failed, or the loop ran to its
  end and the update sends what \<open>mark_end\<close> left.
\<close>

lemma status_update_origin:
  assumes "meta_laws M" and "lc_conditions l = Some (NewConditionManager M)"
    and "lc_spreader l = None \<or> lc_spreader l = Some (NewSpreader S)"
    and "run_subroutines cl L T l log c orig cs i st = Some (ret, i', st')"
    and "trace st' = trace st @ evs" and "EvStatusUpdate ds \<in> set evs"
  obtains (failed) r e i1 s1 s where "process_subs cl L T l log c orig (deletionTimestamp orig \<noteq> None)
      (execution_order (deletionTimestamp orig \<noteq> None) (lc_subroutines l)) \<lparr>RequeueAfter = 0\<rparr> cs i st =
        Some (LoopReturn r e i1 s1)"
      "status_of ds ConditionReady = Some ConditionFalse" "s \<in> set (lc_subroutines l)"
      "status_of ds (subroutine_condition (GetName s) (deletionTimestamp orig \<noteq> None)) = Some ConditionFalse"
    | (ended) r cs' i1 s1 i2 s2 where "process_subs cl L T l log c orig (deletionTimestamp orig \<noteq> None)
      (execution_order (deletionTimestamp orig \<noteq> None) (lc_subroutines l)) \<lparr>RequeueAfter = 0\<rparr> cs i st =
        Some (LoopDone r cs' i1 s1)"
      "mark_end T l r cs' i1 s1 = Some (ds, i2, s2)"
proof -
  let ?del = "deletionTimestamp orig \<noteq> None"
  note spr = sub_spreaders [OF assms(3)]
  note upd = process_subs_status_updates [OF cm.condition_contract_axioms assms(1,2) spr]
  from assms(4) obtain out where p: "process_subs cl L T l log c orig ?del
      (execution_order ?del (lc_subroutines l)) \<lparr>RequeueAfter = 0\<rparr> cs i st = Some out"
    by (auto simp: run_subroutines_def Let_def split: Option.bind_splits)
  have order: "set (execution_order ?del (lc_subroutines l)) = set (lc_subroutines l)"
    by (simp add: execution_order_def)
  show ?thesis
  proof (cases out)
    case (LoopReturn r e i1 s1)
    with assms(4,5) p have "trace (loop_state out) = trace st @ evs" by (simp add: run_subroutines_def)
    from upd [OF p this assms(6)] order obtain s where "status_of ds ConditionReady = Some ConditionFalse"
      "s \<in> set (lc_subroutines l)" "status_of ds (subroutine_condition (GetName s) ?del) = Some ConditionFalse" by blast
    with p LoopReturn failed show ?thesis by blast
  next
    case (LoopDone r cs' i1 s1)
    with assms(4) p have f: "finish cl L T l orig ?del r cs' i1 s1 = Some (ret, i', st')"
      by (simp add: run_subroutines_def)
    obtain fs where fs: "trace s1 = trace st @ fs" using process_subs_order [OF p] LoopDone by auto
    obtain gs where gs: "trace st' = trace s1 @ gs" using finish_adds [OF f] by (auto simp: adds_def)
    have "EvStatusUpdate ds \<notin> set fs" using upd [OF p, of fs ds] LoopDone fs by auto
    with assms(5,6) fs gs have ds: "EvStatusUpdate ds \<in> set gs" by auto
    from f obtain cs1 i2 s2 where m: "mark_end T l r cs' i1 s1 = Some (cs1, i2, s2)"
      by (auto simp: finish_def split: Option.bind_splits)
    have "ds = cs1" by (rule finish_status_updates [OF assms(2) m f gs ds])
    with p LoopDone m ended show ?thesis by blast
  qed
qed

text \<open>
  C10.  The \<open>Ready\<close> condition of every status update a reconciliation sends: \<open>False\<close>, together with
  the condition of one of the subroutines, when a subroutine failed (retried or not); \<open>False\<close> when a
  subroutine asked to be requeued; and when all are done \<open>True\<close>, if the conditions the loop left
  behind have a \<open>Ready\<close> entry.  Without one the update has none either: \<open>MarkResourceAsFinal\<close> appends
  it to its own copy of the slice.
\<close>

theorem status_updates_ready:
  assumes "meta_laws M" and "lc_conditions l = Some (NewConditionManager M)"
    and "lc_spreader l = None \<or> lc_spreader l = Some (NewSpreader S)"
    and "run_subroutines cl L T l log c orig cs i st = Some (ret, i', st')"
    and "trace st' = trace st @ evs" and "EvStatusUpdate ds \<in> set evs"
  shows "case process_subs cl L T l log c orig (deletionTimestamp orig \<noteq> None)
      (execution_order (deletionTimestamp orig \<noteq> None) (lc_subroutines l)) \<lparr>RequeueAfter = 0\<rparr> cs i st of
      Some (LoopReturn _ _ _ _) \<Rightarrow> status_of ds ConditionReady = Some ConditionFalse \<and>
        (\<exists>s \<in> set (lc_subroutines l).
           status_of ds (subroutine_condition (GetName s) (deletionTimestamp orig \<noteq> None)) = Some ConditionFalse)
    | Some (LoopDone r cs' _ _) \<Rightarrow> status_of ds ConditionReady =
        (if RequeueAfter r \<noteq> 0 then Some ConditionFalse
         else if cond_lookup cs' ConditionReady = None then None else Some ConditionTrue)
    | None \<Rightarrow> False"
  using assms
proof (cases rule: status_update_origin)
  case failed
  then show ?thesis by auto
next
  case ended
  from cm.end_status [OF assms(1,2) sub_spreaders [OF assms(3)] ended(2)] ended(1) show ?thesis by simp
qed

text \<open>One subroutine fails for good: the update says so, and nothing is returned.\<close>

definition managed_lifecycle :: "(unit, int) subroutine list \<Rightarrow> (unit, int) lifecycle" where
  "managed_lifecycle ss = (sample_lifecycle ss False)\<lparr>lc_conditions := Some (NewConditionManager example_meta)\<rparr>"

definition ready_unknown :: condition where
  "ready_unknown = \<lparr>cond_type = ''Ready'', cond_status = ConditionUnknown, cond_reason = ''Complete'',
     cond_message = ''The resource is processing'', cond_generation = 1, cond_transition = 0\<rparr>"

lemmas managed_defs = managed_lifecycle_def ready_unknown_def example_meta_def sample_defs lifecycle_defs
  NewConditionManager_def SetInstanceConditionReady_impl_def SetSubroutineCondition_impl_def
  SetSubroutineConditionToUnknownIfNotSet_impl_def getConditionNameAndMessage_def ConditionReady_def
  callers_view_def error_verb_def cond_lookup_def

lemma managed_run:
  "\<exists>ds i' st'. run_subroutines ok_client ok_library sample_type (managed_lifecycle [sample_sub ''x'' 0 None])
     \<lparr>log_level = 0, log_fields = []\<rparr> Map.empty sample_object [ready_unknown] sample_object (start 0) =
     Some ((\<lparr>RequeueAfter = 0\<rparr>, None), i', st') \<and>
     trace st' = trace (start (0::int)) @ [EvSub DoProcess ''x'', EvStatusUpdate ds]"
  by (simp add: managed_defs)

lemma managed_loop:
  "\<exists>i' st' c. process_subs ok_client ok_library sample_type (managed_lifecycle [sample_sub ''x'' 0 None])
     \<lparr>log_level = 0, log_fields = []\<rparr> Map.empty sample_object False [sample_sub ''x'' 0 None]
     \<lparr>RequeueAfter = 0\<rparr> [ready_unknown] sample_object (start 0) =
     Some (LoopDone \<lparr>RequeueAfter = 0\<rparr> [ready_unknown, c] i' st')"
  by (simp add: managed_defs)

theorem status_updates_ready_witness:
  "\<exists>ds. status_of ds ConditionReady = Some ConditionTrue"
proof -
  from managed_run obtain ds i' st' where
    r: "run_subroutines ok_client ok_library sample_type (managed_lifecycle [sample_sub ''x'' 0 None])
      \<lparr>log_level = 0, log_fields = []\<rparr> Map.empty sample_object [ready_unknown] sample_object (start 0) =
      Some ((\<lparr>RequeueAfter = 0\<rparr>, None), i', st')" and
    t: "trace st' = trace (start (0::int)) @ [EvSub DoProcess ''x'', EvStatusUpdate ds]" by blast
  have "lc_conditions (managed_lifecycle [sample_sub ''x'' 0 None]) = Some (NewConditionManager example_meta)"
    "lc_spreader (managed_lifecycle [sample_sub ''x'' 0 None]) = None"
    by (simp_all add: managed_lifecycle_def sample_lifecycle_def)
  from status_updates_ready [OF example_meta_laws this(1) disjI1 [OF this(2)] r t, of ds] managed_loop
  show ?thesis
    by (intro exI [of _ ds])
      (auto simp: execution_order_def sample_object_def managed_lifecycle_def sample_lifecycle_def
        ready_unknown_def ConditionReady_def)
qed

end
