(* ===== verification/Lifecycle_Paths.thy ===== *)
theory Lifecycle_Paths
  imports Lifecycle_Conditions
begin

text \<open>
  Finalizers, terminators and initializers, and the early exits and error paths of \<open>Reconcile\<close>.
\<close>

section \<open>Finalizers\<close>

text \<open>
  What the documentation of \<open>controllerutil\<close> promises: the functions report whether they changed the
  list, adding appends an absent finalizer, removing drops a present one.
\<close>

definition finalizer_laws :: "('p, 'u) library \<Rightarrow> bool" where
  "finalizer_laws L \<longleftrightarrow>
     (\<forall>ob f. ContainsFinalizer L ob f = (f \<in> set (finalizers ob))) \<and>
     (\<forall>ob f. AddFinalizer L ob f = (f \<notin> set (finalizers ob),
        ob\<lparr>finalizers := if f \<in> set (finalizers ob) then finalizers ob else finalizers ob @ [f]\<rparr>)) \<and>
     (\<forall>ob f. RemoveFinalizer L ob f = (f \<in> set (finalizers ob),
        ob\<lparr>finalizers := filter (\<lambda>x. x \<noteq> f) (finalizers ob)\<rparr>))"

lemma filter_absent: "x \<notin> set xs \<Longrightarrow> filter (\<lambda>y. y \<noteq> x) xs = xs"
  by (induction xs) auto

lemma ok_library_laws: "finalizer_laws ok_library"
  by (simp add: finalizer_laws_def ok_library_def filter_absent)

lemma containsFinalizer_iff:
  "finalizer_laws L \<Longrightarrow> containsFinalizer L ob fs \<longleftrightarrow> set fs \<inter> set (finalizers ob) \<noteq> {}"
  by (induction fs) (auto simp: finalizer_laws_def)

definition add_missing :: "string list \<Rightarrow> string list \<Rightarrow> string list" where
  "add_missing fs have = foldl (\<lambda>acc f. if f \<in> set acc then acc else acc @ [f]) have fs"

lemma add_missing_Cons [simp]:
  "add_missing [] hv = hv"
  "add_missing (f # fs) hv = add_missing fs (if f \<in> set hv then hv else hv @ [f])"
  by (simp_all add: add_missing_def)

lemma set_add_missing [simp]: "set (add_missing fs hv) = set fs \<union> set hv"
  by (induction fs arbitrary: hv) auto

lemma prefix_add_missing: "prefix hv (add_missing fs hv)"
proof (induction fs arbitrary: hv)
  case (Cons f fs)
  from Cons.IH [of "hv @ [f]"] Cons.IH [of hv] show ?case by (auto dest: append_prefixD)
qed simp

lemma add_missing_id: "set fs \<subseteq> set hv \<Longrightarrow> add_missing fs hv = hv"
  by (induction fs) auto

lemma add_missing_append [simp]: "add_missing (fs @ gs) hv = add_missing gs (add_missing fs hv)"
  by (simp add: add_missing_def)

lemma distinct_add_missing: "distinct hv \<Longrightarrow> distinct (add_missing fs hv)"
  by (induction fs arbitrary: hv) auto

lemma add_finalizers_spec:
  "finalizer_laws L \<Longrightarrow> add_finalizers L fs ob =
     (\<not> set fs \<subseteq> set (finalizers ob), ob\<lparr>finalizers := add_missing fs (finalizers ob)\<rparr>)"
  by (induction fs arbitrary: ob) (auto simp: finalizer_laws_def)

lemma remove_finalizers_spec:
  "finalizer_laws L \<Longrightarrow> remove_finalizers L fs ob =
     (set fs \<inter> set (finalizers ob) \<noteq> {},
      ob\<lparr>finalizers := filter (\<lambda>x. x \<notin> set fs) (finalizers ob)\<rparr>)"
proof (induction fs arbitrary: ob)
  case (Cons f fs)
  have "filter (\<lambda>x. x \<notin> set fs) (filter (\<lambda>x. x \<noteq> f) xs) = filter (\<lambda>x. x \<notin> set (f # fs)) xs" for xs
    by (induction xs) auto
  with Cons show ?case by (auto simp: finalizer_laws_def)
qed simp

text \<open>The finalizers a subroutine asks for do not depend on those the object has.\<close>

definition own_finalizers :: "('p, 'w) subroutine list \<Rightarrow> bool" where
  "own_finalizers subs \<longleftrightarrow> (\<forall>s \<in> set subs. \<forall>i fs. Finalizers s (i\<lparr>finalizers := fs\<rparr>) = Finalizers s i)"

definition all_finalizers :: "('p, 'w) subroutine list \<Rightarrow> 'p object \<Rightarrow> string list" where
  "all_finalizers subs i = concat (map (\<lambda>s. Finalizers s i) subs)"

lemma all_finalizers_simps [simp]:
  "all_finalizers [] i = []" "all_finalizers (s # ss) i = Finalizers s i @ all_finalizers ss i"
  by (simp_all add: all_finalizers_def)

lemma all_finalizers_own:
  "own_finalizers ss \<Longrightarrow> all_finalizers ss (i\<lparr>finalizers := fs\<rparr>) = all_finalizers ss i"
  by (induction ss) (simp_all add: own_finalizers_def)

lemma add_all_finalizers_spec:
  assumes "finalizer_laws L"
  shows "own_finalizers subs \<Longrightarrow> add_all_finalizers L subs i =
    (\<not> set (all_finalizers subs i) \<subseteq> set (finalizers i),
     i\<lparr>finalizers := add_missing (all_finalizers subs i) (finalizers i)\<rparr>)"
proof (induction subs arbitrary: i)
  case (Cons s ss)
  from Cons.prems have own: "own_finalizers ss" by (simp add: own_finalizers_def)
  show ?case
    by (cases "Finalizers s i = []")
      (auto simp: AddFinalizerIfNeeded_def add_finalizers_spec [OF assms] Cons.IH [OF own] all_finalizers_own [OF own])
qed simp

text \<open>
  C14.  Finalizers are set before any work: on an object not being deleted, outside read-only mode,
  \<open>AddFinalizersIfNeeded\<close> leaves the object and the server alone when every finalizer of every
  subroutine is present, and otherwise sends one patch with the present ones first, the missing ones
  appended once each in the order of the subroutines.
\<close>

theorem AddFinalizersIfNeeded_spec:
  assumes "finalizer_laws L" and "own_finalizers subs"
    and "time_is_zero (deletionTimestamp i)"
    and "AddFinalizersIfNeeded cl L i subs False st = (e, i', st')"
  shows "if set (all_finalizers subs i) \<subseteq> set (finalizers i)
    then e = None \<and> i' = i \<and> st' = st
    else \<exists>fs. trace st' = trace st @ [EvPatch fs] \<and>
      set fs = set (finalizers i) \<union> set (all_finalizers subs i) \<and> prefix (finalizers i) fs \<and>
      (distinct (finalizers i) \<longrightarrow> distinct fs)"
proof (cases "set (all_finalizers subs i) \<subseteq> set (finalizers i)")
  case True
  then show ?thesis using assms
    by (simp add: AddFinalizersIfNeeded_def add_all_finalizers_spec add_missing_id)
next
  case False
  then have "do_Patch cl (i\<lparr>finalizers := add_missing (all_finalizers subs i) (finalizers i)\<rparr>) i st = (e, i', st')"
    using assms by (simp add: AddFinalizersIfNeeded_def add_all_finalizers_spec)
  from do_trace(2) [OF this] False show ?thesis
    by (auto simp: prefix_add_missing distinct_add_missing)
qed

theorem AddFinalizersIfNeeded_spec_witness:
  "\<exists>fs. [EvPatch [''x'', ''y'']] = [EvPatch fs] \<and> set fs = {''x'', ''y''}"
proof -
  let ?subs = "[sample_sub ''x'' 0 None, sample_sub ''y'' 0 None] :: (unit, unit) subroutine list"
  have r: "AddFinalizersIfNeeded ok_client ok_library sample_object ?subs False (start ()) =
    (None, sample_object\<lparr>finalizers := [''x'', ''y'']\<rparr>, \<lparr>world = (), trace = [EvPatch [''x'', ''y'']]\<rparr>)"
    by (simp add: lifecycle_defs sample_defs)
  have "own_finalizers ?subs" "time_is_zero (deletionTimestamp sample_object)"
    by (simp_all add: own_finalizers_def sample_sub_def time_is_zero_def sample_object_def)
  from AddFinalizersIfNeeded_spec [OF ok_library_laws this r] show ?thesis
    by (simp add: all_finalizers_def sample_defs)
qed

lemma run_chosen_patch:
  assumes laws: "finalizer_laws L" and rc: "run_chosen cl L l c i s a f st = ((res, err), i1, st1)"
    and ra: "run_action a (GetName s) f c i st = ((r0, e0), j, st0)"
  shows "adds reports st0 st1 \<or>
    a = DoFinalize \<and> e0 = None \<and> \<not> ReadOnly (lc_config l) \<and> RequeueAfter r0 = 0 \<and>
    trace st1 = trace st0 @ [EvPatch (filter (\<lambda>x. x \<notin> set (Finalizers s j)) (finalizers j))]"
proof (cases "a = DoFinalize \<and> e0 = None")
  case False
  then show ?thesis
    using rc ra by (cases a) (auto simp: run_chosen_def report_adds split: if_splits)
next
  case True
  with rc ra have "removeFinalizerIfNeeded cl L j s r0 (ReadOnly (lc_config l)) st0 = (err, i1, st1)"
    by (simp add: run_chosen_def split: prod.splits)
  with True show ?thesis
    by (auto simp: removeFinalizerIfNeeded_def remove_finalizers_spec [OF laws]
        split: if_splits option.splits prod.splits dest!: do_trace(2))
qed

lemma reconcileSubroutine_tail:
  assumes "reconcileSubroutine cl L l log c i s g st = (r, i', st')" and "choose_action L i s = Some (a, f)"
    and "run_chosen cl L l (SetLoggerInContext c (ChildLogger log ''subroutine'' (GetName s))) i s a f st =
      (re, i1, st1)"
  shows "adds reports st1 st'"
  using assms by (cases re) (auto simp: reconcileSubroutine_def report_adds split: option.splits if_splits)

lemma adds_reports_patch:
  "adds reports x y \<Longrightarrow> trace y = trace x @ zs \<Longrightarrow> EvPatch fs \<notin> set zs"
  by (auto simp: adds_def)

text \<open>
  C7.  A finalizer is only given up after its subroutine has finalized: a patch that
  \<open>reconcileSubroutine\<close> sends comes directly after a \<open>Finalize\<close> of this subroutine on an object in
  deletion that returned without error and without a requeue, outside read-only mode, and it drops
  exactly the finalizers of this subroutine.
\<close>

theorem finalizer_removed_after_Finalize:
  assumes "finalizer_laws L"
    and "reconcileSubroutine cl L l log c i s g st = (r, i', st')"
    and "trace st' = trace st @ evs" and "EvPatch fs \<in> set evs"
  shows "deletionTimestamp i \<noteq> None \<and> \<not> ReadOnly (lc_config l) \<and> take 2 evs = [EvSub DoFinalize (GetName s), EvPatch fs] \<and>
    (\<exists>d i1 w1. Finalize s (SetLoggerInContext c (ChildLogger log ''subroutine'' (GetName s))) i (world st) =
        ((\<lparr>RequeueAfter = d\<rparr>, None), i1, w1) \<and> d = 0 \<and>
      fs = filter (\<lambda>f. f \<notin> set (Finalizers s i1)) (finalizers i1))"
proof -
  let ?c = "SetLoggerInContext c (ChildLogger log ''subroutine'' (GetName s))"
  obtain a f where ch: "choose_action L i s = Some (a, f)"
    using assms(2-4) by (cases "choose_action L i s") (auto simp: reconcileSubroutine_def)
  obtain res err i1 st1 where rc: "run_chosen cl L l ?c i s a f st = ((res, err), i1, st1)" by (metis surj_pair)
  obtain r0 e0 j st0 where ra: "run_action a (GetName s) f ?c i st = ((r0, e0), j, st0)" by (metis surj_pair)
  note t0 = run_action_trace [OF ra] and tail = reconcileSubroutine_tail [OF assms(2) ch rc]
  have "\<not> adds reports st0 st1"
  proof
    assume "adds reports st0 st1"
    then have "adds reports st0 st'" using tail by (rule adds_trans)
    then obtain zs where "trace st' = trace st0 @ zs" "EvPatch fs \<notin> set zs"
      using adds_reports_patch unfolding adds_def by blast
    with t0 assms(3) have "evs = EvSub a (GetName s) # zs" by simp
    with assms(4) \<open>EvPatch fs \<notin> set zs\<close> show False by simp
  qed
  with run_chosen_patch [OF assms(1) rc ra] have
    p: "a = DoFinalize" "e0 = None" "\<not> ReadOnly (lc_config l)" "RequeueAfter r0 = 0"
      "trace st1 = trace st0 @ [EvPatch (filter (\<lambda>x. x \<notin> set (Finalizers s j)) (finalizers j))]"
    by simp_all
  from tail obtain zs where zs: "trace st' = trace st1 @ zs" "EvPatch fs \<notin> set zs"
    using adds_reports_patch unfolding adds_def by blast
  from ch p(1) have d: "deletionTimestamp i \<noteq> None" "f = Finalize s"
    by (auto simp: choose_action_def Let_def split: if_splits)
  have ev: "evs = EvSub DoFinalize (GetName s) # EvPatch (filter (\<lambda>x. x \<notin> set (Finalizers s j)) (finalizers j)) # zs"
    using zs(1) p(1,5) t0 assms(3) by simp
  with assms(4) zs(2) have fs: "fs = filter (\<lambda>x. x \<notin> set (Finalizers s j)) (finalizers j)" by simp
  have "Finalize s ?c i (world st) = ((r0, None), j, world st0)"
    using ra p(2) d(2) by (auto simp: run_action_def emit_def split: prod.splits)
  moreover have "r0 = \<lparr>RequeueAfter = 0\<rparr>" using p(4) by (cases r0) simp
  moreover have "take 2 evs = [EvSub DoFinalize (GetName s), EvPatch fs]" using ev fs by simp
  ultimately show ?thesis using fs d(1) p(3) by blast
qed

theorem finalizer_removed_after_Finalize_witness:
  "\<exists>d. d = 0 \<and> take 2 [EvSub DoFinalize ''x'', EvPatch [''y'']] = [EvSub DoFinalize ''x'', EvPatch [''y'']] \<and>
     [''y''] = filter (\<lambda>f. f \<notin> set [''x'']) [''x'', ''y'']"
proof -
  have r: "reconcileSubroutine ok_client ok_library (sample_lifecycle [] False) \<lparr>log_level = 0, log_fields = []\<rparr>
      Map.empty deleted_object (sample_sub ''x'' 0 None) True (start ()) =
    ((\<lparr>RequeueAfter = 0\<rparr>, False, None), deleted_object\<lparr>finalizers := [''y'']\<rparr>,
     \<lparr>world = (), trace = [EvSub DoFinalize ''x'', EvPatch [''y'']]\<rparr>)"
    by (simp add: lifecycle_defs sample_defs deleted_object_def)
  from finalizer_removed_after_Finalize [OF ok_library_laws r, of "[EvSub DoFinalize ''x'', EvPatch [''y'']]" "[''y'']"]
  show ?thesis by (auto simp: sample_defs)
qed

section \<open>Terminators and initializers\<close>

text \<open>
  The unstructured conversion as documented: an object and its unstructured form hold the same
  lists at \<open>status.terminators\<close> and \<open>status.initializers\<close>, where an empty one may be left out, and a
  changed list is what the conversion back puts into the object.
\<close>

definition nested_slice :: "('p, 'u) library \<Rightarrow> 'u \<Rightarrow> string list \<Rightarrow> string list \<Rightarrow> bool" where
  "nested_slice L u path xs \<longleftrightarrow>
     NestedStringSlice L u path = Inr (Some xs) \<or> xs = [] \<and> NestedStringSlice L u path = Inr None"

definition terminator_laws :: "('p, 'u) library \<Rightarrow> bool" where
  "terminator_laws L \<longleftrightarrow>
     (\<forall>i. \<exists>u. ToUnstructured L i = Inr u \<and>
        nested_slice L u [''status'', ''terminators''] (terminators i) \<and>
        (\<forall>xs. \<exists>u'. SetNestedStringSlice L u xs [''status'', ''terminators''] = Inr u' \<and>
                   FromUnstructured L u' i = Inr (i\<lparr>terminators := xs\<rparr>)))"

text \<open>
  Removing a terminator: when it is in the list, one status patch is sent whose list has it
  dropped wherever it occurred and keeps the others in order; when it is absent, nothing is sent.
\<close>

theorem removeTerminator_spec:
  assumes "terminator_laws L" and "t \<noteq> []" and "removeTerminator i cl L t st = (e, i', st')"
  shows "if t \<in> set (terminators i)
    then trace st' = trace st @ [EvStatusPatch (filter (\<lambda>x. x \<noteq> t) (terminators i)) (initializers i)]
    else e = None \<and> i' = i \<and> st' = st"
proof -
  from assms(1) obtain u where u: "ToUnstructured L i = Inr u"
    "nested_slice L u [''status'', ''terminators''] (terminators i)"
    and set: "\<And>xs. \<exists>u'. SetNestedStringSlice L u xs [''status'', ''terminators''] = Inr u' \<and>
                   FromUnstructured L u' i = Inr (i\<lparr>terminators := xs\<rparr>)"
    unfolding terminator_laws_def by blast
  let ?new = "filter (\<lambda>x. x \<noteq> t) (terminators i)"
  show ?thesis
  proof (cases "t \<in> set (terminators i)")
    case True
    from set [of ?new] obtain u' where u': "SetNestedStringSlice L u ?new [''status'', ''terminators''] = Inr u'"
      "FromUnstructured L u' i = Inr (i\<lparr>terminators := ?new\<rparr>)" by blast
    have len: "length ?new < length (terminators i)"
      using True by (intro length_filter_less [of t]) auto
    obtain x j s1 where p: "do_StatusPatch cl (i\<lparr>terminators := ?new\<rparr>) i st = (x, j, s1)" by (metis surj_pair)
    have "terminators i \<noteq> []" "length ?new \<noteq> length (terminators i)" using True len by auto
    then have "removeTerminator i cl L t st = (case (x, j, s1) of
        (Some e, k, s) \<Rightarrow> (Some (WrapError ''failed to patch instance status'' e), k, s) | (None, k, s) \<Rightarrow> (None, k, s))"
      using assms(2) u u' p by (simp add: removeTerminator_def removeStatusEntry_def nested_slice_def Let_def)
    with assms(3) have "st' = s1" by (cases x) simp_all
    with True do_trace(4) [OF p] show ?thesis by simp
  next
    case False
    then have "?new = terminators i" by (simp add: filter_id_conv) metis
    with False assms(2,3) u show ?thesis
      by (auto simp: removeTerminator_def removeStatusEntry_def nested_slice_def Let_def split: if_splits)
  qed
qed

lemma ok_library_terminators: "terminator_laws ok_library"
  by (simp add: terminator_laws_def nested_slice_def ok_library_def)

theorem removeTerminator_spec_witness:
  "trace (snd (snd (removeTerminator (sample_object\<lparr>terminators := [''a'', ''t'', ''b'', ''t'']\<rparr>)
     ok_client ok_library ''t'' (start ())))) = [EvStatusPatch [''a'', ''b''] []]"
proof -
  let ?i = "sample_object\<lparr>terminators := [''a'', ''t'', ''b'', ''t'']\<rparr>"
  obtain e i' st' where r: "removeTerminator ?i ok_client ok_library ''t'' (start ()) = (e, i', st')"
    by (metis surj_pair)
  from removeTerminator_spec [OF ok_library_terminators _ r] r show ?thesis by (simp add: sample_defs)
qed

section \<open>Early exits and error paths\<close>

lemma spread_skip_run:
  assumes "lc_spreader l = Some (NewSpreader S)" and "has_spread_status T"
    and "cl_Get cl nn inst (world st) = (None, inst1, w1)" and "deletionTimestamp inst1 = None"
    and "generation inst1 = observedGeneration inst1" and "labels inst1 ReconcileRefreshLabel = None"
    and "Now S w1 = (now, w2)" and "now \<le> nextReconcileTime inst1" and "Now S w2 = (now', w3)"
  shows "Reconcile cl L T l rid cluster c nn inst st =
    Some ((\<lparr>RequeueAfter = time_sub (nextReconcileTime inst1) now'\<rparr>, None), inst1,
      \<lparr>world = w3, trace = trace st @ [EvGet]\<rparr>)"
  using assms
  by (cases st; cases cluster)
    (simp_all add: Reconcile_def do_Get_def emit_def reconcile_found_def spread_check_def time_is_zero_def
      ReconcileRequired_impl_def OnNextReconcile_impl_def)

text \<open>
  C28.  A spread reconciliation does nothing but read: when the spreader does not require one and the
  object is not being deleted, \<open>Reconcile\<close> only gets the object and returns what remains of its
  interval as the requeue delay, without an error.
\<close>

theorem Reconcile_spread_skip:
  assumes "lc_spreader l = Some (NewSpreader S)" and "has_spread_status T"
    and "cl_Get cl nn inst (world st) = (None, inst1, w1)" and "deletionTimestamp inst1 = None"
    and "generation inst1 = observedGeneration inst1" and "labels inst1 ReconcileRefreshLabel = None"
    and "Now S w1 = (now, w2)" and "now \<le> nextReconcileTime inst1" and "Now S w2 = (now', w3)"
  shows "Reconcile cl L T l rid cluster c nn inst st =
    Some ((\<lparr>RequeueAfter = time_sub (nextReconcileTime inst1) now'\<rparr>, None), inst1,
      \<lparr>world = w3, trace = trace st @ [EvGet]\<rparr>)"
  using assms by (rule spread_skip_run)

theorem Reconcile_spread_skip_witness:
  "Reconcile ok_client ok_library sample_type spread_lifecycle ''r'' None Map.empty request
     (sample_object\<lparr>observedGeneration := 1, nextReconcileTime := Hour\<rparr>) (start 0) =
   Some ((\<lparr>RequeueAfter = Hour\<rparr>, None), sample_object\<lparr>observedGeneration := 1, nextReconcileTime := Hour\<rparr>,
     \<lparr>world = 0, trace = [EvGet]\<rparr>)"
proof -
  let ?o = "sample_object\<lparr>observedGeneration := 1, nextReconcileTime := Hour\<rparr>"
  have "cl_Get ok_client request ?o (world (start 0)) = (None, ?o, 0)"
    and "lc_spreader spread_lifecycle = Some (NewSpreader example_std)"
    and "Now example_std 0 = (0, 0)"
    by (simp_all add: ok_client_def start_def spread_lifecycle_def sample_lifecycle_def example_std_def)
  from Reconcile_spread_skip [OF this(2) _ this(1) _ _ _ this(3) _ this(3),
      where T = sample_type and L = ok_library and rid = "''r''" and cluster = None and c = Map.empty]
  show ?thesis by (simp add: sample_object_def sample_type_def start_def time_sub_def)
qed

text \<open>
  A failed get: an object that is not found ends the reconciliation without result and error;
  any other error is returned and reported to Sentry once.  Neither runs a subroutine or writes.
\<close>

theorem Reconcile_get_error:
  assumes "cl_Get cl nn inst (world st) = (Some err, inst1, w1)"
  shows "Reconcile cl L T l rid cluster c nn inst st =
    Some ((\<lparr>RequeueAfter = 0\<rparr>, if IsNotFound L err then None else Some err), inst1,
      \<lparr>world = w1, trace = trace st @ EvGet # (if IsNotFound L err then [] else [EvSentry err])\<rparr>)"
  using assms
  by (cases st; cases cluster) (simp_all add: Reconcile_def do_Get_def emit_def HandleClientError_def capture_def)

theorem Reconcile_get_error_witness:
  "Reconcile (ok_client\<lparr>cl_Get := \<lambda>n ob w. (Some (Foreign 404 ''not found''), ob, w)\<rparr>) ok_library sample_type
     (sample_lifecycle failing_subs False) ''r'' None Map.empty request sample_object (start ()) =
   Some ((\<lparr>RequeueAfter = 0\<rparr>, None), sample_object, \<lparr>world = (), trace = [EvGet]\<rparr>)"
  by (subst Reconcile_get_error [where err = "Foreign 404 ''not found''" and ?inst1.0 = sample_object and ?w1.0 = "()"])
    (simp_all add: ok_library_def start_def)

text \<open>
  A failed removal of the refresh label is swallowed: when the patch that writes the object
  back fails, the error is neither returned nor reported, and the requeue delay computed by the
  subroutines is dropped: the reconciliation returns an empty result.
\<close>

theorem refresh_label_error_swallowed:
  assumes "lc_spreader l = Some (NewSpreader S)" and "deletionTimestamp inst = None"
    and "labels inst ReconcileRefreshLabel \<noteq> None"
    and "cl_Patch cl (inst\<lparr>labels := (labels inst)(ReconcileRefreshLabel := None)\<rparr>) inst (world st) =
      (Some updateErr, inst1, w1)"
  shows "drop_refresh_label cl l result inst st =
    ((\<lparr>RequeueAfter = 0\<rparr>, None), inst1,
     \<lparr>world = w1, trace = trace st @ [EvPatch (finalizers inst)]\<rparr>)"
  using assms
  by (cases st) (auto simp: drop_refresh_label_def RemoveRefreshLabelIfExists_impl_def time_is_zero_def do_Patch_def
      HandleClientError_def emit_def)

theorem refresh_label_error_swallowed_witness:
  "drop_refresh_label (ok_client\<lparr>cl_Patch := \<lambda>ob orig w. (Some (Foreign 500 ''server error''), ob, w)\<rparr>)
     spread_lifecycle \<lparr>RequeueAfter = Minute\<rparr>
     (sample_object\<lparr>labels := [ReconcileRefreshLabel \<mapsto> ''true'']\<rparr>) (start 0) =
   ((\<lparr>RequeueAfter = 0\<rparr>, None), sample_object, \<lparr>world = 0, trace = [EvPatch []]\<rparr>)"
  by (subst refresh_label_error_swallowed [where S = example_std and updateErr = "Foreign 500 ''server error''"
        and ?inst1.0 = sample_object and ?w1.0 = 0])
    (simp_all add: spread_lifecycle_def sample_defs)

text \<open>
  C27.  Reports of a failed subroutine: a \<open>Process\<close> whose error asks for it is reported to Sentry
  once, a \<open>Terminate\<close> or \<open>Initialize\<close> twice, with the same error.
\<close>

theorem subroutine_error_reports:
  assumes "choose_action L i s = Some (a, f)" and "a \<noteq> DoFinalize"
    and "f (SetLoggerInContext c (ChildLogger log ''subroutine'' (GetName s))) i (world st) = ((r, Some p), i1, w1)"
    and "Err p = Some e" and "Sentry p"
  shows "reconcileSubroutine cl L l log c i s True st =
    ((r, Retry p, Some e), i1,
     \<lparr>world = w1, trace = trace st @ EvSub a (GetName s) # (if a = DoProcess then [EvSentry e] else [EvSentry e, EvSentry e])\<rparr>)"
  using assms
  by (cases st; cases a) (simp_all add: reconcileSubroutine_def run_chosen_def run_action_def report_def emit_def)

definition failing_initializer :: "(unit, unit) subroutine" where
  "failing_initializer = (sample_sub ''init'' 0 None)
     \<lparr>Initialize := Some (\<lambda>c i w. ((\<lparr>RequeueAfter = 0\<rparr>, NewOperatorError (Some (ErrorString ''boom'')) True True), i, w))\<rparr>"

theorem subroutine_error_reports_witness:
  "reconcileSubroutine ok_client ok_library (sample_lifecycle [] False) \<lparr>log_level = 0, log_fields = []\<rparr>
     Map.empty sample_object failing_initializer True (start ()) =
   ((\<lparr>RequeueAfter = 0\<rparr>, True, Some (ErrorString ''boom'')), sample_object,
    \<lparr>world = (), trace = [EvSub DoInitialize ''init'', EvSentry (ErrorString ''boom''), EvSentry (ErrorString ''boom'')]\<rparr>)"
  by (subst subroutine_error_reports [where a = DoInitialize and ?i1.0 = sample_object and ?w1.0 = "()"
        and e = "ErrorString ''boom''" and r = "\<lparr>RequeueAfter = 0\<rparr>"
        and f = "the (Initialize failing_initializer)"
        and p = "the (NewOperatorError (Some (ErrorString ''boom'')) True True)"])
    (simp_all add: failing_initializer_def sample_defs choose_action_def NewOperatorError_def Err_def Sentry_def Retry_def)

end
