(* ===== verification/Api_Server.thy ===== *)
theory Api_Server
  imports Lifecycle_Paths
begin

text \<open>
  The API server as documented, for an object kind with the status subresource and without a concurrent
  writer: what it stores and answers for the four requests of the lifecycle.  \<open>stored\<close> reads from the world
  the object of the request, \<open>None\<close> once it is gone, and \<open>clk\<close> the time.  The laws are those of
  \<open>client.Client\<close> and of the API conventions; the section on a concrete server has an instance.
\<close>

section \<open>Answers\<close>

text \<open>\<open>metav1.Time\<close> is sent in whole seconds.\<close>

definition seconds :: "gotime \<Rightarrow> gotime" where
  "seconds t = t div Second * Second"

lemma seconds_bounds: "seconds t \<le> t" "t < seconds t + Second"
proof -
  have "t = seconds t + t mod Second" by (simp add: seconds_def)
  moreover have "0 \<le> t mod Second" "t mod Second < Second" by simp_all
  ultimately show "seconds t \<le> t" "t < seconds t + Second" by linarith+
qed

lemma seconds_idem [simp]: "seconds (seconds t) = seconds t"
  by (simp add: seconds_def)

definition stored_condition :: "condition \<Rightarrow> condition" where
  "stored_condition c = c\<lparr>cond_transition := seconds (cond_transition c)\<rparr>"

text \<open>
  An answer is decoded into the object in memory.  A field with the zero value may be left out of the
  answer, and then the object in memory keeps what it had.
\<close>

definition or_kept :: "'a \<Rightarrow> 'a \<Rightarrow> 'a \<Rightarrow> 'a \<Rightarrow> bool" where
  "or_kept zero sent had now \<longleftrightarrow> now = sent \<or> sent = zero \<and> now = had"

lemma or_kept_simps [simp]: "or_kept z x x v \<longleftrightarrow> v = x" "or_kept z x z v \<longleftrightarrow> v = x"
  by (auto simp: or_kept_def)

lemma or_kept_sent: "or_kept z x y x"
  by (simp add: or_kept_def)

definition decoded :: "'p object \<Rightarrow> 'p object \<Rightarrow> 'p object \<Rightarrow> bool" where
  "decoded had a i \<longleftrightarrow>
     or_kept 0 (generation a) (generation had) (generation i) \<and>
     (\<forall>k. or_kept None (labels a k) (labels had k) (labels i k)) \<and>
     or_kept [] (finalizers a) (finalizers had) (finalizers i) \<and>
     or_kept None (deletionTimestamp a) (deletionTimestamp had) (deletionTimestamp i) \<and>
     or_kept [] (conditions a) (conditions had) (conditions i) \<and>
     or_kept 0 (nextReconcileTime a) (nextReconcileTime had) (nextReconcileTime i) \<and>
     or_kept 0 (observedGeneration a) (observedGeneration had) (observedGeneration i) \<and>
     or_kept [] (terminators a) (terminators had) (terminators i) \<and>
     or_kept [] (initializers a) (initializers had) (initializers i)"

text \<open>The empty object a controller hands to \<open>Reconcile\<close>.\<close>

definition blank :: "'p object \<Rightarrow> bool" where
  "blank i \<longleftrightarrow> generation i = 0 \<and> labels i = Map.empty \<and> finalizers i = [] \<and> deletionTimestamp i = None \<and>
     conditions i = [] \<and> nextReconcileTime i = 0 \<and> observedGeneration i = 0 \<and> terminators i = [] \<and> initializers i = []"

definition agree :: "'p object \<Rightarrow> 'p object \<Rightarrow> bool" where
  "agree s i \<longleftrightarrow> generation i = generation s \<and> labels i = labels s \<and> finalizers i = finalizers s \<and>
     deletionTimestamp i = deletionTimestamp s \<and> initializers i = initializers s"

lemma decoded_blank:
  "decoded had a i \<Longrightarrow> blank had \<Longrightarrow> agree a i \<and> conditions i = conditions a \<and>
    nextReconcileTime i = nextReconcileTime a \<and> observedGeneration i = observedGeneration a \<and> terminators i = terminators a"
  by (auto simp: decoded_def blank_def agree_def)

lemma decoded_self: "decoded had a a"
  by (simp add: decoded_def or_kept_sent)

lemma decoded_same:
  assumes "decoded had a i"
  shows "generation had = generation a \<Longrightarrow> generation i = generation a"
    and "labels had k = labels a k \<Longrightarrow> labels i k = labels a k"
    and "finalizers had = finalizers a \<Longrightarrow> finalizers i = finalizers a"
    and "deletionTimestamp had = deletionTimestamp a \<Longrightarrow> deletionTimestamp i = deletionTimestamp a"
    and "initializers had = initializers a \<Longrightarrow> initializers i = initializers a"
  using assms by (auto simp: decoded_def) (metis or_kept_simps(1))

lemma decoded_agree:
  assumes "decoded had a i" "agree a had"
  shows "agree a i"
  using assms decoded_same [OF assms(1)] by (auto simp: agree_def)

section \<open>Requests\<close>

text \<open>
  A merge patch carries what differs from the original.  Patching the object leaves its status alone, and
  its generation unless the patch changes the rest of the object; writing the status leaves the rest alone.
\<close>

definition merge_object :: "'p object \<Rightarrow> 'p object \<Rightarrow> 'p object \<Rightarrow> 'p object" where
  "merge_object ob orig s = s\<lparr>
     finalizers := (if finalizers ob = finalizers orig then finalizers s else finalizers ob),
     labels := (\<lambda>k. if labels ob k = labels orig k then labels s k else labels ob k)\<rparr>"

definition new_status :: "'p object \<Rightarrow> 'p object \<Rightarrow> 'p object" where
  "new_status ob s = s\<lparr>
     conditions := map stored_condition (conditions ob), nextReconcileTime := seconds (nextReconcileTime ob),
     observedGeneration := observedGeneration ob, terminators := terminators ob, initializers := initializers ob\<rparr>"

definition merge_status :: "'p object \<Rightarrow> 'p object \<Rightarrow> 'p object \<Rightarrow> 'p object" where
  "merge_status ob orig s = s\<lparr>
     conditions := (if conditions ob = conditions orig then conditions s else map stored_condition (conditions ob)),
     nextReconcileTime := (if nextReconcileTime ob = nextReconcileTime orig then nextReconcileTime s
       else seconds (nextReconcileTime ob)),
     observedGeneration := (if observedGeneration ob = observedGeneration orig then observedGeneration s
       else observedGeneration ob),
     terminators := (if terminators ob = terminators orig then terminators s else terminators ob),
     initializers := (if initializers ob = initializers orig then initializers s else initializers ob)\<rparr>"

text \<open>The payload is the rest of the object, status and all, and is left open.\<close>

definition patched :: "'p object \<Rightarrow> 'p object \<Rightarrow> 'p object \<Rightarrow> 'p object \<Rightarrow> bool" where
  "patched ob orig s a \<longleftrightarrow> (\<exists>g p. a = merge_object ob orig s\<lparr>generation := g, payload := p\<rparr> \<and>
     (payload ob = payload orig \<longrightarrow> g = generation s))"

definition status_updated :: "'p object \<Rightarrow> 'p object \<Rightarrow> 'p object \<Rightarrow> bool" where
  "status_updated ob s a \<longleftrightarrow> (\<exists>p. a = new_status ob s\<lparr>payload := p\<rparr>)"

definition status_patched :: "'p object \<Rightarrow> 'p object \<Rightarrow> 'p object \<Rightarrow> 'p object \<Rightarrow> bool" where
  "status_patched ob orig s a \<longleftrightarrow> (\<exists>p. a = merge_status ob orig s\<lparr>payload := p\<rparr>)"

text \<open>An object in deletion is gone with its last finalizer.\<close>

definition kept_object :: "'p object \<Rightarrow> 'p object option" where
  "kept_object a = (if deletionTimestamp a \<noteq> None \<and> finalizers a = [] then None else Some a)"

text \<open>A step that does not touch the object; time passes.\<close>

definition steady :: "('w \<Rightarrow> 'p object option) \<Rightarrow> ('w \<Rightarrow> gotime) \<Rightarrow> 'w \<Rightarrow> 'w \<Rightarrow> bool" where
  "steady stored clk w w1 \<longleftrightarrow> stored w1 = stored w \<and> clk w \<le> clk w1"

definition answered ::
  "('w \<Rightarrow> 'p object option) \<Rightarrow> ('w \<Rightarrow> gotime) \<Rightarrow> 'p object \<Rightarrow> 'p object \<Rightarrow> 'w \<Rightarrow> 'p object \<Rightarrow> 'w \<Rightarrow> bool" where
  "answered stored clk ob a w i w1 \<longleftrightarrow> decoded ob a i \<and> stored w1 = kept_object a \<and> clk w \<le> clk w1"

definition api_server ::
  "('p, 'w) client \<Rightarrow> ('p, 'u) library \<Rightarrow> namespaced_name \<Rightarrow> ('w \<Rightarrow> 'p object option) \<Rightarrow> ('w \<Rightarrow> gotime) \<Rightarrow> bool" where
  "api_server cl L nn stored clk \<longleftrightarrow>
     (\<forall>ob w. case stored w of
        None \<Rightarrow> \<exists>e i w1. cl_Get cl nn ob w = (Some e, i, w1) \<and> IsNotFound L e \<and> steady stored clk w w1
      | Some s \<Rightarrow> \<exists>i w1. cl_Get cl nn ob w = (None, i, w1) \<and> decoded ob s i \<and> steady stored clk w w1) \<and>
     (\<forall>ob orig w s. stored w = Some s \<longrightarrow> (\<exists>i w1 a. cl_Patch cl ob orig w = (None, i, w1) \<and>
        patched ob orig s a \<and> answered stored clk ob a w i w1)) \<and>
     (\<forall>ob w s. stored w = Some s \<longrightarrow> (\<exists>i w1 a. cl_StatusUpdate cl ob w = (None, i, w1) \<and>
        status_updated ob s a \<and> answered stored clk ob a w i w1)) \<and>
     (\<forall>ob orig w s. stored w = Some s \<longrightarrow> (\<exists>i w1 a. cl_StatusPatch cl ob orig w = (None, i, w1) \<and>
        status_patched ob orig s a \<and> answered stored clk ob a w i w1))"

lemma steady_refl [simp]: "steady stored clk w w"
  by (simp add: steady_def)

lemma steady_trans [trans]: "steady stored clk u v \<Longrightarrow> steady stored clk v w \<Longrightarrow> steady stored clk u w"
  by (simp add: steady_def)

lemma server_Get:
  assumes "api_server cl L nn stored clk" "cl_Get cl nn ob w = (None, i, w1)"
  obtains s where "stored w = Some s" "decoded ob s i" "steady stored clk w w1"
proof -
  have "case stored w of
        None \<Rightarrow> \<exists>e i w1. cl_Get cl nn ob w = (Some e, i, w1) \<and> IsNotFound L e \<and> steady stored clk w w1
      | Some s \<Rightarrow> \<exists>i w1. cl_Get cl nn ob w = (None, i, w1) \<and> decoded ob s i \<and> steady stored clk w w1"
    using assms(1) unfolding api_server_def by blast
  with assms(2) that show ?thesis by (auto split: option.splits)
qed

lemma server_found:
  assumes "api_server cl L nn stored clk" "stored w = Some s"
  shows "\<exists>i w1. cl_Get cl nn ob w = (None, i, w1)"
proof -
  have "case stored w of
        None \<Rightarrow> \<exists>e i w1. cl_Get cl nn ob w = (Some e, i, w1) \<and> IsNotFound L e \<and> steady stored clk w w1
      | Some s \<Rightarrow> \<exists>i w1. cl_Get cl nn ob w = (None, i, w1) \<and> decoded ob s i \<and> steady stored clk w w1"
    using assms(1) unfolding api_server_def by blast
  with assms(2) show ?thesis by auto
qed

lemma server_writes:
  assumes "api_server cl L nn stored clk" "stored (world st) = Some s"
  shows "do_Patch cl ob orig st = (e, i, st1) \<Longrightarrow>
      e = None \<and> (\<exists>a. patched ob orig s a \<and> answered stored clk ob a (world st) i (world st1))"
    and "do_StatusUpdate cl ob st = (e, i, st1) \<Longrightarrow>
      e = None \<and> (\<exists>a. status_updated ob s a \<and> answered stored clk ob a (world st) i (world st1))"
    and "do_StatusPatch cl ob orig st = (e, i, st1) \<Longrightarrow>
      e = None \<and> (\<exists>a. status_patched ob orig s a \<and> answered stored clk ob a (world st) i (world st1))"
proof -
  have "\<exists>i w1 a. cl_Patch cl ob orig (world st) = (None, i, w1) \<and>
      patched ob orig s a \<and> answered stored clk ob a (world st) i w1"
    using assms unfolding api_server_def by blast
  then show "do_Patch cl ob orig st = (e, i, st1) \<Longrightarrow>
      e = None \<and> (\<exists>a. patched ob orig s a \<and> answered stored clk ob a (world st) i (world st1))"
    by (fastforce simp: do_Patch_def)
  have "\<exists>i w1 a. cl_StatusUpdate cl ob (world st) = (None, i, w1) \<and>
      status_updated ob s a \<and> answered stored clk ob a (world st) i w1"
    using assms unfolding api_server_def by blast
  then show "do_StatusUpdate cl ob st = (e, i, st1) \<Longrightarrow>
      e = None \<and> (\<exists>a. status_updated ob s a \<and> answered stored clk ob a (world st) i (world st1))"
    by (fastforce simp: do_StatusUpdate_def)
  have "\<exists>i w1 a. cl_StatusPatch cl ob orig (world st) = (None, i, w1) \<and>
      status_patched ob orig s a \<and> answered stored clk ob a (world st) i w1"
    using assms unfolding api_server_def by blast
  then show "do_StatusPatch cl ob orig st = (e, i, st1) \<Longrightarrow>
      e = None \<and> (\<exists>a. status_patched ob orig s a \<and> answered stored clk ob a (world st) i (world st1))"
    by (fastforce simp: do_StatusPatch_def)
qed

section \<open>Conditions and subroutines in between\<close>

text \<open>The condition manager works on the object alone; \<open>R\<close> relates the worlds before and after it.\<close>

definition conditions_within :: "('w \<Rightarrow> 'w \<Rightarrow> bool) \<Rightarrow> ('p, 'w) lifecycle \<Rightarrow> bool" where
  "conditions_within R l \<longleftrightarrow> (case lc_conditions l of None \<Rightarrow> True | Some cm \<Rightarrow>
     (\<forall>cs g w b cs1 w1. SetInstanceConditionUnknownIfNotSet cm cs g w = (b, cs1, w1) \<longrightarrow> R w w1) \<and>
     (\<forall>cs g n d w b cs1 w1. SetSubroutineConditionToUnknownIfNotSet cm cs g n d w = (b, cs1, w1) \<longrightarrow> R w w1) \<and>
     (\<forall>cs g n r e d w b cs1 w1. SetSubroutineCondition cm cs g n r e d w = (b, cs1, w1) \<longrightarrow> R w w1) \<and>
     (\<forall>cs g s w b cs1 w1. SetInstanceConditionReady cm cs g s w = (b, cs1, w1) \<longrightarrow> R w w1))"

lemma conditions_withinD:
  assumes "conditions_within R l" "lc_conditions l = Some cm"
  shows "SetInstanceConditionUnknownIfNotSet cm cs g w = (b, cs1, w1) \<Longrightarrow> R w w1"
    and "SetSubroutineConditionToUnknownIfNotSet cm cs g n d w = (b, cs1, w1) \<Longrightarrow> R w w1"
    and "SetSubroutineCondition cm cs g n r e d w = (b, cs1, w1) \<Longrightarrow> R w w1"
    and "SetInstanceConditionReady cm cs g s w = (b, cs1, w1) \<Longrightarrow> R w w1"
  using assms unfolding conditions_within_def by simp_all

lemma within_conditions:
  assumes "conditions_within R l" and "reflp R" and "transp R"
  shows "begin_conditions T l d n cs i st = Some (cs1, i1, st1) \<Longrightarrow> R (world st) (world st1)"
    and "done_conditions l d n sr cs i st = (cs1, i1, st1) \<Longrightarrow> R (world st) (world st1)"
    and "fail_conditions T l d n r e cs i st = Some (cs1, i1, st1) \<Longrightarrow> R (world st) (world st1)"
    and "init_conditions T l i st = Some (cs1, i1, st1) \<Longrightarrow> R (world st) (world st1)"
    and "lc_spreader l = None \<or> \<not> time_is_zero (deletionTimestamp i) \<Longrightarrow>
      mark_end T l r cs i st = Some (cs1, i1, st1) \<Longrightarrow> R (world st) (world st1)"
proof -
  note D = conditions_withinD [OF assms(1)] and refl = reflpD [OF assms(2)] and trans = transpD [OF assms(3)]
  show "begin_conditions T l d n cs i st = Some (cs1, i1, st1) \<Longrightarrow> R (world st) (world st1)"
    by (auto simp: begin_conditions_def Let_def refl dest: D(2) split: option.splits prod.splits Option.bind_splits)
  show "done_conditions l d n sr cs i st = (cs1, i1, st1) \<Longrightarrow> R (world st) (world st1)"
    by (auto simp: done_conditions_def Let_def refl dest: D(3) split: option.splits prod.splits if_splits)
  show "fail_conditions T l d n r e cs i st = Some (cs1, i1, st1) \<Longrightarrow> R (world st) (world st1)"
    by (auto simp: fail_conditions_def Let_def refl split: option.splits prod.splits Option.bind_splits)
      (metis D(3,4) trans)
  show "init_conditions T l i st = Some (cs1, i1, st1) \<Longrightarrow> R (world st) (world st1)"
    by (auto simp: init_conditions_def Let_def refl dest: D(1) split: option.splits prod.splits Option.bind_splits)
  show "lc_spreader l = None \<or> \<not> time_is_zero (deletionTimestamp i) \<Longrightarrow>
      mark_end T l r cs i st = Some (cs1, i1, st1) \<Longrightarrow> R (world st) (world st1)"
    by (auto simp: mark_end_def MarkResourceAsFinal_def Let_def refl dest: D(4)
        split: option.splits prod.splits Option.bind_splits if_splits)
qed

lemma steady_order: "reflp (steady stored clk)" "transp (steady stored clk)"
  by (auto intro!: reflpI transpI simp: steady_def)

lemmas steady_conditions =
  within_conditions(1,2,4,5) [OF _ steady_order]

text \<open>What the functions that set conditions leave alone in the object.\<close>

lemma conditions_only:
  "begin_conditions T l d n cs i st = Some (cs1, i1, st1) \<Longrightarrow> \<exists>ds. i1 = i\<lparr>conditions := ds\<rparr>"
  "done_conditions l d n sr cs i st = (cs1, i1, st1) \<Longrightarrow> \<exists>ds. i1 = i\<lparr>conditions := ds\<rparr>"
  "init_conditions T l i st = Some (cs1, i1, st1) \<Longrightarrow> \<exists>ds. i1 = i\<lparr>conditions := ds\<rparr>"
proof -
  have id: "\<exists>ds. i = i\<lparr>conditions := ds\<rparr>" by (rule exI [of _ "conditions i"]) simp
  show "begin_conditions T l d n cs i st = Some (cs1, i1, st1) \<Longrightarrow> \<exists>ds. i1 = i\<lparr>conditions := ds\<rparr>"
    using id by (auto simp: begin_conditions_def set_conditions_def Let_def
        split: option.splits prod.splits Option.bind_splits if_splits)
  show "done_conditions l d n sr cs i st = (cs1, i1, st1) \<Longrightarrow> \<exists>ds. i1 = i\<lparr>conditions := ds\<rparr>"
    using id by (auto simp: done_conditions_def write_through_def Let_def split: option.splits prod.splits if_splits)
  show "init_conditions T l i st = Some (cs1, i1, st1) \<Longrightarrow> \<exists>ds. i1 = i\<lparr>conditions := ds\<rparr>"
    using id by (auto simp: init_conditions_def write_through_def Let_def
        split: option.splits prod.splits Option.bind_splits)
qed

text \<open>
  An action that is done at once: it succeeds without asking for a requeue, does not write the object to
  the server, and leaves the deletion timestamp and the part \<open>k\<close> of the object alone.
\<close>

definition completes ::
  "('p object \<Rightarrow> 'k) \<Rightarrow> ('w \<Rightarrow> 'p object option) \<Rightarrow> ('w \<Rightarrow> gotime) \<Rightarrow> ('p, 'w) action \<Rightarrow> bool" where
  "completes k stored clk f \<longleftrightarrow> (\<forall>c i w. \<exists>i1 w1. f c i w = ((\<lparr>RequeueAfter = 0\<rparr>, None), i1, w1) \<and>
     deletionTimestamp i1 = deletionTimestamp i \<and> k i1 = k i \<and> steady stored clk w w1)"

definition done_at_once ::
  "('p object \<Rightarrow> 'k) \<Rightarrow> ('w \<Rightarrow> 'p object option) \<Rightarrow> ('w \<Rightarrow> gotime) \<Rightarrow> ('p, 'w) subroutine \<Rightarrow> bool" where
  "done_at_once k stored clk s \<longleftrightarrow> completes k stored clk (Process s) \<and>
     (case Initialize s of None \<Rightarrow> True | Some f \<Rightarrow> completes k stored clk f)"

lemma done_one:
  assumes "done_at_once k stored clk s" and "deletionTimestamp i = None"
    and "reconcileSubroutine cl L l log c i s g st = ((r, retry, e), i1, st1)"
  shows "e = None \<and> r = \<lparr>RequeueAfter = 0\<rparr> \<and> deletionTimestamp i1 = None \<and> k i1 = k i \<and>
    steady stored clk (world st) (world st1)"
proof -
  let ?c = "SetLoggerInContext c (ChildLogger log ''subroutine'' (GetName s))"
  obtain a f where af: "choose_action L i s = Some (a, f)" "a = DoProcess \<or> a = DoInitialize" "completes k stored clk f"
    using assms(1,2) by (cases "Initialize s") (auto simp: choose_action_def done_at_once_def)
  obtain j w where "f ?c i (world st) = ((\<lparr>RequeueAfter = 0\<rparr>, None), j, w)"
    "deletionTimestamp j = deletionTimestamp i" "k j = k i" "steady stored clk (world st) w"
    using af(3) unfolding completes_def by metis
  then show ?thesis using assms(2,3) af
    by (auto simp: reconcileSubroutine_def run_chosen_def run_action_def report_def Let_def)
qed

lemma merge_requeue_0 [simp]: "merge_requeue r \<lparr>RequeueAfter = 0\<rparr> = r"
  by (simp add: merge_requeue_def)

lemma done_all:
  assumes k: "\<And>i cs. k (i\<lparr>conditions := cs\<rparr>) = k i" and l: "conditions_within (steady stored clk) l"
  shows "\<forall>s \<in> set ss. done_at_once k stored clk s \<Longrightarrow> deletionTimestamp i = None \<Longrightarrow>
    process_subs cl L T l log c orig del ss r cs i st = Some out \<Longrightarrow>
    \<exists>cs1 i1 st1. out = LoopDone r cs1 i1 st1 \<and> deletionTimestamp i1 = None \<and> k i1 = k i \<and>
      steady stored clk (world st) (world st1)"
proof (induction ss arbitrary: r cs i st)
  case Nil
  then show ?case by auto
next
  case (Cons s ss)
  have s: "done_at_once k stored clk s" using Cons.prems(1) by simp
  note sc = steady_conditions [OF l]
  from Cons.prems(3) show ?case
  proof (cases rule: process_subs_ConsE)
    case (failed cs1 i1 st1 sr retry e i2 st2 cs2)
    have "deletionTimestamp i1 = None" using Cons.prems(2) begin_conditions_frame [OF failed(1)] by simp
    from done_one [OF s this failed(2)] show ?thesis by simp
  next
    case (cont cs1 i1 st1 sr retry i2 st2 cs2 cs3 i3 st3)
    have "deletionTimestamp i1 = None" "k i1 = k i"
      using Cons.prems(2) conditions_only(1) [OF cont(1)] k by auto
    from done_one [OF s this(1) cont(2)] this(2) have "sr = \<lparr>RequeueAfter = 0\<rparr>" "deletionTimestamp i3 = None"
      "k i3 = k i" "steady stored clk (world st1) (world st2)"
      using conditions_only(2) [OF cont(4)] k by auto
    with Cons.IH [of i3, OF _ _ cont(5)] Cons.prems(1) obtain cs4 i4 st4 where
      "out = LoopDone r cs4 i4 st4" "deletionTimestamp i4 = None" "k i4 = k i" "steady stored clk (world st3) (world st4)"
      by auto
    moreover have "steady stored clk (world st) (world st4)"
      using sc(1) [OF cont(1)] \<open>steady stored clk (world st1) (world st2)\<close> sc(2) [OF cont(4)]
        \<open>steady stored clk (world st3) (world st4)\<close> by (blast intro: steady_trans)
    ultimately show ?thesis by blast
  qed
qed

text \<open>
  Up to the subroutines, for an object that is not in deletion and that the spreader lets through: the
  object in memory is still that of the server.
\<close>

lemma found_alive:
  assumes "reconcile_found cl L T l log c i st = Some (ret, i1, st1)"
    and "api_server cl L nn stored clk" "finalizer_laws L" "own_finalizers (lc_subroutines l)"
    and "deletionTimestamp i = None" "lc_prepare l = None" "conditions_within (steady stored clk) l"
    and "spread_check T l i st = Some (None, sta)" "steady stored clk (world st) (world sta)"
    and "stored (world st) = Some s" "agree s i"
  obtains cs j st2 s2 where "run_subroutines cl L T l log c i cs j st2 = Some (ret, i1, st1)"
    "stored (world st2) = Some s2" "agree s2 j" "clk (world st) \<le> clk (world st2)"
    "generation j = generation i" "labels j = labels i" "initializers j = initializers i" "deletionTimestamp j = None"
    "nextReconcileTime s2 = nextReconcileTime s" "observedGeneration s2 = observedGeneration s"
proof -
  have sta: "stored (world sta) = Some s" "clk (world st) \<le> clk (world sta)"
    using assms(9,10) by (simp_all add: steady_def)
  obtain e2 i2 stb where af: "AddFinalizersIfNeeded cl L i (lc_subroutines l) (ReadOnly (lc_config l)) sta = (e2, i2, stb)"
    by (metis surj_pair)
  have 2: "e2 = None \<and> (\<exists>s2. stored (world stb) = Some s2 \<and> agree s2 i2 \<and> nextReconcileTime s2 = nextReconcileTime s \<and>
      observedGeneration s2 = observedGeneration s) \<and> clk (world sta) \<le> clk (world stb) \<and> generation i2 = generation i \<and>
      labels i2 = labels i \<and> initializers i2 = initializers i \<and> deletionTimestamp i2 = None"
  proof (cases "ReadOnly (lc_config l) \<or> set (all_finalizers (lc_subroutines l) i) \<subseteq> set (finalizers i)")
    case True
    with af assms(5,11) sta show ?thesis
      by (auto simp: AddFinalizersIfNeeded_def add_all_finalizers_spec [OF assms(3,4)] add_missing_id time_is_zero_def
          split: if_splits)
  next
    case False
    let ?fs = "add_missing (all_finalizers (lc_subroutines l) i) (finalizers i)"
    let ?ob = "i\<lparr>finalizers := ?fs\<rparr>"
    have ne: "?fs \<noteq> finalizers i"
    proof
      assume "?fs = finalizers i"
      then have "set ?fs = set (finalizers i)" by (rule arg_cong)
      with False show False by auto
    qed
    have "do_Patch cl ?ob i sta = (e2, i2, stb)" using af False assms(5)
      by (simp add: AddFinalizersIfNeeded_def add_all_finalizers_spec [OF assms(3,4)] time_is_zero_def)
    from server_writes(1) [OF assms(2) sta(1) this] obtain a where a: "e2 = None" "patched ?ob i s a"
      "answered stored clk ?ob a (world sta) i2 (world stb)" by blast
    from a(2) ne obtain p where p: "a = s\<lparr>finalizers := ?fs, payload := p\<rparr>"
      by (auto simp: patched_def merge_object_def)
    with assms(5,11) have "agree a ?ob" "kept_object a = Some a" by (auto simp: agree_def kept_object_def)
    with a(3) have "agree a i2" "stored (world stb) = Some a" "clk (world sta) \<le> clk (world stb)"
      by (auto simp: answered_def intro: decoded_agree)
    with a(1) p assms(5,11) show ?thesis by (auto simp: agree_def)
  qed
  from assms(1,8) af 2 obtain cs j st3 where ic: "init_conditions T l i2 stb = Some (cs, j, st3)"
    by (auto simp: reconcile_found_def split: Option.bind_splits)
  have "run_subroutines cl L T l log c i cs j st3 = Some (ret, i1, st1)"
    using assms(1,6,8) af 2 ic by (simp add: reconcile_found_def prepare_context_def)
  moreover have "steady stored clk (world stb) (world st3)" using steady_conditions(3) [OF assms(7) ic] .
  moreover obtain ds where "j = i2\<lparr>conditions := ds\<rparr>" using conditions_only(3) [OF ic] by blast
  ultimately show ?thesis using 2 sta(2) that by (auto simp: steady_def agree_def)
qed

section \<open>A concrete server\<close>

text \<open>One object and a clock that stands still between the events of a run.\<close>

type_synonym 'p served = "'p object option \<times> gotime"

definition no_object :: goerror where
  "no_object = Foreign 404 ''not found''"

definition respond :: "('p object \<Rightarrow> 'p object) \<Rightarrow> 'p object \<Rightarrow> 'p served \<Rightarrow> goerror option \<times> 'p object \<times> 'p served" where
  "respond f ob w = (case fst w of
     None \<Rightarrow> (Some no_object, ob, w) | Some s \<Rightarrow> (None, f s, (kept_object (f s), snd w)))"

definition served_client :: "('p, 'p served) client" where
  "served_client = \<lparr>
     cl_Get = (\<lambda>n ob w. case fst w of None \<Rightarrow> (Some no_object, ob, w) | Some s \<Rightarrow> (None, s, w)),
     cl_Patch = (\<lambda>ob orig. respond (merge_object ob orig) ob),
     cl_StatusUpdate = (\<lambda>ob. respond (new_status ob) ob),
     cl_StatusPatch = (\<lambda>ob orig. respond (merge_status ob orig) ob)\<rparr>"

lemma answered_respond: "answered fst snd ob a w a (kept_object a, snd w)"
  by (simp add: answered_def decoded_self)

lemma merges_allowed:
  "patched ob orig s (merge_object ob orig s)" "status_updated ob s (new_status ob s)"
  "status_patched ob orig s (merge_status ob orig s)"
proof -
  show "patched ob orig s (merge_object ob orig s)" unfolding patched_def
    by (intro exI [of _ "generation s"] exI [of _ "payload s"]) (simp add: merge_object_def)
  show "status_updated ob s (new_status ob s)" unfolding status_updated_def
    by (intro exI [of _ "payload s"]) (simp add: new_status_def)
  show "status_patched ob orig s (merge_status ob orig s)" unfolding status_patched_def
    by (intro exI [of _ "payload s"]) (simp add: merge_status_def)
qed

lemma served_client_server: "api_server served_client ok_library nn fst snd"
  unfolding api_server_def
proof (intro conjI allI impI)
  show "case fst w of
        None \<Rightarrow> \<exists>e i w1. cl_Get served_client nn ob w = (Some e, i, w1) \<and> IsNotFound ok_library e \<and> steady fst snd w w1
      | Some s \<Rightarrow> \<exists>i w1. cl_Get served_client nn ob w = (None, i, w1) \<and> decoded ob s i \<and> steady fst snd w w1"
    for ob :: "'p object" and w
    by (simp add: served_client_def ok_library_def no_object_def decoded_self split: option.split)
qed (auto simp: served_client_def respond_def intro: answered_respond merges_allowed)

text \<open>The library of the examples, with the statuses compared as a whole.\<close>

definition served_library :: "('p, 'p object) library" where
  "served_library = ok_library\<lparr>DeepEqual := (\<lambda>a b.
     map_option (\<lambda>i. (conditions i, nextReconcileTime i, observedGeneration i, terminators i, initializers i)) a =
     map_option (\<lambda>i. (conditions i, nextReconcileTime i, observedGeneration i, terminators i, initializers i)) b)\<rparr>"

definition served_std :: "'p served stdlib" where
  "served_std = \<lparr>Now = (\<lambda>w. (snd w, w)), Draw = (\<lambda>w. (7, w))\<rparr>"

end
