(* ===== verification/Lifecycle_Runs.thy ===== *)
theory Lifecycle_Runs
  imports Api_Server
begin

text \<open>
  Whole reconciliations against the API server of \<open>Api_Server\<close>: an object in deletion is released, and a
  reconciled object is left alone for its interval.
\<close>

section \<open>Deletion\<close>

text \<open>
  A subroutine that finalizes: it has no \<open>Terminate\<close>, its \<open>Finalize\<close> is done at once and leaves the
  finalizers of the object to the lifecycle, and its own finalizers are the same for every object.
\<close>

definition finalizes ::
  "('w \<Rightarrow> 'p object option) \<Rightarrow> ('w \<Rightarrow> gotime) \<Rightarrow> ('p, 'w) subroutine \<Rightarrow> bool" where
  "finalizes stored clk s \<longleftrightarrow> Terminate s = None \<and> (\<forall>i j. Finalizers s i = Finalizers s j) \<and>
     completes finalizers stored clk (Finalize s)"

text \<open>The object in memory and that of the server have the same finalizers; without one it is gone.\<close>

definition going :: "('w \<Rightarrow> 'p object option) \<Rightarrow> 'w \<Rightarrow> 'p object \<Rightarrow> bool" where
  "going stored w i \<longleftrightarrow> (case stored w of
     None \<Rightarrow> finalizers i = []
   | Some s \<Rightarrow> finalizers i \<noteq> [] \<and> finalizers s = finalizers i \<and> deletionTimestamp s = deletionTimestamp i)"

lemma going_steady:
  "going stored w i \<Longrightarrow> steady stored clk w w1 \<Longrightarrow> finalizers j = finalizers i \<Longrightarrow>
   deletionTimestamp j = deletionTimestamp i \<Longrightarrow> going stored w1 j"
  by (auto simp: going_def steady_def split: option.splits)

definition quiet_events :: "event set" where
  "quiet_events = {e. case e of EvStatusUpdate _ \<Rightarrow> False | EvStatusPatch _ _ \<Rightarrow> False | _ \<Rightarrow> True}"

lemma quiet_simps [simp]:
  "EvGet \<in> quiet_events" "EvPatch fs \<in> quiet_events" "EvSub a n \<in> quiet_events" "EvSentry e \<in> quiet_events"
  "EvPrepare \<in> quiet_events" "EvStatusUpdate cs \<notin> quiet_events" "EvStatusPatch ts is \<notin> quiet_events"
  by (simp_all add: quiet_events_def)

lemma sub_extras_quiet: "sub_extras l \<subseteq> quiet_events"
  by (auto simp: sub_extras_def split: if_splits)

lemma reconcileSubroutine_quiet:
  assumes "reconcileSubroutine cl L l log c i s g st = (r, i1, st1)"
  shows "adds quiet_events st st1"
proof -
  obtain evs where "set evs \<subseteq> sub_extras l" "trace st1 = trace st @
      (case choose_action L i s of None \<Rightarrow> [] | Some (a, _) \<Rightarrow> [EvSub a (GetName s)]) @ evs"
    using reconcileSubroutine_trace [OF assms] by blast
  then show ?thesis using sub_extras_quiet unfolding adds_def by (fastforce split: option.splits)
qed

lemma removed_on_server:
  assumes "finalizer_laws L" "api_server cl L nn stored clk" "deletionTimestamp i \<noteq> None" "going stored (world st) i"
    and "removeFinalizerIfNeeded cl L i s \<lparr>RequeueAfter = 0\<rparr> False st = (e, i1, st1)"
  shows "e = None \<and> deletionTimestamp i1 = deletionTimestamp i \<and> going stored (world st1) i1 \<and>
    finalizers i1 = filter (\<lambda>f. f \<notin> set (Finalizers s i)) (finalizers i)"
proof -
  let ?fs = "filter (\<lambda>f. f \<notin> set (Finalizers s i)) (finalizers i)"
  let ?ob = "i\<lparr>finalizers := ?fs\<rparr>"
  note rf = remove_finalizers_spec [OF assms(1), of "Finalizers s i" i]
  show ?thesis
  proof (cases "set (Finalizers s i) \<inter> set (finalizers i) = {}")
    case True
    then have "?fs = finalizers i" by (auto simp: filter_id_conv)
    with True assms(4,5) show ?thesis by (auto simp: removeFinalizerIfNeeded_def rf)
  next
    case False
    then have ne: "?fs \<noteq> finalizers i" by (auto simp: filter_id_conv)
    have "finalizers i \<noteq> []" using False by auto
    with assms(4) obtain s0 where s0: "stored (world st) = Some s0" "finalizers s0 = finalizers i"
      "deletionTimestamp s0 = deletionTimestamp i" by (auto simp: going_def split: option.splits)
    obtain x j s1 where p: "do_Patch cl ?ob i st = (x, j, s1)" by (metis surj_pair)
    from server_writes(1) [OF assms(2) s0(1) p] obtain a where a: "x = None" "patched ?ob i s0 a"
      "answered stored clk ?ob a (world st) j (world s1)" by blast
    from a(2) ne have f: "finalizers a = ?fs" "deletionTimestamp a = deletionTimestamp i"
      using s0(3) by (auto simp: patched_def merge_object_def)
    have d: "decoded ?ob a j" "stored (world s1) = kept_object a" using a(3) by (simp_all add: answered_def)
    have j: "finalizers j = ?fs" "deletionTimestamp j = deletionTimestamp i"
      using decoded_same(3,4) [OF d(1)] f by simp_all
    have "going stored (world s1) j" using d(2) f j assms(3) by (auto simp: going_def kept_object_def)
    moreover have "(e, i1, st1) = (None, j, s1)"
      using assms(5) False p a(1) by (simp add: removeFinalizerIfNeeded_def rf)
    ultimately show ?thesis using j by simp
  qed
qed

lemma finalize_one:
  assumes "finalizer_laws L" "api_server cl L nn stored clk" "finalizes stored clk s" "\<not> ReadOnly (lc_config l)"
    and del: "deletionTimestamp i \<noteq> None" and go: "going stored (world st) i"
    and run: "reconcileSubroutine cl L l log c i s g st = ((r, retry, e), i1, st1)"
  shows "e = None \<and> r = \<lparr>RequeueAfter = 0\<rparr> \<and> deletionTimestamp i1 = deletionTimestamp i \<and> going stored (world st1) i1 \<and>
    finalizers i1 = filter (\<lambda>f. f \<notin> set (Finalizers s i)) (finalizers i)"
proof (cases "containsFinalizer L i (Finalizers s i)")
  case False
  then have "set (Finalizers s i) \<inter> set (finalizers i) = {}"
    using containsFinalizer_iff [OF assms(1)] by blast
  then have "filter (\<lambda>f. f \<notin> set (Finalizers s i)) (finalizers i) = finalizers i"
    by (auto simp: filter_id_conv)
  then show ?thesis using False run del go assms(3)
    by (auto simp: reconcileSubroutine_def choose_action_def finalizes_def)
next
  case True
  let ?c = "SetLoggerInContext c (ChildLogger log ''subroutine'' (GetName s))"
  obtain i2 w2 where f: "Finalize s ?c i (world st) = ((\<lparr>RequeueAfter = 0\<rparr>, None), i2, w2)"
    "finalizers i2 = finalizers i" "deletionTimestamp i2 = deletionTimestamp i" "Finalizers s i2 = Finalizers s i"
    "steady stored clk (world st) w2"
    using assms(3) unfolding finalizes_def completes_def by metis
  have ch: "choose_action L i s = Some (DoFinalize, Finalize s)"
    using True del assms(3) by (simp add: choose_action_def finalizes_def)
  let ?st2 = "emit (EvSub DoFinalize (GetName s)) (st\<lparr>world := w2\<rparr>)"
  obtain e3 i3 st3 where rm: "removeFinalizerIfNeeded cl L i2 s \<lparr>RequeueAfter = 0\<rparr> False ?st2 = (e3, i3, st3)"
    by (metis surj_pair)
  have "going stored (world ?st2) i2" "deletionTimestamp i2 \<noteq> None"
    using going_steady [OF go f(5)] f(2,3) del by simp_all
  from removed_on_server [OF assms(1,2) this(2,1) rm] f show ?thesis using run ch rm assms(4)
    by (auto simp: reconcileSubroutine_def run_chosen_def run_action_def Let_def)
qed

lemma finalize_all:
  assumes laws: "finalizer_laws L" "api_server cl L nn stored clk" "\<not> ReadOnly (lc_config l)"
    and cond: "conditions_within (steady stored clk) l"
  shows "\<forall>s \<in> set ss. finalizes stored clk s \<Longrightarrow> deletionTimestamp i \<noteq> None \<Longrightarrow> going stored (world st) i \<Longrightarrow>
    process_subs cl L T l log c orig del ss r cs i st = Some out \<Longrightarrow>
    \<exists>cs1 i1 st1. out = LoopDone r cs1 i1 st1 \<and> adds quiet_events st st1 \<and>
      deletionTimestamp i1 = deletionTimestamp i \<and> going stored (world st1) i1 \<and>
      finalizers i1 = filter (\<lambda>f. f \<notin> set (all_finalizers ss i)) (finalizers i)"
proof (induction ss arbitrary: r cs i st)
  case Nil
  then show ?case by auto
next
  case (Cons s ss)
  have fin: "finalizes stored clk s" using Cons.prems(1) by simp
  have begun: "deletionTimestamp i1 = deletionTimestamp i \<and> finalizers i1 = finalizers i \<and> trace st1 = trace st \<and>
      going stored (world st1) i1" if "begin_conditions T l del (GetName s) cs i st = Some (cs1, i1, st1)" for cs1 i1 st1
    using begin_conditions_frame [OF that] going_steady [OF Cons.prems(3) steady_conditions(1) [OF cond that]] by simp
  from Cons.prems(4) show ?case
  proof (cases rule: process_subs_ConsE)
    case (failed cs1 i1 st1 sr retry e i2 st2 cs2)
    from finalize_one [OF laws(1,2) fin laws(3) _ _ failed(2)] begun [OF failed(1)] Cons.prems(2) show ?thesis by simp
  next
    case (cont cs1 i1 st1 sr retry i2 st2 cs2 cs3 i3 st3)
    note b = begun [OF cont(1)] and d = done_conditions_frame [OF cont(4)]
    have 2: "sr = \<lparr>RequeueAfter = 0\<rparr>" "deletionTimestamp i2 = deletionTimestamp i1" "going stored (world st2) i2"
      "finalizers i2 = filter (\<lambda>f. f \<notin> set (Finalizers s i1)) (finalizers i1)"
      using finalize_one [OF laws(1,2) fin laws(3) _ _ cont(2)] Cons.prems(2) b by simp_all
    have g3: "going stored (world st3) i3"
      using going_steady [OF 2(3) steady_conditions(2) [OF cond cont(4)]] d by simp
    from Cons.IH [of i3, OF _ _ g3 cont(5)] Cons.prems(1,2) b d 2 obtain cs4 i4 st4 where
      3: "out = LoopDone r cs4 i4 st4" "adds quiet_events st3 st4" "deletionTimestamp i4 = deletionTimestamp i3"
      "going stored (world st4) i4" "finalizers i4 = filter (\<lambda>f. f \<notin> set (all_finalizers ss i3)) (finalizers i3)" by auto
    have same: "all_finalizers ss i3 = all_finalizers ss i" "Finalizers s i1 = Finalizers s i"
      using Cons.prems(1) fin unfolding all_finalizers_def finalizes_def
      by (auto intro!: arg_cong [of _ _ concat])
    have "adds quiet_events st st1" "adds quiet_events st2 st3" using b d by (simp_all add: adds_same_trace)
    then have "adds quiet_events st st4"
      using reconcileSubroutine_quiet [OF cont(2)] 3(2) adds_trans by metis
    then show ?thesis using b d 2 3 same by (auto simp: filter_filter conj_commute)
  qed
qed

lemma mark_end_frame:
  assumes "mark_end T l r cs i st = Some (cs1, i1, st1)" and "\<not> time_is_zero (deletionTimestamp i)"
  shows "trace st1 = trace st \<and> deletionTimestamp i1 = deletionTimestamp i \<and> finalizers i1 = finalizers i"
  using assms
  by (auto simp: mark_end_def MarkResourceAsFinal_def write_through_def Let_def
      split: if_splits option.splits prod.splits Option.bind_splits)

lemma finish_deleted:
  assumes "finish cl L T l orig True r cs i st = Some (ret, i1, st1)"
    and "\<not> time_is_zero (deletionTimestamp i)" and "finalizers i = []" and "\<not> has_name (lc_terminator l)"
    and "conditions_within (steady stored clk) l"
  shows "ret = (r, None) \<and> finalizers i1 = [] \<and> trace st1 = trace st \<and> steady stored clk (world st) (world st1)"
proof -
  from assms(1) obtain cs2 i2 st2 where m: "mark_end T l r cs i st = Some (cs2, i2, st2)"
    by (auto simp: finish_def split: Option.bind_splits)
  note f = mark_end_frame [OF m assms(2)] steady_conditions(4) [OF assms(5) disjI2 [OF assms(2)] m]
  have "drop_terminator cl L l True r i2 st2 = (None, i2, st2)" "drop_initializer cl L l True r i2 st2 = (None, i2, st2)"
    using assms(4) by (auto simp: drop_terminator_def drop_initializer_def has_name_def split: option.splits)
  then show ?thesis using assms m f
    by (auto simp: finish_def final_status_def drop_refresh_label_def set_conditions_def time_is_zero_def
        split: option.splits Option.bind_splits if_splits)
qed

text \<open>The prefix of a reconciliation on an object in deletion: nothing but the conditions changes.\<close>

lemma found_deleted:
  assumes "reconcile_found cl L T l log c i st = Some (ret, i1, st1)"
    and "\<not> time_is_zero (deletionTimestamp i)" and "lc_prepare l = None" and "conditions_within (steady stored clk) l"
  obtains cs j st2 where "run_subroutines cl L T l log c i cs j st2 = Some (ret, i1, st1)"
    "trace st2 = trace st" "deletionTimestamp j = deletionTimestamp i" "finalizers j = finalizers i"
    "steady stored clk (world st) (world st2)"
proof -
  from assms(2) have sp: "spread_check T l i st = Some (None, st)"
    by (simp add: spread_check_def split: option.split)
  have af: "AddFinalizersIfNeeded cl L i (lc_subroutines l) (ReadOnly (lc_config l)) st = (None, i, st)"
    using assms(2) by (simp add: AddFinalizersIfNeeded_def)
  from assms(1) obtain cs j st2 where ic: "init_conditions T l i st = Some (cs, j, st2)"
    by (auto simp: reconcile_found_def sp af split: Option.bind_splits)
  then have "trace st2 = trace st" "deletionTimestamp j = deletionTimestamp i" "finalizers j = finalizers i"
    using init_conditions_trace [OF ic] conditions_only(3) [OF ic] by auto
  moreover have "run_subroutines cl L T l log c i cs j st2 = Some (ret, i1, st1)"
    using assms(1,3) by (simp add: reconcile_found_def sp af ic prepare_context_def)
  ultimately show ?thesis using steady_conditions(3) [OF assms(4) ic] that by blast
qed

lemma deletion_released:
  assumes "finalizer_laws L" and "api_server cl L nn stored clk" and "conditions_within (steady stored clk) l"
    and "\<forall>s \<in> set (lc_subroutines l). finalizes stored clk s"
    and "\<not> ReadOnly (lc_config l)" and "lc_prepare l = None" and "\<not> has_name (lc_terminator l)"
    and "blank inst" and "stored (world st) = Some s" and "\<not> time_is_zero (deletionTimestamp s)"
    and "finalizers s \<noteq> []" and "set (finalizers s) \<subseteq> set (all_finalizers (lc_subroutines l) s)"
    and "Reconcile cl L T l rid cluster c nn inst st = Some (ret, inst', st')"
  shows "ret = (\<lparr>RequeueAfter = 0\<rparr>, None) \<and> stored (world st') = None \<and>
    (\<exists>evs. trace st' = trace st @ evs \<and> (\<forall>cs. EvStatusUpdate cs \<notin> set evs))"
  using assms(13)
proof (cases rule: Reconcile_cases)
  case (found log i0 st1 c1)
  then have "cl_Get cl nn inst (world st) = (None, i0, world st1)" by (auto simp: do_Get_def split: prod.splits)
  from server_Get [OF assms(2) this] assms(9) have g: "decoded inst s i0" "steady stored clk (world st) (world st1)" by auto
  have i0: "finalizers i0 = finalizers s" "deletionTimestamp i0 = deletionTimestamp s"
    using decoded_blank [OF g(1) assms(8)] by (simp_all add: agree_def)
  obtain cs j st2 where r: "run_subroutines cl L T l log c1 i0 cs j st2 = Some (ret, inst', st')"
    "trace st2 = trace st1" "deletionTimestamp j = deletionTimestamp i0" "finalizers j = finalizers i0"
    "steady stored clk (world st1) (world st2)"
    using found_deleted [OF found(3) _ assms(6,3)] assms(10) i0 by metis
  have del: "deletionTimestamp i0 \<noteq> None" using assms(10) i0 by (auto simp: time_is_zero_def split: option.splits)
  have "going stored (world st2) j" using assms(9,11) g(2) r(3-5) i0 by (simp add: going_def steady_def)
  let ?ss = "rev (lc_subroutines l)"
  from r(1) del obtain out where
    p: "process_subs cl L T l log c1 i0 True ?ss \<lparr>RequeueAfter = 0\<rparr> cs j st2 = Some out"
    by (auto simp: run_subroutines_def execution_order_def Let_def split: Option.bind_splits)
  have "\<forall>s \<in> set ?ss. finalizes stored clk s" using assms(4) by simp
  from finalize_all [OF assms(1,2,5,3) this _ \<open>going stored (world st2) j\<close> p] del r(3) obtain cs1 i1 st3 where
    o: "out = LoopDone \<lparr>RequeueAfter = 0\<rparr> cs1 i1 st3" "adds quiet_events st2 st3"
      "deletionTimestamp i1 = deletionTimestamp j" "going stored (world st3) i1"
      "finalizers i1 = filter (\<lambda>f. f \<notin> set (all_finalizers ?ss j)) (finalizers j)" by auto
  have "Finalizers z j = Finalizers z s" if "z \<in> set (lc_subroutines l)" for z
    using assms(4) that unfolding finalizes_def by blast
  then have "set (all_finalizers ?ss j) = set (all_finalizers (lc_subroutines l) s)"
    by (simp add: all_finalizers_def)
  then have f: "finalizers i1 = []" using o(5) r(4) i0 assms(12) by (auto simp: filter_empty_conv)
  have fin: "finish cl L T l i0 True \<lparr>RequeueAfter = 0\<rparr> cs1 i1 st3 = Some (ret, inst', st')"
    using r(1) p o(1) del by (simp add: run_subroutines_def execution_order_def Let_def)
  have "\<not> time_is_zero (deletionTimestamp i1)" using o(3) r(3) i0 assms(10) by simp
  from finish_deleted [OF fin this f assms(7,3)]
  have e: "ret = (\<lparr>RequeueAfter = 0\<rparr>, None)" "trace st' = trace st3" "steady stored clk (world st3) (world st')" by simp_all
  have gone: "stored (world st3) = None" using o(4) f by (auto simp: going_def split: option.splits)
  from o(2) obtain evs where "trace st3 = trace st2 @ evs" "set evs \<subseteq> quiet_events" by (auto simp: adds_def)
  then show ?thesis using e r(2) gone do_trace(1) [OF found(1)]
    by (intro conjI exI [of _ "EvGet # evs"]) (auto simp: quiet_events_def steady_def)
next
  case (notfound err st1)
  then have "cl_Get cl nn inst (world st) = (Some err, inst', world st1)" by (auto simp: do_Get_def split: prod.splits)
  with server_found [OF assms(2,9), of inst] show ?thesis by auto
next
  case (geterror err st1)
  then have "cl_Get cl nn inst (world st) = (Some err, inst', world st1)" by (auto simp: do_Get_def split: prod.splits)
  with server_found [OF assms(2,9), of inst] show ?thesis by auto
qed

text \<open>
  C4.  Deletion completes: outside read-only mode, without terminator and prepare function, when the server
  accepts the requests and every finalizer of an object in deletion belongs to a subroutine that finalizes,
  one reconciliation returns without error and requeue and leaves no object on the server: the patches that
  remove the finalizers have been sent.  It sends no status update, which the released object would not survive.
\<close>

theorem deletion_completes:
  assumes "ValidateInterfaces T l = None" and "lc_spreader l = None \<or>
      (lc_spreader l = Some (NewSpreader S) \<and> (\<forall>i. 2 * Minute \<le> reconcile_border T i))"
    and "finalizer_laws L" and "api_server cl L nn stored clk" and "conditions_within (steady stored clk) l"
    and "\<forall>s \<in> set (lc_subroutines l). finalizes stored clk s"
    and "\<not> ReadOnly (lc_config l)" and "lc_prepare l = None" and "\<not> has_name (lc_terminator l)"
    and "blank inst" and "stored (world st) = Some s" and "\<not> time_is_zero (deletionTimestamp s)"
    and "finalizers s \<noteq> []" and "set (finalizers s) \<subseteq> set (all_finalizers (lc_subroutines l) s)"
  shows "\<exists>inst' st' evs. Reconcile cl L T l rid cluster c nn inst st = Some ((\<lparr>RequeueAfter = 0\<rparr>, None), inst', st') \<and>
    stored (world st') = None \<and> trace st' = trace st @ evs \<and> (\<forall>cs. EvStatusUpdate cs \<notin> set evs)"
proof -
  obtain ret inst' st' where r: "Reconcile cl L T l rid cluster c nn inst st = Some (ret, inst', st')"
    using validated_no_panic [OF assms(1,2)] by blast
  with deletion_released [OF assms(3-14) r] show ?thesis by blast
qed

definition finalizing_lifecycle :: "('p, 'w) lifecycle" where
  "finalizing_lifecycle = sample_lifecycle [sample_sub ''x'' 0 None, sample_sub ''y'' 0 None] False"

theorem deletion_completes_witness:
  "\<exists>inst' st'. Reconcile served_client ok_library sample_type finalizing_lifecycle ''r'' None Map.empty request
      (sample_object\<lparr>generation := 0\<rparr>) (start (Some deleted_object, Hour)) =
    Some ((\<lparr>RequeueAfter = 0\<rparr>, None), inst', st') \<and> fst (world st') = None"
proof -
  let ?l = "finalizing_lifecycle :: (unit, unit served) lifecycle"
  have v: "ValidateInterfaces sample_type ?l = None" "lc_spreader ?l = None" "\<not> ReadOnly (lc_config ?l)"
    "conditions_within (steady fst snd) ?l" "lc_prepare ?l = None" "\<not> has_name (lc_terminator ?l)"
    by (simp_all add: ValidateInterfaces_def conditions_within_def has_name_def finalizing_lifecycle_def sample_lifecycle_def)
  have f: "\<forall>s \<in> set (lc_subroutines ?l). finalizes fst snd s"
    by (simp add: finalizes_def completes_def finalizing_lifecycle_def sample_lifecycle_def sample_sub_def)
  have o: "blank (sample_object\<lparr>generation := 0\<rparr>)" "\<not> time_is_zero (deletionTimestamp deleted_object)" "finalizers deleted_object \<noteq> []"
    "set (finalizers deleted_object) \<subseteq> set (all_finalizers (lc_subroutines ?l) deleted_object)"
    by (simp_all add: blank_def deleted_object_def sample_object_def time_is_zero_def finalizing_lifecycle_def
        sample_lifecycle_def sample_sub_def)
  have w: "fst (world (start (Some deleted_object, Hour))) = Some deleted_object" by (simp add: start_def)
  from deletion_completes [OF v(1) disjI1 [OF v(2)] ok_library_laws served_client_server v(4) f v(3,5,6) o(1) w o(2-4)]
  show ?thesis by blast
qed

section \<open>Terminators\<close>

text \<open>
  A subroutine with \<open>Terminate\<close> does not give up its finalizers: on an object in deletion \<open>Terminate\<close>
  takes the place of \<open>Finalize\<close>, and no patch is sent, whatever finalizers the subroutine has asked
  \<open>AddFinalizersIfNeeded\<close> to set.
\<close>

lemma terminator_keeps_finalizers:
  assumes "Terminate s = Some f" and "deletionTimestamp i \<noteq> None"
    and "reconcileSubroutine cl L l log c i s g st = (r, i1, st1)"
  shows "\<exists>evs. trace st1 = trace st @ EvSub DoTerminate (GetName s) # evs \<and> set evs \<subseteq> reports \<and>
    (\<exists>r0 w0. f (SetLoggerInContext c (ChildLogger log ''subroutine'' (GetName s))) i (world st) = (r0, i1, w0))"
proof -
  let ?c = "SetLoggerInContext c (ChildLogger log ''subroutine'' (GetName s))"
  have ch: "choose_action L i s = Some (DoTerminate, f)" using assms(1,2) by (simp add: choose_action_def)
  obtain re e j w where f: "f ?c i (world st) = ((re, e), j, w)" by (metis surj_pair)
  let ?s1 = "emit (EvSub DoTerminate (GetName s)) (st\<lparr>world := w\<rparr>)"
  have rc: "run_chosen cl L l ?c i s DoTerminate f st = ((re, e), j, report e ?s1)"
    using f by (simp add: run_chosen_def run_action_def)
  have "adds reports ?s1 (report e ?s1)" by (simp add: report_adds)
  then have "adds reports ?s1 st1" using reconcileSubroutine_tail [OF assms(3) ch rc] by (rule adds_trans)
  moreover have "i1 = j" using assms(3) ch rc by (auto simp: reconcileSubroutine_def split: option.splits if_splits)
  ultimately show ?thesis using f by (auto simp: adds_def)
qed

section \<open>A reconciled object is left alone\<close>

text \<open>
  The clock and the random source do not touch the object, and the clock reads the time.  The unstructured
  status of an object holds its marks: equal statuses have the same observed generation and next time, up
  to the fraction of a second that is not sent.
\<close>

definition clock_laws :: "('w \<Rightarrow> 'p object option) \<Rightarrow> ('w \<Rightarrow> gotime) \<Rightarrow> 'w stdlib \<Rightarrow> bool" where
  "clock_laws stored clk S \<longleftrightarrow>
     (\<forall>w t w1. Now S w = (t, w1) \<longrightarrow> steady stored clk w w1 \<and> clk w \<le> t \<and> t \<le> clk w1) \<and>
     (\<forall>w r w1. Draw S w = (r, w1) \<longrightarrow> steady stored clk w w1)"

definition status_laws :: "('p, 'u) library \<Rightarrow> bool" where
  "status_laws L \<longleftrightarrow> (\<forall>a b ua ub sa sb. ToUnstructured L a = Inr ua \<and> ToUnstructured L b = Inr ub \<and>
     NestedFieldCopy L ua [''status''] = Inr sa \<and> NestedFieldCopy L ub [''status''] = Inr sb \<and> DeepEqual L sa sb \<longrightarrow>
     observedGeneration a = observedGeneration b \<and> seconds (nextReconcileTime a) = seconds (nextReconcileTime b))"

lemma served_IsNotFound: "IsNotFound served_library = (\<lambda>e. e = no_object)" "IsNotFound ok_library = (\<lambda>e. e = no_object)"
  by (simp_all add: served_library_def ok_library_def no_object_def)

lemma served_laws:
  "finalizer_laws served_library" "status_laws served_library" "clock_laws fst snd served_std"
  "api_server served_client served_library nn fst snd"
proof -
  show "finalizer_laws served_library" using ok_library_laws by (simp add: finalizer_laws_def served_library_def)
  show "status_laws served_library" by (auto simp: status_laws_def served_library_def ok_library_def)
  show "clock_laws fst snd served_std" by (auto simp: clock_laws_def served_std_def)
  show "api_server served_client served_library nn fst snd"
    using served_client_server [of nn] unfolding api_server_def served_IsNotFound .
qed

lemma getNext_upper:
  assumes "getNextReconcileTime S b w = Some (d, w1)"
  shows "(b div (2 * Minute)) * Minute \<le> d \<and> d \<le> b - Minute"
proof -
  from assms have "2 * Minute \<le> b" using getNext_None [of S b w] by auto
  then obtain j where j: "d = (j + b div (2 * Minute)) * Minute" "0 \<le> j" "j < b div (2 * Minute)"
    using getNext_Some [OF assms] by auto
  have "2 * (b div (2 * Minute)) * Minute \<le> b" by simp
  with j show ?thesis by (simp add: algebra_simps)
qed

text \<open>The marks that \<open>MarkResourceAsFinal\<close> leaves in the object.\<close>

lemma mark_spread:
  assumes "MarkResourceAsFinal T l i cs status st = Some (cs1, i1, st1)"
    and "lc_spreader l = Some (NewSpreader S)" and "deletionTimestamp i = None"
    and "clock_laws stored clk S" and "conditions_within (steady stored clk) l"
    and border: "\<And>j. lo \<le> reconcile_border T j \<and> reconcile_border T j \<le> hi"
  obtains ds t where
    "i1 = i\<lparr>conditions := ds, nextReconcileTime := t, observedGeneration := generation i\<rparr>"
    "clk (world st) + (lo div (2 * Minute)) * Minute \<le> t" "t \<le> clk (world st1) + hi - Minute"
    "steady stored clk (world st) (world st1)"
proof -
  from assms(1-3) obtain i2 w2 ds where s: "SetNextReconcileTime_impl S T i (world st) = Some (i2, w2)"
    "i1 = (UpdateObservedGeneration_impl i2)\<lparr>conditions := ds\<rparr>" "steady stored clk w2 (world st1)"
  proof (cases "lc_conditions l")
    case None
    with assms(1-3) that [of _ _ "conditions i1"] show ?thesis
      by (fastforce simp: MarkResourceAsFinal_def time_is_zero_def Let_def split: Option.bind_splits)
  next
    case (Some cm)
    with assms(1-3) that show ?thesis
      by (fastforce simp: MarkResourceAsFinal_def time_is_zero_def Let_def write_through_def
          split: Option.bind_splits prod.splits dest: conditions_withinD(4) [OF assms(5)])
  qed
  from s(1) obtain d w1 t0 where n: "getNextReconcileTime S (reconcile_border T i) (world st) = Some (d, w1)"
    "Now S w1 = (t0, w2)" "i2 = i\<lparr>nextReconcileTime := t0 + d\<rparr>"
    by (auto simp: SetNextReconcileTime_impl_def split: Option.bind_splits prod.splits)
  from n(1) have "2 * Minute \<le> reconcile_border T i" using getNext_None [of S "reconcile_border T i" "world st"] by simp
  from getNext_value [OF this, of S "world st"] n(1) obtain r where "Draw S (world st) = (r, w1)"
    by (cases "Draw S (world st)") auto
  with n(2) assms(4) have c: "steady stored clk (world st) w1" "steady stored clk w1 w2" "clk w1 \<le> t0" "t0 \<le> clk w2"
    unfolding clock_laws_def by blast+
  have "(lo div (2 * Minute)) * Minute \<le> (reconcile_border T i div (2 * Minute)) * Minute"
    using border [of i] by (intro mult_right_mono zdiv_mono1) auto
  with getNext_upper [OF n(1)] border [of i] have "(lo div (2 * Minute)) * Minute \<le> d" "d \<le> hi - Minute" by linarith+
  moreover have "i1 = i\<lparr>conditions := ds, nextReconcileTime := t0 + d, observedGeneration := generation i\<rparr>"
    using s(2) n(3) by (simp add: UpdateObservedGeneration_impl_def)
  moreover have "steady stored clk (world st) (world st1)" using c s(3) by (blast intro: steady_trans)
  ultimately show ?thesis using c s(3) by (intro that [of "t0 + d" ds]) (auto simp: steady_def)
qed

text \<open>The final status update stores the marks, or the server has them already.\<close>

lemma updateStatus_stores:
  assumes "api_server cl L nn stored clk" "status_laws L" "stored (world st) = Some s"
    and "updateStatus cl L orig i True st = (None, i1, st1)"
    and "observedGeneration orig = observedGeneration s" "nextReconcileTime orig = nextReconcileTime s"
    and "deletionTimestamp s = None" "deletionTimestamp i = None" "labels i k = labels s k"
  obtains fin where "stored (world st1) = Some fin" "clk (world st) \<le> clk (world st1)"
    "generation fin = generation s" "labels fin = labels s" "deletionTimestamp fin = None" "finalizers fin = finalizers s"
    "observedGeneration fin = observedGeneration i" "seconds (nextReconcileTime fin) = seconds (nextReconcileTime i)"
    "labels i1 k = labels s k" "deletionTimestamp i1 = None"
proof -
  from assms(4) obtain ui uo si so where u: "ToUnstructured L i = Inr ui" "ToUnstructured L orig = Inr uo"
    "NestedFieldCopy L ui [''status''] = Inr si" "NestedFieldCopy L uo [''status''] = Inr so"
    and r: "(if DeepEqual L si so then (None, i, st) else (case do_StatusUpdate cl i st of
             (None, inst1, st1) \<Rightarrow> (None, inst1, st1)
           | (Some err, inst1, st1) \<Rightarrow>
               (Some err, inst1, if IsConflict L err then st1 else if True then capture (Some err) st1 else st1))) = (None, i1, st1)"
    unfolding updateStatus_def by (auto split: sum.splits)
  show ?thesis
  proof (cases "DeepEqual L si so")
    case True
    with u assms(2) have "observedGeneration i = observedGeneration orig \<and>
        seconds (nextReconcileTime i) = seconds (nextReconcileTime orig)"
      unfolding status_laws_def by blast
    with True r assms show ?thesis by (intro that [of s]) auto
  next
    case False
    obtain x j s1 where d: "do_StatusUpdate cl i st = (x, j, s1)" by (metis surj_pair)
    from server_writes(2) [OF assms(1,3) d] obtain a where a: "x = None" "status_updated i s a"
      "answered stored clk i a (world st) j (world s1)" by blast
    from False r d a(1) have e: "i1 = j" "st1 = s1" by simp_all
    from a(2) obtain p where p: "a = new_status i s\<lparr>payload := p\<rparr>" by (auto simp: status_updated_def)
    have dec: "decoded i a j" "stored (world s1) = kept_object a" "clk (world st) \<le> clk (world s1)"
      using a(3) by (simp_all add: answered_def)
    show ?thesis
      using decoded_same(2,4) [OF dec(1)] dec(2,3) assms(7-9) e p
      by (intro that [of a]) (auto simp: new_status_def kept_object_def)
  qed
qed

lemma refresh_removed_on_server:
  assumes "api_server cl L nn stored clk" "stored (world st) = Some s" "deletionTimestamp s = None"
    and "lc_spreader l = Some (NewSpreader S)" "deletionTimestamp i = None"
    and "labels i ReconcileRefreshLabel = labels s ReconcileRefreshLabel"
    and "drop_refresh_label cl l r0 i st = ((r, None), i1, st1)"
  obtains fin where "stored (world st1) = Some fin" "clk (world st) \<le> clk (world st1)" "r = r0"
    "generation fin = generation s" "deletionTimestamp fin = None" "labels fin ReconcileRefreshLabel = None"
    "observedGeneration fin = observedGeneration s" "nextReconcileTime fin = nextReconcileTime s"
proof (cases "labels i ReconcileRefreshLabel = None")
  case True
  with assms show ?thesis
    by (intro that [of s]) (auto simp: drop_refresh_label_def time_is_zero_def RemoveRefreshLabelIfExists_impl_def)
next
  case False
  let ?ob = "i\<lparr>labels := (labels i)(ReconcileRefreshLabel := None)\<rparr>"
  obtain x j s1 where d: "do_Patch cl ?ob i st = (x, j, s1)" by (metis surj_pair)
  from server_writes(1) [OF assms(1,2) d] obtain a where a: "x = None" "patched ?ob i s a"
    "answered stored clk ?ob a (world st) j (world s1)" by blast
  have "(r, None) = (r0, None :: goerror option)" "st1 = s1"
    using False assms(4,5,7) d a(1)
    by (auto simp: drop_refresh_label_def time_is_zero_def RemoveRefreshLabelIfExists_impl_def)
  with a(2,3) assms(3) False show ?thesis
    by (intro that [of a]) (auto simp: patched_def merge_object_def answered_def kept_object_def)
qed

text \<open>What the object on the server says after a completed reconciliation.\<close>

definition silenced ::
  "'p object \<Rightarrow> gotime \<Rightarrow> gotime \<Rightarrow> bool" where
  "silenced s from_time to_time \<longleftrightarrow> deletionTimestamp s = None \<and> generation s = observedGeneration s \<and>
     labels s ReconcileRefreshLabel = None \<and> from_time < nextReconcileTime s \<and> nextReconcileTime s < to_time"

lemma finish_silences:
  assumes "api_server cl L nn stored clk" "status_laws L" "clock_laws stored clk S" "conditions_within (steady stored clk) l"
    and "\<not> ReadOnly (lc_config l)" "lc_spreader l = Some (NewSpreader S)" "\<not> has_name (lc_initializer l)"
    and border: "\<And>j. lo \<le> reconcile_border T j \<and> reconcile_border T j \<le> hi"
    and "deletionTimestamp i = None" "stored (world st) = Some s" "deletionTimestamp s = None"
    and "generation s = generation i" "labels s ReconcileRefreshLabel = labels i ReconcileRefreshLabel"
    and "observedGeneration orig = observedGeneration s" "nextReconcileTime orig = nextReconcileTime s"
    and fin: "finish cl L T l orig False \<lparr>RequeueAfter = 0\<rparr> cs i st = Some ((r, None), i1, st1)"
  shows "r = \<lparr>RequeueAfter = 0\<rparr> \<and> (\<exists>fin. stored (world st1) = Some fin \<and>
    silenced fin (clk (world st) + (lo div (2 * Minute)) * Minute - Second) (clk (world st1) + hi))"
proof -
  from fin obtain cs2 i2 st2 where m: "MarkResourceAsFinal T l i cs ConditionTrue st = Some (cs2, i2, st2)"
    by (auto simp: finish_def mark_end_def split: Option.bind_splits)
  obtain ds t where i2: "i2 = i\<lparr>conditions := ds, nextReconcileTime := t, observedGeneration := generation i\<rparr>"
    and t: "clk (world st) + (lo div (2 * Minute)) * Minute \<le> t" "t \<le> clk (world st2) + hi - Minute"
    and st2: "steady stored clk (world st) (world st2)"
    using mark_spread [OF m assms(6,9,3,4) border] .
  have n: "drop_terminator cl L l False \<lparr>RequeueAfter = 0\<rparr> i2 st2 = (None, i2, st2)"
    "drop_initializer cl L l False \<lparr>RequeueAfter = 0\<rparr> i2 st2 = (None, i2, st2)"
    using assms(7) by (auto simp: drop_terminator_def drop_initializer_def has_name_def split: option.splits)
  have me: "mark_end T l \<lparr>RequeueAfter = 0\<rparr> cs i st = Some (cs2, i2, st2)" using m by (simp add: mark_end_def)
  from fin me n obtain i4 where
    "(case lc_conditions l of None \<Rightarrow> Some i2 | Some _ \<Rightarrow> set_conditions T cs2 i2) = Some i4"
    by (auto simp: finish_def split: Option.bind_splits)
  moreover from this have "deletionTimestamp i4 = deletionTimestamp i \<and> labels i4 = labels i \<and>
      nextReconcileTime i4 = t \<and> observedGeneration i4 = generation i"
    unfolding i2 by (auto simp: set_conditions_def split: option.splits Option.bind_splits if_splits)
  ultimately have i4: "(case lc_conditions l of None \<Rightarrow> Some i2 | Some _ \<Rightarrow> set_conditions T cs2 i2) = Some i4"
    "deletionTimestamp i4 = None" "labels i4 = labels i" "nextReconcileTime i4 = t" "observedGeneration i4 = generation i"
    using assms(9) by simp_all
  obtain e5 i5 st5 where us: "updateStatus cl L orig i4 True st2 = (e5, i5, st5)" by (metis surj_pair)
  then have fs: "final_status cl L l orig i4 st2 = (e5, i5, st5)" using assms(5) i4(2) by (simp add: final_status_def)
  from fin me n i4(1) fs have "e5 = None" "drop_refresh_label cl l \<lparr>RequeueAfter = 0\<rparr> i5 st5 = ((r, None), i1, st1)"
    by (auto simp: finish_def split: option.splits)
  moreover have "stored (world st2) = Some s" using st2 assms(10) by (simp add: steady_def)
  moreover have "labels i4 ReconcileRefreshLabel = labels s ReconcileRefreshLabel" using i4(3) assms(13) by simp
  ultimately obtain s5 where s5: "stored (world st5) = Some s5" "clk (world st2) \<le> clk (world st5)"
    "generation s5 = generation i" "deletionTimestamp s5 = None" "observedGeneration s5 = generation i"
    "seconds (nextReconcileTime s5) = seconds t" "labels s5 ReconcileRefreshLabel = labels i5 ReconcileRefreshLabel"
    "deletionTimestamp i5 = None" and dr: "drop_refresh_label cl l \<lparr>RequeueAfter = 0\<rparr> i5 st5 = ((r, None), i1, st1)"
    using updateStatus_stores [OF assms(1,2) _ _ assms(14,15,11) i4(2)] us i4(4,5) assms(12) by metis
  obtain fin where f: "stored (world st1) = Some fin" "clk (world st5) \<le> clk (world st1)" "r = \<lparr>RequeueAfter = 0\<rparr>"
    "generation fin = generation s5" "deletionTimestamp fin = None" "labels fin ReconcileRefreshLabel = None"
    "observedGeneration fin = observedGeneration s5" "nextReconcileTime fin = nextReconcileTime s5"
    using refresh_removed_on_server [OF assms(1) s5(1,4) assms(6) s5(8) s5(7) [symmetric] dr] .
  have "t - Second < nextReconcileTime fin" "nextReconcileTime fin < t + Second"
    using seconds_bounds [of t] seconds_bounds [of "nextReconcileTime fin"] s5(6) unfolding f(8) by linarith+
  with t f s5(2-6) show ?thesis unfolding silenced_def by (intro conjI exI [of _ fin]) simp_all
qed

text \<open>What the spreader looks at, and the subroutines leave alone.\<close>

definition spread_view :: "'p object \<Rightarrow> int \<times> string option" where
  "spread_view i = (generation i, labels i ReconcileRefreshLabel)"

lemma reconciled_silenced:
  assumes laws: "finalizer_laws L" "status_laws L" "api_server cl L nn stored clk" "clock_laws stored clk S"
      "conditions_within (steady stored clk) l"
    and "own_finalizers (lc_subroutines l)" and "lc_spreader l = Some (NewSpreader S)"
    and border: "\<And>j. lo \<le> reconcile_border T j \<and> reconcile_border T j \<le> hi"
    and "lc_prepare l = None" and "\<not> has_name (lc_initializer l)" and "\<not> ReadOnly (lc_config l)"
    and "\<forall>s \<in> set (lc_subroutines l). done_at_once spread_view stored clk s"
    and "blank inst" and "cl_Get cl nn inst (world st) = (None, inst1, w1)" and "deletionTimestamp inst1 = None"
    and "ReconcileRequired_impl S T inst1 w1 = Some (True, w2)"
    and "Reconcile cl L T l rid cluster c nn inst st = Some ((r, None), inst', st')"
  shows "r = \<lparr>RequeueAfter = 0\<rparr> \<and> (\<exists>fin. stored (world st') = Some fin \<and>
    silenced fin (clk (world st) + (lo div (2 * Minute)) * Minute - Second) (clk (world st') + hi))"
  using assms(17)
proof (cases rule: Reconcile_cases)
  case (found log i0 st1 c1)
  then have g: "i0 = inst1" "world st1 = w1" using assms(14) by (auto simp: do_Get_def)
  obtain s where s: "stored (world st) = Some s" "decoded inst s inst1" "steady stored clk (world st) w1"
    using server_Get [OF laws(3) assms(14)] .
  have ag: "agree s inst1" "nextReconcileTime inst1 = nextReconcileTime s" "observedGeneration inst1 = observedGeneration s"
    using decoded_blank [OF s(2) assms(13)] by simp_all
  from assms(16) obtain t where "Now S w1 = (t, w2)"
    by (auto simp: ReconcileRequired_impl_def split: Option.bind_splits prod.splits)
  then have w2: "steady stored clk (world st1) w2" using laws(4) g(2) unfolding clock_laws_def by blast
  have sp: "spread_check T l inst1 st1 = Some (None, st1\<lparr>world := w2\<rparr>)"
    using assms(7,15,16) g(2) by (simp add: spread_check_def time_is_zero_def)
  have st1: "stored (world st1) = Some s" "clk (world st) \<le> clk (world st1)"
    using s(1,3) g(2) by (simp_all add: steady_def)
  obtain cs j st2 s2 where r: "run_subroutines cl L T l log c1 inst1 cs j st2 = Some ((r, None), inst', st')"
    "stored (world st2) = Some s2" "agree s2 j" "clk (world st1) \<le> clk (world st2)" "deletionTimestamp j = None"
    "nextReconcileTime s2 = nextReconcileTime s" "observedGeneration s2 = observedGeneration s"
    using found_alive [OF found(3) [unfolded g(1)] laws(3,1) assms(6,15,9) laws(5) sp _ st1(1) ag(1)] w2
    by (metis rstate.select_convs(1) rstate.update_convs(1) rstate.surjective)
  from r(1) assms(15) obtain out where
    p: "process_subs cl L T l log c1 inst1 False (lc_subroutines l) \<lparr>RequeueAfter = 0\<rparr> cs j st2 = Some out"
    by (auto simp: run_subroutines_def execution_order_def Let_def split: Option.bind_splits)
  obtain cs1 i1 st3 where o: "out = LoopDone \<lparr>RequeueAfter = 0\<rparr> cs1 i1 st3" "deletionTimestamp i1 = None"
    "spread_view i1 = spread_view j" "steady stored clk (world st2) (world st3)"
    using done_all [OF _ laws(5) assms(12) r(5) p] by (auto simp: spread_view_def)
  have f: "finish cl L T l inst1 False \<lparr>RequeueAfter = 0\<rparr> cs1 i1 st3 = Some ((r, None), inst', st')"
    using r(1) p o(1) assms(15) by (simp add: run_subroutines_def execution_order_def Let_def)
  have st3: "stored (world st3) = Some s2" "clk (world st) \<le> clk (world st3)"
    using r(2,4) o(4) st1(2) by (simp_all add: steady_def)
  have "deletionTimestamp s2 = None" "generation s2 = generation i1"
    "labels s2 ReconcileRefreshLabel = labels i1 ReconcileRefreshLabel"
    "observedGeneration inst1 = observedGeneration s2" "nextReconcileTime inst1 = nextReconcileTime s2"
    using r(3,5-7) o(3) ag by (simp_all add: agree_def spread_view_def)
  from finish_silences [OF laws(3,2,4,5) assms(11,7,10) border o(2) st3(1) this f]
  show ?thesis using st3(2) by (auto simp: silenced_def)
qed (use assms(14) in \<open>simp_all add: do_Get_def\<close>)

text \<open>
  C6.  Reconciled once, left alone for the interval: take a reconciliation outside read-only mode, without
  initializer and prepare function, that the spreader has let through, on an object not in deletion, whose
  subroutines are all done at once and leave the object on the server alone.  It asks for no requeue, and the
  object on the server then has a next time that lies, after the start of this reconciliation, by at least
  half the shortest border, rounded down to minutes, less the fraction of a second that is not sent, and
  before the longest border after its end.  As long as the server's object stays this one and that time has not passed,
  the next reconciliation only reads it and asks to be called again after the remaining time.
\<close>

theorem reconciled_then_quiet:
  assumes laws: "finalizer_laws L" "status_laws L" "api_server cl L nn stored clk" "clock_laws stored clk S"
      "conditions_within (steady stored clk) l"
    and "own_finalizers (lc_subroutines l)" and "lc_spreader l = Some (NewSpreader S)"
    and border: "\<And>j. lo \<le> reconcile_border T j \<and> reconcile_border T j \<le> hi"
    and "lc_prepare l = None" and "\<not> has_name (lc_initializer l)" and "\<not> ReadOnly (lc_config l)"
    and "\<forall>s \<in> set (lc_subroutines l). done_at_once spread_view stored clk s"
    and "blank inst" and "cl_Get cl nn inst (world st) = (None, inst1, w1)" and "deletionTimestamp inst1 = None"
    and "ReconcileRequired_impl S T inst1 w1 = Some (True, w2)"
    and first: "Reconcile cl L T l rid cluster c nn inst st = Some ((r, None), inst', st')"
    and "has_spread_status T" and "blank inst2" and "stored (world st2) = stored (world st')"
    and "cl_Get cl nn inst2 (world st2) = (e, inst3, w3)" and "Now S w3 = (now, w4)" and "Now S w4 = (now', w5)"
  shows "r = \<lparr>RequeueAfter = 0\<rparr> \<and> (\<exists>fin. stored (world st') = Some fin \<and>
    clk (world st) + (lo div (2 * Minute)) * Minute - Second < nextReconcileTime fin \<and>
    nextReconcileTime fin < clk (world st') + hi \<and>
    (now \<le> nextReconcileTime fin \<longrightarrow> Reconcile cl L T l rid2 cluster2 c2 nn inst2 st2 =
      Some ((\<lparr>RequeueAfter = time_sub (nextReconcileTime fin) now'\<rparr>, None), inst3,
        \<lparr>world = w5, trace = trace st2 @ [EvGet]\<rparr>)))"
proof -
  from reconciled_silenced [OF laws assms(6,7) border assms(9-16) first] obtain fin where
    f: "r = \<lparr>RequeueAfter = 0\<rparr>" "stored (world st') = Some fin"
      "silenced fin (clk (world st) + (lo div (2 * Minute)) * Minute - Second) (clk (world st') + hi)" by blast
  obtain i w where "cl_Get cl nn inst2 (world st2) = (None, i, w)"
    using server_found [OF laws(3), of "world st2" fin] assms(20) f(2) by metis
  with assms(21) have g: "cl_Get cl nn inst2 (world st2) = (None, inst3, w3)" by simp
  obtain s where "stored (world st2) = Some s" "decoded inst2 s inst3" using server_Get [OF laws(3) g] .
  with assms(19,20) f(2) have i: "agree fin inst3" "nextReconcileTime inst3 = nextReconcileTime fin"
    "observedGeneration inst3 = observedGeneration fin" using decoded_blank by auto
  have "Reconcile cl L T l rid2 cluster2 c2 nn inst2 st2 =
      Some ((\<lparr>RequeueAfter = time_sub (nextReconcileTime fin) now'\<rparr>, None), inst3,
        \<lparr>world = w5, trace = trace st2 @ [EvGet]\<rparr>)" if "now \<le> nextReconcileTime fin"
    using spread_skip_run [OF assms(7,18) g _ _ _ assms(22) _ assms(23)] i f(3) that
    by (simp add: silenced_def agree_def)
  with f show ?thesis by (auto simp: silenced_def)
qed

text \<open>
  A reconciliation that sets a finalizer, stores its marks and drops the refresh label, and the next one
  an hour later.
\<close>

definition silent_lifecycle :: "(unit, unit served) lifecycle" where
  "silent_lifecycle = (sample_lifecycle [sample_sub ''x'' 0 None] False)\<lparr>lc_spreader := Some (NewSpreader served_std)\<rparr>"

definition fresh_object :: "unit object" where
  "fresh_object = sample_object\<lparr>labels := [ReconcileRefreshLabel \<mapsto> ''true'']\<rparr>"

definition silent_object :: "unit object" where
  "silent_object = sample_object\<lparr>finalizers := [''x''], observedGeneration := 1, nextReconcileTime := 727 * Minute\<rparr>"

definition unread :: "unit object" where
  "unread = sample_object\<lparr>generation := 0\<rparr>"

lemma silent_run:
  "Reconcile served_client served_library sample_type silent_lifecycle ''r'' None Map.empty request unread
     (start (Some fresh_object, 0)) =
   Some ((\<lparr>RequeueAfter = 0\<rparr>, None), silent_object, \<lparr>world = (Some silent_object, 0),
     trace = [EvGet, EvPatch [''x''], EvSub DoProcess ''x'', EvStatusUpdate [], EvPatch [''x'']]\<rparr>)"
  by (simp add: lifecycle_defs sample_defs silent_lifecycle_def silent_object_def served_std_def served_client_def
      served_library_def respond_def merge_object_def new_status_def kept_object_def unread_def fresh_object_def
      ReconcileRequired_impl_def SetNextReconcileTime_impl_def getNextReconcileTime_def Int64N_def go_quot_nonneg
      reconcile_border_def defaultMaxReconcileDuration_def UpdateObservedGeneration_impl_def seconds_def
      RemoveRefreshLabelIfExists_impl_def Let_def fun_eq_iff)

theorem reconciled_then_quiet_witness:
  "Reconcile served_client served_library sample_type silent_lifecycle ''r'' None Map.empty request unread
     (start (Some silent_object, Hour)) =
   Some ((\<lparr>RequeueAfter = 667 * Minute\<rparr>, None), silent_object,
     \<lparr>world = (Some silent_object, Hour), trace = [EvGet]\<rparr>)"
proof -
  have l: "own_finalizers (lc_subroutines silent_lifecycle)" "lc_spreader silent_lifecycle = Some (NewSpreader served_std)"
    "lc_prepare silent_lifecycle = None" "\<not> has_name (lc_initializer silent_lifecycle)" "\<not> ReadOnly (lc_config silent_lifecycle)"
    "\<forall>s \<in> set (lc_subroutines silent_lifecycle). done_at_once spread_view fst snd s"
    "conditions_within (steady fst snd) silent_lifecycle"
    by (simp_all add: own_finalizers_def has_name_def done_at_once_def completes_def conditions_within_def
        silent_lifecycle_def sample_lifecycle_def sample_sub_def)
  have b: "24 * Hour \<le> reconcile_border sample_type j \<and> reconcile_border sample_type j \<le> 24 * Hour" for j
    by (simp add: reconcile_border_def sample_type_def defaultMaxReconcileDuration_def)
  have g: "cl_Get served_client request unread (world (start (Some fresh_object, 0))) = (None, fresh_object, (Some fresh_object, 0))"
    "cl_Get served_client request unread (world (start (Some silent_object, Hour))) = (None, silent_object, (Some silent_object, Hour))"
    by (simp_all add: served_client_def start_def)
  have t: "Now served_std (Some silent_object, Hour) = (Hour, (Some silent_object, Hour))"
    "ReconcileRequired_impl served_std sample_type fresh_object (Some fresh_object, 0) = Some (True, (Some fresh_object, 0))"
    "has_spread_status sample_type" "deletionTimestamp fresh_object = None" "blank unread"
    by (simp_all add: served_std_def ReconcileRequired_impl_def sample_type_def sample_object_def fresh_object_def
        unread_def blank_def)
  have s: "fst (world (start (Some silent_object, Hour))) =
      fst (world \<lparr>world = (Some silent_object, 0),
     trace = [EvGet, EvPatch [''x''], EvSub DoProcess ''x'', EvStatusUpdate [], EvPatch [''x'']]\<rparr>)"
    by (simp add: start_def)
  from reconciled_then_quiet [OF served_laws(1,2,4,3) l(7,1,2) b l(3,4,5,6) t(5) g(1) t(4,2) silent_run t(3,5) s g(2) t(1,1)]
  show ?thesis by (simp add: silent_object_def start_def time_sub_def)
qed

end
