(* ===== verification/Deletion_Loop.thy ===== *)
theory Deletion_Loop
  imports Lifecycle_Runs
begin

text \<open>
  The requests of a controller that belong to one object: controller-runtime calls \<open>Reconcile\<close> again
  after an error and after \<open>RequeueAfter\<close>, and leaves the object alone otherwise.  For an object in deletion
  this loop is shown to end with the object released, however the finalizations, the API server and the
  conditions behave in between, as long as they fail or ask for more time only finitely often.
\<close>

section \<open>The loop of the controller\<close>

text \<open>
  The number of reconciliations is counted in \<open>n\<close>.  \<open>None\<close> is a panic or a loop without end.
\<close>

partial_function (option) reconcile_until ::
  "('p, 'w) client \<Rightarrow> ('p, 'u) library \<Rightarrow> 'p object_type \<Rightarrow> ('p, 'w) lifecycle \<Rightarrow> string \<Rightarrow> string option \<Rightarrow>
   ctx \<Rightarrow> namespaced_name \<Rightarrow> nat \<Rightarrow> 'p object \<Rightarrow> 'w rstate \<Rightarrow> (nat \<times> 'p object \<times> 'w rstate) option" where
  "reconcile_until cl L T l rid cluster c nn n inst st =
     (case Reconcile cl L T l rid cluster c nn inst st of
        None \<Rightarrow> None
      | Some ((r, e), inst', st') \<Rightarrow>
          if e = None \<and> \<not> RequeueAfter r > 0 then Some (Suc n, inst', st')
          else reconcile_until cl L T l rid cluster c nn (Suc n) inst' st')"

section \<open>Finitely many failures\<close>

text \<open>
  \<open>fin\<close> is the list of finalizers the server has for the object, empty once the object is gone, and
  \<open>work\<close> how many more failures and requeues there can be.
\<close>

definition framed :: "('w \<Rightarrow> string list) \<Rightarrow> ('w \<Rightarrow> nat) \<Rightarrow> 'w \<Rightarrow> 'w \<Rightarrow> bool" where
  "framed fin work w w1 \<longleftrightarrow> fin w1 = fin w \<and> work w1 \<le> work w"

definition used_up :: "('w \<Rightarrow> string list) \<Rightarrow> ('w \<Rightarrow> nat) \<Rightarrow> 'w \<Rightarrow> 'w \<Rightarrow> bool" where
  "used_up fin work w w1 \<longleftrightarrow> fin w1 = fin w \<and> work w1 < work w"

text \<open>
  The server: an object without finalizers is gone; an accepted patch is stored; a status update does
  not touch the finalizers; a request fails at the price of some work.
\<close>

definition deletion_server ::
  "('p, 'w) client \<Rightarrow> ('p, 'u) library \<Rightarrow> namespaced_name \<Rightarrow> ('w \<Rightarrow> string list) \<Rightarrow> ('w \<Rightarrow> nat) \<Rightarrow> bool" where
  "deletion_server cl L nn fin work \<longleftrightarrow>
     (\<forall>i w e i1 w1. cl_Get cl nn i w = (e, i1, w1) \<longrightarrow>
        (case e of
           None \<Rightarrow> fin w \<noteq> [] \<and> finalizers i1 = fin w \<and> \<not> time_is_zero (deletionTimestamp i1) \<and> framed fin work w w1
         | Some x \<Rightarrow> if IsNotFound L x then fin w = [] \<and> framed fin work w w1 else used_up fin work w w1)) \<and>
     (\<forall>ob orig w e i1 w1. cl_Patch cl ob orig w = (e, i1, w1) \<longrightarrow>
        (case e of
           None \<Rightarrow> finalizers i1 = finalizers ob \<and> deletionTimestamp i1 = deletionTimestamp ob \<and>
             fin w1 = finalizers ob \<and> work w1 \<le> work w
         | Some x \<Rightarrow> used_up fin work w w1)) \<and>
     (\<forall>ob w e i1 w1. cl_StatusUpdate cl ob w = (e, i1, w1) \<longrightarrow>
        framed fin work w w1 \<and> (e = None \<longrightarrow> deletionTimestamp i1 = deletionTimestamp ob))"

text \<open>
  A subroutine that finalizes in the end: it has no \<open>Terminate\<close>, its finalizers are the same for every
  object, and its \<open>Finalize\<close> leaves the finalizers and the deletion timestamp alone and either is done or
  uses up some work, asking for a requeue or returning an error to be retried.
\<close>

definition drains :: "('w \<Rightarrow> string list) \<Rightarrow> ('w \<Rightarrow> nat) \<Rightarrow> ('p, 'w) subroutine \<Rightarrow> bool" where
  "drains fin work s \<longleftrightarrow> Terminate s = None \<and> (\<forall>i j. Finalizers s i = Finalizers s j) \<and>
     (\<forall>c i w r e i1 w1. Finalize s c i w = ((r, e), i1, w1) \<longrightarrow>
        finalizers i1 = finalizers i \<and> deletionTimestamp i1 = deletionTimestamp i \<and>
        (e = None \<and> RequeueAfter r = 0 \<and> framed fin work w w1 \<or>
         used_up fin work w w1 \<and> (case e of None \<Rightarrow> RequeueAfter r > 0 | Some p \<Rightarrow> Retry p)))"

text \<open>The conditions are kept in the object; setting them has no effect on the rest.\<close>

abbreviation lifecycle_framed :: "('w \<Rightarrow> string list) \<Rightarrow> ('w \<Rightarrow> nat) \<Rightarrow> ('p, 'w) lifecycle \<Rightarrow> bool" where
  "lifecycle_framed fin work l \<equiv> conditions_within (framed fin work) l"

lemma framed_refl [simp]: "framed fin work w w"
  by (simp add: framed_def)

lemma framed_trans [trans]: "framed fin work u v \<Longrightarrow> framed fin work v w \<Longrightarrow> framed fin work u w"
  by (simp add: framed_def)

lemma framed_order: "reflp (framed fin work)" "transp (framed fin work)"
  by (auto intro!: reflpI transpI simp: framed_def)

lemma used_up_trans [trans]:
  "used_up fin work u v \<Longrightarrow> framed fin work v w \<Longrightarrow> used_up fin work u w"
  "framed fin work u v \<Longrightarrow> used_up fin work v w \<Longrightarrow> used_up fin work u w"
  by (auto simp: framed_def used_up_def)

section \<open>The conditions\<close>

text \<open>What the functions that set conditions leave alone, with an object in deletion.\<close>

definition kept :: "('w \<Rightarrow> string list) \<Rightarrow> ('w \<Rightarrow> nat) \<Rightarrow> 'p object \<Rightarrow> 'w rstate \<Rightarrow> 'p object \<Rightarrow> 'w rstate \<Rightarrow> bool" where
  "kept fin work i st i1 st1 \<longleftrightarrow> framed fin work (world st) (world st1) \<and>
     finalizers i1 = finalizers i \<and> deletionTimestamp i1 = deletionTimestamp i"

lemma kept_conditions:
  assumes "lifecycle_framed fin work l"
  shows "begin_conditions T l d n cs i st = Some (cs1, i1, st1) \<Longrightarrow> kept fin work i st i1 st1"
    and "done_conditions l d n sr cs i st = (cs1, i1, st1) \<Longrightarrow> kept fin work i st i1 st1"
    and "fail_conditions T l d n r e cs i st = Some (cs1, i1, st1) \<Longrightarrow> kept fin work i st i1 st1"
    and "init_conditions T l i st = Some (cs1, i1, st1) \<Longrightarrow> kept fin work i st i1 st1"
    and "\<not> time_is_zero (deletionTimestamp i) \<Longrightarrow> mark_end T l r cs i st = Some (cs1, i1, st1) \<Longrightarrow> kept fin work i st i1 st1"
proof -
  note W = within_conditions [OF assms framed_order]
  show "begin_conditions T l d n cs i st = Some (cs1, i1, st1) \<Longrightarrow> kept fin work i st i1 st1"
    unfolding kept_def using W(1) begin_conditions_frame by blast
  show "done_conditions l d n sr cs i st = (cs1, i1, st1) \<Longrightarrow> kept fin work i st i1 st1"
    unfolding kept_def using W(2) done_conditions_frame by blast
  show "fail_conditions T l d n r e cs i st = Some (cs1, i1, st1) \<Longrightarrow> kept fin work i st i1 st1"
    by (auto simp: kept_def dest: W(3) fail_conditions_frame)
  show "init_conditions T l i st = Some (cs1, i1, st1) \<Longrightarrow> kept fin work i st i1 st1"
    by (auto simp: kept_def dest: W(4) conditions_only(3))
  show "\<not> time_is_zero (deletionTimestamp i) \<Longrightarrow> mark_end T l r cs i st = Some (cs1, i1, st1) \<Longrightarrow> kept fin work i st i1 st1"
    unfolding kept_def using W(5) mark_end_frame by blast
qed

section \<open>One subroutine\<close>

lemma deletion_serverD:
  assumes "deletion_server cl L nn fin work"
  shows "cl_Get cl nn i w = (e, i1, w1) \<Longrightarrow>
        (case e of
           None \<Rightarrow> fin w \<noteq> [] \<and> finalizers i1 = fin w \<and> \<not> time_is_zero (deletionTimestamp i1) \<and> framed fin work w w1
         | Some x \<Rightarrow> if IsNotFound L x then fin w = [] \<and> framed fin work w w1 else used_up fin work w w1)"
    and "do_Patch cl ob orig st = (e, i1, st1) \<Longrightarrow>
        (case e of
           None \<Rightarrow> finalizers i1 = finalizers ob \<and> deletionTimestamp i1 = deletionTimestamp ob \<and>
             fin (world st1) = finalizers ob \<and> work (world st1) \<le> work (world st)
         | Some x \<Rightarrow> used_up fin work (world st) (world st1))"
    and "do_StatusUpdate cl ob st = (e, i1, st1) \<Longrightarrow>
        framed fin work (world st) (world st1) \<and> (e = None \<longrightarrow> deletionTimestamp i1 = deletionTimestamp ob)"
  using assms unfolding deletion_server_def do_Patch_def do_StatusUpdate_def
  by (auto split: prod.splits)

lemma drainsD:
  assumes "drains fin work s"
  shows "Terminate s = None" "Finalizers s i = Finalizers s j"
    and "Finalize s c i w = ((r, e), i1, w1) \<Longrightarrow> finalizers i1 = finalizers i \<and> deletionTimestamp i1 = deletionTimestamp i \<and>
        (e = None \<and> RequeueAfter r = 0 \<and> framed fin work w w1 \<or>
         used_up fin work w w1 \<and> (case e of None \<Rightarrow> RequeueAfter r > 0 | Some p \<Rightarrow> Retry p))"
  using assms unfolding drains_def by blast+

lemma drains_same:
  assumes "\<forall>s \<in> set ss. drains fin work s"
  shows "all_finalizers ss i = all_finalizers ss j"
proof -
  have "map (\<lambda>s. Finalizers s i) ss = map (\<lambda>s. Finalizers s j) ss"
    using assms by (intro map_cong refl) (rule drainsD(2), blast)
  then show ?thesis unfolding all_finalizers_def by (rule arg_cong)
qed

lemma remove_finalizers_kept:
  assumes "finalizer_laws L" "deletion_server cl L nn fin work" "fin (world st) = finalizers i"
    and "removeFinalizerIfNeeded cl L i s r False st = (e, i1, st1)"
  shows "case e of
      None \<Rightarrow> fin (world st1) = finalizers i1 \<and> deletionTimestamp i1 = deletionTimestamp i \<and> work (world st1) \<le> work (world st) \<and>
        finalizers i1 = (if RequeueAfter r = 0 then filter (\<lambda>f. f \<notin> set (Finalizers s i)) (finalizers i) else finalizers i)
    | Some p \<Rightarrow> used_up fin work (world st) (world st1) \<and> Retry p"
proof (cases "RequeueAfter r = 0")
  case False
  with assms(3,4) show ?thesis by (auto simp: removeFinalizerIfNeeded_def)
next
  case True
  let ?new = "i\<lparr>finalizers := filter (\<lambda>f. f \<notin> set (Finalizers s i)) (finalizers i)\<rparr>"
  note rf = remove_finalizers_spec [OF assms(1), of "Finalizers s i" i]
  obtain x i3 st3 where p: "do_Patch cl ?new i st = (x, i3, st3)" by (metis surj_pair)
  note d = deletion_serverD(2) [OF assms(2) p]
  show ?thesis
  proof (cases "set (Finalizers s i) \<inter> set (finalizers i) = {}")
    case False
    with True assms(4) p d show ?thesis
      by (cases x) (auto simp: removeFinalizerIfNeeded_def rf NewOperatorError_def Retry_def)
  next
    case none: True
    then have "filter (\<lambda>f. f \<notin> set (Finalizers s i)) (finalizers i) = finalizers i"
      by (auto simp: filter_id_conv)
    with True none assms(3,4) show ?thesis by (auto simp: removeFinalizerIfNeeded_def rf)
  qed
qed

text \<open>
  What one subroutine does with an object \<open>i\<close> in deletion whose finalizers are those of the server: it is
  done, asks for a requeue, or returns an error to be retried.
\<close>

lemma drain_one:
  assumes "finalizer_laws L" "deletion_server cl L nn fin work" "drains fin work s" "\<not> ReadOnly (lc_config l)"
    and del: "deletionTimestamp i \<noteq> None" and agree: "fin (world st) = finalizers i"
    and run: "reconcileSubroutine cl L l log c i s g st = ((r, retry, e), i1, st1)"
  shows "case e of
      None \<Rightarrow> fin (world st1) = finalizers i1 \<and> deletionTimestamp i1 = deletionTimestamp i \<and>
        (RequeueAfter r = 0 \<and> work (world st1) \<le> work (world st) \<and>
           finalizers i1 = filter (\<lambda>f. f \<notin> set (Finalizers s i)) (finalizers i) \<or>
         0 < RequeueAfter r \<and> work (world st1) < work (world st) \<and> finalizers i1 = finalizers i)
    | Some _ \<Rightarrow> retry \<and> used_up fin work (world st) (world st1)"
proof (cases "containsFinalizer L i (Finalizers s i)")
  case False
  then have "filter (\<lambda>f. f \<notin> set (Finalizers s i)) (finalizers i) = finalizers i"
    using containsFinalizer_iff [OF assms(1)] by (auto simp: filter_id_conv)
  then show ?thesis using False run del agree drainsD(1) [OF assms(3)]
    by (auto simp: reconcileSubroutine_def choose_action_def)
next
  case True
  let ?c = "SetLoggerInContext c (ChildLogger log ''subroutine'' (GetName s))"
  obtain re e2 i2 w2 where f: "Finalize s ?c i (world st) = ((re, e2), i2, w2)" by (metis surj_pair)
  note d = drainsD(3) [OF assms(3) f]
  have ch: "choose_action L i s = Some (DoFinalize, Finalize s)"
    using True del drainsD(1) [OF assms(3)] by (simp add: choose_action_def)
  let ?st2 = "emit (EvSub DoFinalize (GetName s)) (st\<lparr>world := w2\<rparr>)"
  show ?thesis
  proof (cases e2)
    case (Some p)
    then have u: "used_up fin work (world st) w2" "Retry p" using d by auto
    from Retry_has_Err [OF this(2)] obtain x where "Err p = Some x" ..
    then show ?thesis using run ch f Some u
      by (cases e) (auto simp: reconcileSubroutine_def run_chosen_def run_action_def report_def Let_def split: if_splits)
  next
    case None
    obtain e3 i3 st3 where rm: "removeFinalizerIfNeeded cl L i2 s re False ?st2 = (e3, i3, st3)" by (metis surj_pair)
    have "fin (world ?st2) = finalizers i2" using d agree by (auto simp: framed_def used_up_def)
    note k = remove_finalizers_kept [OF assms(1,2) this rm]
    have fs: "Finalizers s i2 = Finalizers s i" by (rule drainsD(2) [OF assms(3)])
    show ?thesis
    proof (cases e3)
      case e3: (Some p)
      with k d have u: "Retry p" "used_up fin work (world st) (world st3)" by (auto simp: framed_def used_up_def)
      from Retry_has_Err [OF this(1)] obtain x where "Err p = Some x" ..
      then show ?thesis using run ch f None rm e3 assms(4) u
        by (cases e) (auto simp: reconcileSubroutine_def run_chosen_def run_action_def report_def Let_def split: if_splits)
    next
      case e3: None
      then have "((r, retry, e), i1, st1) = ((re, False, None), i3, st3)" using run ch f None rm assms(4)
        by (auto simp: reconcileSubroutine_def run_chosen_def run_action_def Let_def)
      then show ?thesis using k e3 d None fs by (auto simp: framed_def used_up_def)
    qed
  qed
qed

section \<open>One reconciliation\<close>

text \<open>The finalizers the server has left, and the work that is left, at the end of the loop.\<close>

definition drained ::
  "('w \<Rightarrow> string list) \<Rightarrow> ('w \<Rightarrow> nat) \<Rightarrow> ('p, 'w) subroutine list \<Rightarrow> ctrl_result \<Rightarrow> 'p object \<Rightarrow> 'w rstate \<Rightarrow>
   ('p, 'w) loop_end \<Rightarrow> bool" where
  "drained fin work ss r i st out \<longleftrightarrow>
     (case out of
        LoopReturn r1 e1 i1 st1 \<Rightarrow> e1 \<noteq> None \<and> set (fin (world st1)) \<subseteq> set (finalizers i) \<and> work (world st1) < work (world st)
      | LoopDone r1 cs1 i1 st1 \<Rightarrow> deletionTimestamp i1 = deletionTimestamp i \<and> fin (world st1) = finalizers i1 \<and>
          set (finalizers i1) \<subseteq> set (finalizers i) \<and> work (world st1) \<le> work (world st) \<and>
          (if RequeueAfter r1 = 0
           then RequeueAfter r = 0 \<and> set (finalizers i1) \<inter> set (all_finalizers ss i) = {}
           else 0 < RequeueAfter r1 \<and> (0 < RequeueAfter r \<or> work (world st1) < work (world st))))"

lemma updateStatus_framed:
  assumes "deletion_server cl L nn fin work" "updateStatus cl L orig i g st = (x, i1, st1)"
  shows "framed fin work (world st) (world st1) \<and> (x = None \<longrightarrow> deletionTimestamp i1 = deletionTimestamp i)"
  using assms(2)
  by (auto simp: updateStatus_def dest: deletion_serverD(3) [OF assms(1)]
      split: sum.splits if_splits option.splits prod.splits)

lemma failed_drained:
  assumes "deletion_server cl L nn fin work" "lifecycle_framed fin work l"
    and "subroutine_failed cl L T l orig d n r sr True e cs i st = Some out"
  shows "\<exists>i1 st1. out = LoopReturn sr (Some e) i1 st1 \<and> framed fin work (world st) (world st1)"
  using assms(3)
proof (rule subroutine_failedE)
  fix cs1 i1 st1 cs2 i2 st2 x i' st'
  assume f: "fail_conditions T l d n r e cs i st = Some (cs1, i1, st1)"
    and e: "if True then (cs2, i2, st2) = (cs1, i1, st1) else MarkResourceAsFinal T l i1 cs1 ConditionFalse st1 = Some (cs2, i2, st2)"
    and u: "if ReadOnly (lc_config l) then (x, i', st') = (None, i2, st2) else updateStatus cl L orig i2 True st2 = (x, i', st')"
    and out: "out = LoopReturn (if True then sr else \<lparr>RequeueAfter = 0\<rparr>) (if True then Some e else None) i' st'"
  have "framed fin work (world st) (world st2)"
    using kept_conditions(3) [OF assms(2) f] e by (simp add: kept_def)
  moreover have "framed fin work (world st2) (world st')"
    using u updateStatus_framed [OF assms(1)] by (auto split: if_splits)
  ultimately show ?thesis using out by (auto intro: framed_trans)
qed

lemma drain_all:
  assumes laws: "finalizer_laws L" "deletion_server cl L nn fin work" "\<not> ReadOnly (lc_config l)" "lifecycle_framed fin work l"
  shows "\<forall>s \<in> set ss. drains fin work s \<Longrightarrow> deletionTimestamp i \<noteq> None \<Longrightarrow> fin (world st) = finalizers i \<Longrightarrow>
    0 \<le> RequeueAfter r \<Longrightarrow> process_subs cl L T l log c orig del ss r cs i st = Some out \<Longrightarrow>
    drained fin work ss r i st out"
proof (induction ss arbitrary: r cs i st)
  case Nil
  then show ?case by (auto simp: drained_def)
next
  case (Cons s ss)
  have dr: "drains fin work s" using Cons.prems(1) by simp
  from Cons.prems(5) show ?case
  proof (cases rule: process_subs_ConsE)
    case (failed cs1 i1 st1 sr retry e i2 st2 cs2)
    have k: "kept fin work i st i1 st1" using kept_conditions(1) [OF laws(4) failed(1)] .
    then have "deletionTimestamp i1 \<noteq> None" "fin (world st1) = finalizers i1"
      using Cons.prems(2,3) by (simp_all add: kept_def framed_def)
    from drain_one [OF laws(1,2) dr laws(3) this failed(2)] have u: "retry" "used_up fin work (world st1) (world st2)"
      by simp_all
    have "subroutine_failed cl L T l orig del (GetName s) r sr True e cs2 i2 st2 = Some out" using failed(4) u(1) by simp
    from failed_drained [OF laws(2,4) this] obtain i4 st4 where
      "out = LoopReturn sr (Some e) i4 st4" "framed fin work (world st2) (world st4)" by blast
    with u k Cons.prems(3) show ?thesis by (auto simp: drained_def kept_def framed_def used_up_def)
  next
    case (cont cs1 i1 st1 sr retry i2 st2 cs2 cs3 i3 st3)
    have k: "kept fin work i st i1 st1" using kept_conditions(1) [OF laws(4) cont(1)] .
    then have a: "deletionTimestamp i1 \<noteq> None" "fin (world st1) = finalizers i1"
      using Cons.prems(2,3) by (simp_all add: kept_def framed_def)
    note one = drain_one [OF laws(1,2) dr laws(3) a cont(2), simplified]
    have k3: "kept fin work i2 st2 i3 st3" using kept_conditions(2) [OF laws(4) cont(4)] .
    have "deletionTimestamp i3 \<noteq> None" "fin (world st3) = finalizers i3" "0 \<le> RequeueAfter (merge_requeue r sr)"
      using one k3 a Cons.prems(4) by (auto simp: kept_def framed_def merge_requeue_def)
    with Cons.IH [OF _ _ _ _ cont(5)] Cons.prems(1) have ih: "drained fin work ss (merge_requeue r sr) i3 st3 out" by simp
    have same: "Finalizers s i1 = Finalizers s i" "all_finalizers ss i3 = all_finalizers ss i"
      using Cons.prems(1) by (simp_all add: drainsD(2) [OF dr, of i1 i] drains_same [of ss fin work i3 i])
    have m: "RequeueAfter (merge_requeue r sr) = 0 \<longleftrightarrow> RequeueAfter r = 0 \<and> RequeueAfter sr = 0"
      "0 < RequeueAfter (merge_requeue r sr) \<longleftrightarrow> 0 < RequeueAfter r \<or> 0 < RequeueAfter sr"
      using one Cons.prems(4) by (auto simp: merge_requeue_def)
    have sub: "set (finalizers i3) \<subseteq> set (finalizers i)" "work (world st3) \<le> work (world st)"
      "0 < RequeueAfter sr \<Longrightarrow> work (world st3) < work (world st)"
      "RequeueAfter sr = 0 \<Longrightarrow> set (finalizers i3) \<inter> set (Finalizers s i) = {}"
      using one k k3 same by (auto simp: kept_def framed_def)
    show ?thesis
    proof (cases out)
      case (LoopReturn r1 e1 i4 st4)
      with ih sub(1,2) show ?thesis by (auto simp: drained_def)
    next
      case (LoopDone r1 cs4 i4 st4)
      have "deletionTimestamp i3 = deletionTimestamp i" using one k k3 by (simp add: kept_def)
      moreover have "all_finalizers (s # ss) i = Finalizers s i @ all_finalizers ss i" by simp
      ultimately show ?thesis using ih sub same m LoopDone by (auto simp: drained_def split: if_splits)
    qed
  qed
qed

text \<open>
  The outcome of a reconciliation: the object is released and \<open>Reconcile\<close> is not called again, or it is
  called again with less work left.
\<close>

definition progress ::
  "('w \<Rightarrow> string list) \<Rightarrow> ('w \<Rightarrow> nat) \<Rightarrow> 'w \<Rightarrow> ctrl_result \<times> goerror option \<Rightarrow> 'w \<Rightarrow> bool" where
  "progress fin work w ret w1 \<longleftrightarrow> set (fin w1) \<subseteq> set (fin w) \<and>
     (if snd ret = None \<and> \<not> RequeueAfter (fst ret) > 0 then fin w1 = [] else work w1 < work w)"

lemma finish_progress:
  assumes "deletion_server cl L nn fin work" "lifecycle_framed fin work l" "\<not> has_name (lc_terminator l)"
    and "\<not> time_is_zero (deletionTimestamp i)" and "fin (world st) = finalizers i" and "0 \<le> RequeueAfter r"
    and "RequeueAfter r = 0 \<longrightarrow> finalizers i = []"
    and "finish cl L T l orig True r cs i st = Some ((r1, e1), i1, st1)"
  shows "framed fin work (world st) (world st1) \<and> r1 = r \<and> (RequeueAfter r = 0 \<longrightarrow> e1 = None)"
proof -
  from assms(8) obtain cs2 i2 st2 where m: "mark_end T l r cs i st = Some (cs2, i2, st2)"
    by (auto simp: finish_def split: Option.bind_splits)
  have k: "kept fin work i st i2 st2" using kept_conditions(5) [OF assms(2,4) m] .
  have n: "drop_terminator cl L l True r i2 st2 = (None, i2, st2)" "drop_initializer cl L l True r i2 st2 = (None, i2, st2)"
    using assms(3) by (auto simp: drop_terminator_def drop_initializer_def has_name_def split: option.splits)
  from assms(8) m n obtain i4 where
    i4: "(case lc_conditions l of None \<Rightarrow> Some i2 | Some _ \<Rightarrow> set_conditions T cs2 i2) = Some i4"
    by (auto simp: finish_def split: Option.bind_splits)
  then have f4: "finalizers i4 = finalizers i" "deletionTimestamp i4 = deletionTimestamp i" using k
    by (auto simp: set_conditions_def kept_def split: option.splits Option.bind_splits if_splits)
  obtain e5 i5 st5 where fs: "final_status cl L l orig i4 st2 = (e5, i5, st5)" by (metis surj_pair)
  have w5: "framed fin work (world st2) (world st5)" "e5 = None \<Longrightarrow> deletionTimestamp i5 = deletionTimestamp i4" using fs updateStatus_framed [OF assms(1)]
    by (auto simp: final_status_def split: if_splits)
  have n5: "RequeueAfter r = 0 \<longrightarrow> e5 = None \<and> i5 = i4" using fs f4 assms(4,7)
    by (auto simp: final_status_def time_is_zero_def split: if_splits)
  have "((r1, e1), i1, st1) = (case e5 of Some e \<Rightarrow> ((r, Some e), i5, st5) | None \<Rightarrow> drop_refresh_label cl l r i5 st5)"
    using assms(8) m n i4 fs by (auto simp: finish_def split: option.splits)
  moreover have "drop_refresh_label cl l r i5 st5 = ((r, None), i5, st5)" if "e5 = None"
    using w5(2) that f4 assms(4) by (simp add: drop_refresh_label_def split: option.split)
  ultimately have "r1 = r" "e1 = e5" "st1 = st5" by (cases e5; simp)+
  moreover have "framed fin work (world st) (world st5)" using k w5(1) by (auto simp: kept_def intro: framed_trans)
  ultimately show ?thesis using n5 by blast
qed

lemma found_drains:
  assumes laws: "finalizer_laws L" "deletion_server cl L nn fin work" "\<not> ReadOnly (lc_config l)" "lifecycle_framed fin work l"
    and subs: "\<forall>s \<in> set (lc_subroutines l). drains fin work s" and "lc_prepare l = None" "\<not> has_name (lc_terminator l)"
    and "\<not> time_is_zero (deletionTimestamp i)" "fin (world st) = finalizers i"
    and "set (finalizers i) \<subseteq> set (all_finalizers (lc_subroutines l) i)"
    and "reconcile_found cl L T l log c i st = Some (ret, i1, st1)"
  shows "progress fin work (world st) ret (world st1)"
  using assms(11)
proof (cases rule: reconcile_found_cases)
  case skip
  with assms(8) show ?thesis by (auto simp: spread_check_def split: option.splits)
next
  case addfail
  with assms(8) show ?thesis by (auto simp: AddFinalizersIfNeeded_def split: if_splits)
next
  case prepfail
  with assms(6) show ?thesis by (simp add: prepare_context_def)
next
  case (run sta i2 stb cs i3 stc c1 i4 std)
  have w: "sta = st" "i2 = i" "stb = st" "i4 = i3" "std = stc" using run assms(6,8)
    by (auto simp: spread_check_def AddFinalizersIfNeeded_def prepare_context_def split: option.splits if_splits)
  have k: "kept fin work i st i3 stc" using kept_conditions(4) [OF laws(4) run(3)] by (simp add: w)
  have del: "deletionTimestamp i \<noteq> None" "deletionTimestamp i3 \<noteq> None" "fin (world stc) = finalizers i3"
    using assms(8,9) k by (auto simp: time_is_zero_def kept_def framed_def split: option.splits)
  let ?ss = "rev (lc_subroutines l)"
  from run(5) del(1) obtain out where
    p: "process_subs cl L T l log c1 i True ?ss \<lparr>RequeueAfter = 0\<rparr> cs i3 stc = Some out"
    by (auto simp: w run_subroutines_def execution_order_def Let_def split: Option.bind_splits)
  have d: "drained fin work ?ss \<lparr>RequeueAfter = 0\<rparr> i3 stc out"
    using drain_all [OF laws _ del(2,3) _ p] subs by simp
  have "set (all_finalizers ?ss i3) = set (all_finalizers (lc_subroutines l) i3)" by (auto simp: all_finalizers_def)
  then have all: "set (all_finalizers ?ss i3) = set (all_finalizers (lc_subroutines l) i)"
    unfolding drains_same [OF subs, of i3 i] .
  show ?thesis
  proof (cases out)
    case (LoopReturn r1 e1 j stj)
    with run(5) p del(1) have "ret = (r1, e1)" "st1 = stj"
      by (auto simp: w run_subroutines_def execution_order_def Let_def)
    with d LoopReturn k assms(9) show ?thesis by (auto simp: drained_def progress_def kept_def framed_def)
  next
    case (LoopDone r1 cs1 j stj)
    with run(5) p del(1) have f: "finish cl L T l i True r1 cs1 j stj = Some (ret, i1, st1)"
      by (auto simp: w run_subroutines_def execution_order_def Let_def)
    obtain r2 e2 where ret: "ret = (r2, e2)" by fastforce
    have j: "\<not> time_is_zero (deletionTimestamp j)" "fin (world stj) = finalizers j" "0 \<le> RequeueAfter r1"
      using d LoopDone k assms(8) by (auto simp: drained_def kept_def split: if_splits)
    have "finalizers j = []" if "RequeueAfter r1 = 0"
    proof -
      have "set (finalizers j) \<subseteq> set (finalizers i)" "set (finalizers j) \<inter> set (all_finalizers (lc_subroutines l) i) = {}"
        using d LoopDone that all k by (simp_all add: drained_def kept_def)
      then have "set (finalizers j) = {}" using assms(10) by (metis Int_absorb2 order_trans)
      then show ?thesis by simp
    qed
    with finish_progress [OF laws(2,4) assms(7) j _ f [unfolded ret]]
    have "framed fin work (world stj) (world st1)" "r2 = r1" "RequeueAfter r1 = 0 \<longrightarrow> e2 = None \<and> finalizers j = []" by auto
    with d LoopDone k j assms(9) ret show ?thesis
      by (auto simp: drained_def progress_def kept_def framed_def split: if_splits)
  qed
qed

lemma Reconcile_progress:
  assumes "finalizer_laws L" "deletion_server cl L nn fin work" "\<not> ReadOnly (lc_config l)" "lifecycle_framed fin work l"
    and subs: "\<forall>s \<in> set (lc_subroutines l). drains fin work s" and "lc_prepare l = None" "\<not> has_name (lc_terminator l)"
    and "set (fin (world st)) \<subseteq> set (all_finalizers (lc_subroutines l) i)"
    and "Reconcile cl L T l rid cluster c nn inst st = Some (ret, inst', st')"
  shows "progress fin work (world st) ret (world st')"
  using assms(9)
proof (cases rule: Reconcile_cases)
  case (notfound err st1)
  then have "cl_Get cl nn inst (world st) = (Some err, inst', world st1)" by (auto simp: do_Get_def split: prod.splits)
  from deletion_serverD(1) [OF assms(2) this] notfound show ?thesis by (auto simp: progress_def framed_def)
next
  case (geterror err st1)
  then have "cl_Get cl nn inst (world st) = (Some err, inst', world st1)" by (auto simp: do_Get_def split: prod.splits)
  from deletion_serverD(1) [OF assms(2) this] geterror show ?thesis by (auto simp: progress_def used_up_def)
next
  case (found log i0 st1 c1)
  then have "cl_Get cl nn inst (world st) = (None, i0, world st1)" by (auto simp: do_Get_def split: prod.splits)
  from deletion_serverD(1) [OF assms(2) this] have g: "finalizers i0 = fin (world st)"
    "\<not> time_is_zero (deletionTimestamp i0)" "framed fin work (world st) (world st1)" by simp_all
  have "all_finalizers (lc_subroutines l) i0 = all_finalizers (lc_subroutines l) i"
    by (rule drains_same [OF subs])
  then have "progress fin work (world st1) ret (world st')"
    using found_drains [OF assms(1-4) subs assms(6,7) g(2) _ _ found(3)] g assms(8) by (simp add: framed_def)
  with g(3) show ?thesis by (auto simp: progress_def framed_def split: if_splits)
qed

section \<open>Termination\<close>

text \<open>
  C5.  The deletion loop terminates: for a manager whose set-up accepts the object type, and an object in
  deletion whose finalizers all belong to the manager's subroutines, the requests end after at most one
  reconciliation more than there can be failures and requeues, without a panic and with the object released.
\<close>

theorem deletion_loop_terminates:
  assumes "ValidateInterfaces T l = None" and "lc_spreader l = None \<or>
      (lc_spreader l = Some (NewSpreader S) \<and> (\<forall>i. 2 * Minute \<le> reconcile_border T i))"
    and "finalizer_laws L" "deletion_server cl L nn fin work" "\<not> ReadOnly (lc_config l)" "lifecycle_framed fin work l"
    and "\<forall>s \<in> set (lc_subroutines l). drains fin work s" and "lc_prepare l = None" "\<not> has_name (lc_terminator l)"
    and "set (fin (world st)) \<subseteq> set (all_finalizers (lc_subroutines l) i)"
  shows "\<exists>m inst' st'. reconcile_until cl L T l rid cluster c nn n inst st = Some (m, inst', st') \<and>
    fin (world st') = [] \<and> m \<le> n + work (world st) + 1"
  using assms(10)
proof (induction "work (world st)" arbitrary: n inst st rule: less_induct)
  case less
  obtain r e inst1 st1 where rec: "Reconcile cl L T l rid cluster c nn inst st = Some ((r, e), inst1, st1)"
    using validated_no_panic [OF assms(1,2)] by (metis surj_pair)
  have p: "progress fin work (world st) (r, e) (world st1)"
    using Reconcile_progress [OF assms(3-9) less.prems rec] .
  show ?case
  proof (cases "e = None \<and> \<not> RequeueAfter r > 0")
    case True
    with p rec show ?thesis by (simp add: reconcile_until.simps progress_def)
  next
    case False
    with p have w: "work (world st1) < work (world st)" "set (fin (world st1)) \<subseteq> set (all_finalizers (lc_subroutines l) i)"
      using less.prems by (auto simp: progress_def split: if_splits)
    from less.hyps [OF this, of "Suc n" inst1] obtain m inst' st' where
      "reconcile_until cl L T l rid cluster c nn (Suc n) inst1 st1 = Some (m, inst', st')"
      "fin (world st') = []" "m \<le> Suc n + work (world st1) + 1" by blast
    with False rec w(1) show ?thesis by (subst reconcile_until.simps) (auto split: if_splits)
  qed
qed

text \<open>A server with one object, and a finalization that asks twice for more time.\<close>

definition deleting :: "string list \<Rightarrow> unit object" where
  "deleting fs = sample_object\<lparr>finalizers := fs, deletionTimestamp := Some 1\<rparr>"

definition one_object_client :: "(unit, string list \<times> nat) client" where
  "one_object_client = \<lparr>
     cl_Get = (\<lambda>n ob w. if fst w = [] then (Some (Foreign 404 ''not found''), ob, w) else (None, deleting (fst w), w)),
     cl_Patch = (\<lambda>ob orig w. (None, ob, (finalizers ob, snd w))),
     cl_StatusUpdate = (\<lambda>ob w. (None, ob, w)), cl_StatusPatch = (\<lambda>ob orig w. (None, ob, w))\<rparr>"

definition slow_sub :: "string \<Rightarrow> (unit, string list \<times> nat) subroutine" where
  "slow_sub n = (sample_sub n 0 None)\<lparr>Finalize := (\<lambda>c i w.
     if snd w > 0 then ((\<lparr>RequeueAfter = Second\<rparr>, None), i, (fst w, snd w - 1))
     else ((\<lparr>RequeueAfter = 0\<rparr>, None), i, w))\<rparr>"

lemma one_object_server: "deletion_server one_object_client ok_library request fst snd"
  by (auto simp: deletion_server_def one_object_client_def framed_def used_up_def deleting_def time_is_zero_def
      ok_library_def split: if_splits)

lemma slow_sub_drains: "drains fst snd (slow_sub n)"
  by (auto simp: drains_def slow_sub_def sample_sub_def framed_def used_up_def split: if_splits)

theorem deletion_loop_terminates_witness:
  "\<exists>m inst' st'. reconcile_until one_object_client ok_library sample_type
     (sample_lifecycle [slow_sub ''x'', slow_sub ''y''] False) ''r'' None Map.empty request 0 sample_object
     (start ([''x'', ''y''], 2)) = Some (m, inst', st') \<and> fst (world st') = [] \<and> m \<le> 3"
proof -
  let ?l = "sample_lifecycle [slow_sub ''x'', slow_sub ''y''] False"
  let ?st = "start ([''x'', ''y''], 2 :: nat)"
  have v: "ValidateInterfaces sample_type ?l = None" "lc_spreader ?l = None" "\<not> ReadOnly (lc_config ?l)"
    "lifecycle_framed fst snd ?l" "lc_prepare ?l = None" "\<not> has_name (lc_terminator ?l)"
    by (simp_all add: ValidateInterfaces_def conditions_within_def has_name_def sample_lifecycle_def)
  have d: "\<forall>s \<in> set (lc_subroutines ?l). drains fst snd s"
    by (simp add: sample_lifecycle_def slow_sub_drains)
  have f: "set (fst (world ?st)) \<subseteq> set (all_finalizers (lc_subroutines ?l) sample_object)"
    by (simp add: sample_lifecycle_def start_def slow_sub_def sample_sub_def)
  have "world ?st = ([''x'', ''y''], 2)" by (simp add: start_def)
  with deletion_loop_terminates [OF v(1) disjI1 [OF v(2)] ok_library_laws one_object_server v(3,4) d v(5,6) f,
      of "''r''" None Map.empty 0 sample_object] show ?thesis by (simp add: numeral_3_eq_3)
qed

end
