(* ===== verification/Lifecycle_Names.thy ===== *)
theory Lifecycle_Names
  imports Lifecycle_Runs
begin

text \<open>
  Initializers and terminators: the manager's initializer is removed from the status of an object only when
  all subroutines have succeeded, and it is removed then; the same order for its terminator.
\<close>

section \<open>Order\<close>

text \<open>A subroutine that does not put an object into deletion.\<close>

definition keeps_alive :: "('p, 'w) subroutine \<Rightarrow> bool" where
  "keeps_alive s \<longleftrightarrow>
     (\<forall>c i w. deletionTimestamp (fst (snd (Process s c i w))) = deletionTimestamp i) \<and>
     (\<forall>f c i w. Initialize s = Some f \<longrightarrow> deletionTimestamp (fst (snd (f c i w))) = deletionTimestamp i)"

definition status_patch_events :: "event set" where
  "status_patch_events = {EvStatusPatch ts is |ts is. True}"

lemma status_patch_simps [simp]:
  "EvStatusPatch ts is \<in> status_patch_events" "EvGet \<notin> status_patch_events" "EvPatch fs \<notin> status_patch_events"
  "EvStatusUpdate cs \<notin> status_patch_events" "EvSub a n \<notin> status_patch_events" "EvPrepare \<notin> status_patch_events"
  "EvSentry e \<notin> status_patch_events"
  by (simp_all add: status_patch_events_def)














section \<open>Completion\<close>

text \<open>The unstructured conversion, as for the terminators.\<close>

definition initializer_laws :: "('p, 'u) library \<Rightarrow> bool" where
  "initializer_laws L \<longleftrightarrow>
     (\<forall>i. \<exists>u. ToUnstructured L i = Inr u \<and>
        nested_slice L u [''status'', ''initializers''] (initializers i) \<and>
        (\<forall>xs. \<exists>u'. SetNestedStringSlice L u xs [''status'', ''initializers''] = Inr u' \<and>
                   FromUnstructured L u' i = Inr (i\<lparr>initializers := xs\<rparr>)))"

lemma ok_library_initializers: "initializer_laws ok_library"
  by (simp add: initializer_laws_def nested_slice_def ok_library_def)

text \<open>The object in memory and that of the server have the same initializers.\<close>

definition listed :: "('w \<Rightarrow> 'p object option) \<Rightarrow> 'w \<Rightarrow> 'p object \<Rightarrow> string list \<Rightarrow> bool" where
  "listed stored w i ns \<longleftrightarrow> initializers i = ns \<and> deletionTimestamp i = None \<and>
     (\<exists>s. stored w = Some s \<and> initializers s = ns \<and> deletionTimestamp s = None)"

lemma listed_steady:
  "listed stored w i ns \<Longrightarrow> steady stored clk w w1 \<Longrightarrow> initializers j = initializers i \<Longrightarrow>
   deletionTimestamp j = deletionTimestamp i \<Longrightarrow> listed stored w1 j ns"
  by (auto simp: listed_def steady_def)

lemma removeInitializer_stored:
  assumes "initializer_laws L" "api_server cl L nn stored clk" "n \<noteq> []" and "listed stored (world st) i ns"
    and "removeInitializer i cl L n st = (e, i1, st1)"
  shows "e = None \<and> listed stored (world st1) i1 (filter (\<lambda>x. x \<noteq> n) ns) \<and>
    trace st1 = trace st @ (if n \<in> set ns then [EvStatusPatch (terminators i) (filter (\<lambda>x. x \<noteq> n) ns)] else [])"
proof -
  let ?new = "filter (\<lambda>x. x \<noteq> n) ns"
  have ns: "initializers i = ns" "deletionTimestamp i = None" using assms(4) by (simp_all add: listed_def)
  from assms(1) obtain u where u: "ToUnstructured L i = Inr u"
    "nested_slice L u [''status'', ''initializers''] (initializers i)"
    and set: "\<And>xs. \<exists>u'. SetNestedStringSlice L u xs [''status'', ''initializers''] = Inr u' \<and>
                   FromUnstructured L u' i = Inr (i\<lparr>initializers := xs\<rparr>)"
    unfolding initializer_laws_def by blast
  show ?thesis
  proof (cases "n \<in> set ns")
    case True
    let ?ob = "i\<lparr>initializers := ?new\<rparr>"
    from set [of ?new] obtain u' where u': "SetNestedStringSlice L u ?new [''status'', ''initializers''] = Inr u'"
      "FromUnstructured L u' i = Inr ?ob" by blast
    have "length ?new < length ns" using True by (intro length_filter_less [of n]) auto
    then have ne: "ns \<noteq> []" "length ?new \<noteq> length ns" "?new \<noteq> ns" by auto
    obtain x j s1 where p: "do_StatusPatch cl ?ob i st = (x, j, s1)" by (metis surj_pair)
    obtain s where s: "stored (world st) = Some s" "initializers s = ns" "deletionTimestamp s = None"
      using assms(4) by (auto simp: listed_def)
    from server_writes(3) [OF assms(2) s(1) p] obtain a where a: "x = None" "status_patched ?ob i s a"
      "answered stored clk ?ob a (world st) j (world s1)" by blast
    from a(2) ns ne(3) have f: "initializers a = ?new" "deletionTimestamp a = None"
      using s(3) by (auto simp: status_patched_def merge_status_def)
    have d: "decoded ?ob a j" "stored (world s1) = Some a" using a(3) f(2) by (simp_all add: answered_def kept_object_def)
    have "listed stored (world s1) j ?new"
      using decoded_same(4,5) [OF d(1)] d(2) f ns by (simp add: listed_def)
    moreover have "(e, i1, st1) = (None, j, s1)"
      using assms(3,5) u u' p a(1) ne(1,2) ns
      by (simp add: removeInitializer_def removeStatusEntry_def nested_slice_def Let_def)
    ultimately show ?thesis using True do_trace(4) [OF p] by simp
  next
    case False
    then have "?new = ns" by (simp add: filter_id_conv) metis
    with False assms(3-5) u ns show ?thesis
      by (auto simp: removeInitializer_def removeStatusEntry_def nested_slice_def Let_def split: if_splits)
  qed
qed

lemma final_status_listed:
  assumes "api_server cl L nn stored clk" "listed stored (world st) i ns"
    and "final_status cl L l orig i st = (e, i1, st1)"
  shows "listed stored (world st1) i1 ns"
proof -
  obtain s where s: "stored (world st) = Some s" "initializers s = ns" "deletionTimestamp s = None"
    "initializers i = ns" "deletionTimestamp i = None" using assms(2) by (auto simp: listed_def)
  obtain x j s1 where d: "do_StatusUpdate cl i st = (x, j, s1)" by (metis surj_pair)
  from server_writes(2) [OF assms(1) s(1) d] obtain a where a: "x = None" "status_updated i s a"
    "answered stored clk i a (world st) j (world s1)" by blast
  from a(2) s have f: "initializers a = ns" "deletionTimestamp a = None" by (auto simp: status_updated_def new_status_def)
  then have "listed stored (world s1) j ns"
    using a(3) decoded_same(4,5) [of i a j] s(4,5) by (auto simp: answered_def listed_def kept_object_def)
  with assms(2,3) d a(1) show ?thesis by (auto simp: final_status_def updateStatus_def split: if_splits sum.splits)
qed

lemma finish_initialized:
  assumes "initializer_laws L" "api_server cl L nn stored clk" "conditions_within (steady stored clk) l"
    and "lc_initializer l = Some n" "n \<noteq> []" "lc_spreader l = None" and "listed stored (world st) i ns"
    and "finish cl L T l orig False \<lparr>RequeueAfter = 0\<rparr> cs i st = Some (ret, i1, st1)"
  shows "fst ret = \<lparr>RequeueAfter = 0\<rparr> \<and> listed stored (world st1) i1 (filter (\<lambda>x. x \<noteq> n) ns) \<and>
    (n \<in> set ns \<longrightarrow> (\<exists>ts. EvStatusPatch ts (filter (\<lambda>x. x \<noteq> n) ns) \<in> set (trace st1)))"
proof -
  from assms(8) obtain cs2 i2 st2 where m: "mark_end T l \<lparr>RequeueAfter = 0\<rparr> cs i st = Some (cs2, i2, st2)"
    by (auto simp: finish_def split: Option.bind_splits)
  then have i2: "initializers i2 = initializers i" "deletionTimestamp i2 = deletionTimestamp i" using assms(6)
    by (auto simp: mark_end_def MarkResourceAsFinal_def write_through_def Let_def split: option.splits prod.splits)
  have 2: "listed stored (world st2) i2 ns"
    using listed_steady [OF assms(7) steady_conditions(4) [OF assms(3) disjI1 [OF assms(6)] m] i2] .
  have t: "drop_terminator cl L l False \<lparr>RequeueAfter = 0\<rparr> i2 st2 = (None, i2, st2)"
    by (simp add: drop_terminator_def split: option.split)
  obtain e3 i3 st3 where r: "removeInitializer i2 cl L n st2 = (e3, i3, st3)" by (metis surj_pair)
  note ri = removeInitializer_stored [OF assms(1,2,5) 2 r]
  have n: "drop_initializer cl L l False \<lparr>RequeueAfter = 0\<rparr> i2 st2 = (None, i3, st3)"
    using r ri assms(4,5) by (simp add: drop_initializer_def)
  from assms(8) m t n obtain i4 where
    i4: "(case lc_conditions l of None \<Rightarrow> Some i3 | Some _ \<Rightarrow> set_conditions T cs2 i3) = Some i4"
    by (auto simp: finish_def split: Option.bind_splits)
  then have "initializers i4 = initializers i3" "deletionTimestamp i4 = deletionTimestamp i3"
    by (auto simp: set_conditions_def split: option.splits Option.bind_splits if_splits)
  then have 4: "listed stored (world st3) i4 (filter (\<lambda>x. x \<noteq> n) ns)" using ri by (simp add: listed_def)
  obtain e5 i5 st5 where fs: "final_status cl L l orig i4 st3 = (e5, i5, st5)" by (metis surj_pair)
  from final_status_adds [OF fs] obtain evs where "trace st5 = trace st3 @ evs" by (auto simp: adds_def)
  moreover have "fst ret = \<lparr>RequeueAfter = 0\<rparr> \<and> i1 = i5 \<and> st1 = st5"
    using assms(6,8) m t n i4 fs by (cases e5) (auto simp: finish_def drop_refresh_label_def)
  ultimately show ?thesis using ri final_status_listed [OF assms(2) 4 fs] by auto
qed

text \<open>
  C9.  Initialization completes: when the server accepts the requests and every subroutine is done at once,
  one reconciliation of an object that is not in deletion, in read-only mode too, removes the manager's
  initializer and no other, in memory and on the server, and tells the server so with a status patch; it
  asks for no requeue.  The manager has neither spreader nor prepare function.
\<close>

theorem initialization_completes:
  assumes "api_server cl L nn stored clk" "finalizer_laws L" "own_finalizers (lc_subroutines l)" "initializer_laws L"
    and "conditions_within (steady stored clk) l"
    and "\<forall>s \<in> set (lc_subroutines l). done_at_once initializers stored clk s" and "lc_prepare l = None" "lc_spreader l = None"
    and "lc_initializer l = Some n" "n \<noteq> []"
    and "blank inst" and "cl_Get cl nn inst (world st) = (None, inst1, w1)" "deletionTimestamp inst1 = None"
    and "Reconcile cl L T l rid cluster c nn inst st = Some (ret, inst', st')"
  shows "fst ret = \<lparr>RequeueAfter = 0\<rparr> \<and> initializers inst' = filter (\<lambda>x. x \<noteq> n) (initializers inst1) \<and>
    (\<exists>s. stored (world st') = Some s \<and> initializers s = initializers inst') \<and>
    (n \<in> set (initializers inst1) \<longrightarrow> (\<exists>ts. EvStatusPatch ts (initializers inst') \<in> set (trace st')))"
  using assms(14)
proof (cases rule: Reconcile_cases)
  case (found log i0 st1 c1)
  then have g: "i0 = inst1" "world st1 = w1" using assms(12) by (auto simp: do_Get_def)
  obtain s where s: "stored (world st) = Some s" "decoded inst s inst1" "steady stored clk (world st) w1"
    using server_Get [OF assms(1,12)] .
  then have s1: "stored (world st1) = Some s" "agree s inst1"
    using g(2) decoded_blank [OF s(2) assms(11)] by (simp_all add: steady_def)
  have sp: "spread_check T l inst1 st1 = Some (None, st1)" using assms(8) by (simp add: spread_check_def)
  obtain cs j st2 s2 where r: "run_subroutines cl L T l log c1 inst1 cs j st2 = Some (ret, inst', st')"
    "stored (world st2) = Some s2" "agree s2 j" "initializers j = initializers inst1" "deletionTimestamp j = None"
    by (rule found_alive [OF found(3) [unfolded g(1)] assms(1-3,13,7,5) sp steady_refl s1])
  from r(1) assms(13) obtain out where
    p: "process_subs cl L T l log c1 inst1 False (lc_subroutines l) \<lparr>RequeueAfter = 0\<rparr> cs j st2 = Some out"
    by (auto simp: run_subroutines_def execution_order_def Let_def split: Option.bind_splits)
  obtain cs1 i1 st3 where o: "out = LoopDone \<lparr>RequeueAfter = 0\<rparr> cs1 i1 st3" "deletionTimestamp i1 = None"
    "initializers i1 = initializers j" "steady stored clk (world st2) (world st3)"
    using done_all [OF _ assms(5,6) r(5) p] by auto
  have f: "finish cl L T l inst1 False \<lparr>RequeueAfter = 0\<rparr> cs1 i1 st3 = Some (ret, inst', st')"
    using r(1) p o(1) assms(13) by (simp add: run_subroutines_def execution_order_def Let_def)
  have "listed stored (world st3) i1 (initializers inst1)"
    using r(2-5) o(2-4) by (auto simp: listed_def steady_def agree_def)
  from finish_initialized [OF assms(4,1,5,9,10,8) this f] show ?thesis by (auto simp: listed_def)
qed (use assms(12) in \<open>simp_all add: do_Get_def\<close>)

section \<open>Witnesses\<close>

definition initializing_lifecycle :: "bool \<Rightarrow> (unit, unit served) lifecycle" where
  "initializing_lifecycle ro = (sample_lifecycle [sample_sub ''x'' 0 None, sample_sub ''y'' 0 None] ro)\<lparr>lc_initializer := Some ''n''\<rparr>"

definition new_object :: "unit object" where
  "new_object = sample_object\<lparr>initializers := [''n'', ''other'']\<rparr>"

lemma initializing_run:
  "Reconcile served_client ok_library sample_type (initializing_lifecycle True) ''r'' None Map.empty request unread
     (start (Some new_object, 0)) =
   Some ((\<lparr>RequeueAfter = 0\<rparr>, None), new_object\<lparr>initializers := [''other'']\<rparr>,
     \<lparr>world = (Some (new_object\<lparr>initializers := [''other'']\<rparr>), 0),
      trace = [EvGet, EvSub DoProcess ''x'', EvSub DoProcess ''y'', EvStatusPatch [] [''other'']]\<rparr>)"
  by (simp add: lifecycle_defs sample_defs initializing_lifecycle_def new_object_def removeInitializer_def
      removeStatusEntry_def do_StatusPatch_def Let_def served_client_def respond_def merge_status_def kept_object_def)

lemma initializing_setup:
  "own_finalizers (lc_subroutines (initializing_lifecycle ro))" "lc_prepare (initializing_lifecycle ro) = None"
  "lc_spreader (initializing_lifecycle ro) = None" "lc_initializer (initializing_lifecycle ro) = Some ''n''"
  "\<forall>s \<in> set (lc_subroutines (initializing_lifecycle ro)). keeps_alive s"
  "\<forall>s \<in> set (lc_subroutines (initializing_lifecycle ro)). done_at_once initializers fst snd s"
  "conditions_within (steady fst snd) (initializing_lifecycle ro)"
  "cl_Get served_client request unread (world (start (Some new_object, 0))) = (None, new_object, (Some new_object, 0))"
  "deletionTimestamp new_object = None" "blank unread"
  by (simp_all add: own_finalizers_def initializing_lifecycle_def sample_lifecycle_def sample_sub_def keeps_alive_def
      done_at_once_def completes_def conditions_within_def served_client_def start_def new_object_def sample_object_def
      unread_def blank_def)






theorem initialization_completes_witness:
  "''n'' \<in> set (initializers new_object) \<and>
   (\<exists>ts. EvStatusPatch ts [''other''] \<in>
      set [EvGet, EvSub DoProcess ''x'', EvSub DoProcess ''y'', EvStatusPatch [] [''other'']])"
proof -
  from initialization_completes [OF served_client_server ok_library_laws initializing_setup(1) ok_library_initializers
      initializing_setup(7,6,2,3,4) _ initializing_setup(10,8,9) initializing_run]
  show ?thesis by (simp add: new_object_def)
qed

end
