(* ===== verification/Lifecycle_Status.thy ===== *)
theory Lifecycle_Status
  imports Lifecycle_Conditions
begin

text \<open>
  What the status of an object says about its subroutines: the conditions the loop leaves behind, what a
  status update says when \<open>Ready\<close> is \<open>True\<close>, and the conditions that are lost on the way.
\<close>

section \<open>Subroutines that leave the status to the lifecycle\<close>

definition action_keeps :: "('p, 'w) action \<Rightarrow> bool" where
  "action_keeps f \<longleftrightarrow> (\<forall>c i w. conditions (fst (snd (f c i w))) = conditions i \<and>
     deletionTimestamp (fst (snd (f c i w))) = deletionTimestamp i)"

definition keeps_status :: "('p, 'w) subroutine \<Rightarrow> bool" where
  "keeps_status s \<longleftrightarrow> action_keeps (Process s) \<and> (\<forall>f. Initialize s = Some f \<longrightarrow> action_keeps f)"

lemma run_chosen_keeps:
  assumes "action_keeps f" "a \<in> {DoProcess, DoInitialize}" "run_chosen cl L l c i s a f st = (r, i', st')"
  shows "conditions i' = conditions i \<and> deletionTimestamp i' = deletionTimestamp i"
proof -
  obtain x y z w where f: "f c i (world st) = ((x, y), z, w)" by (metis surj_pair)
  with assms(1) have "conditions z = conditions i \<and> deletionTimestamp z = deletionTimestamp i"
    unfolding action_keeps_def by (metis fst_conv snd_conv)
  then show ?thesis using assms(2,3) f by (auto simp: run_chosen_def run_action_def)
qed

lemma reconcileSubroutine_keeps:
  assumes "deletionTimestamp i = None" "keeps_status s"
    and "reconcileSubroutine cl L l log c i s g st = (x, i', st')"
  shows "conditions i' = conditions i \<and> deletionTimestamp i' = None"
proof -
  obtain a f where a: "choose_action L i s = Some (a, f)" "a \<in> {DoProcess, DoInitialize}" "action_keeps f"
    using assms(1,2) by (cases "Initialize s") (auto simp: choose_action_def keeps_status_def Let_def)
  obtain r i1 st1 where r: "run_chosen cl L l (SetLoggerInContext c (ChildLogger log ''subroutine'' (GetName s))) i s a f st = (r, i1, st1)"
    by (metis surj_pair)
  have "i' = i1" using assms(3) a(1) r by (cases r) (auto simp: reconcileSubroutine_def split: option.splits)
  then show ?thesis using run_chosen_keeps [OF a(3,2) r] assms(1) by simp
qed

section \<open>The conditions after the loop\<close>

text \<open>
  What the condition of a subroutine says that has returned a delay, given what the conditions said
  before: \<open>True\<close> without one, else what was there, and \<open>Unknown\<close> when nothing was.
\<close>

definition progress :: "condition list \<Rightarrow> string \<Rightarrow> duration \<Rightarrow> cond_status option" where
  "progress cs t d =
     (if d = 0 then Some ConditionTrue
      else case status_of cs t of None \<Rightarrow> Some ConditionUnknown | Some x \<Rightarrow> Some x)"

lemma progress_cong: "cond_lookup cs t = cond_lookup ds t \<Longrightarrow> progress cs t d = progress ds t d"
  by (simp add: progress_def status_of_def)

context condition_contract
begin

lemma begin_progress:
  assumes "lib" "lc_conditions l = Some cm" "begin_conditions T l del n cs i st = Some (cs1, i1, st1)"
  shows "conditions i1 = cs1 \<and> (\<forall>t. t \<noteq> sub_name n del \<longrightarrow> cond_lookup cs1 t = cond_lookup cs t) \<and>
    status_of cs1 (sub_name n del) =
      (case status_of cs (sub_name n del) of None \<Rightarrow> Some ConditionUnknown | Some x \<Rightarrow> Some x)"
proof -
  from assms(2,3) obtain b w' where
    u: "SetSubroutineConditionToUnknownIfNotSet cm cs (generation i) n del (world st) = (b, cs1, w')"
    and c: "conditions i1 = cs1"
    by (auto simp: begin_conditions_def set_conditions_def Let_def split: prod.splits Option.bind_splits)
  show ?thesis
  proof (cases "cond_lookup cs (sub_name n del) = None")
    case True
    with sub_unknown [OF assms(1) u] obtain x where x: "cs1 = put_condition x cs" "cond_type x = sub_name n del"
      "cond_status x = ConditionUnknown" by blast
    with True c show ?thesis by (auto simp: status_of_def)
  next
    case False
    with sub_unknown [OF assms(1) u] have "cs1 = cs" by blast
    with False c show ?thesis by (auto simp: status_of_def)
  qed
qed

lemma done_progress:
  assumes "lib" "lc_conditions l = Some cm" "done_conditions l del n sr cs i st = (cs1, i1, st1)"
  shows "(\<forall>t. t \<noteq> sub_name n del \<longrightarrow> cond_lookup cs1 t = cond_lookup cs t) \<and>
    status_of cs1 (sub_name n del) = (if RequeueAfter sr = 0 then Some ConditionTrue else status_of cs (sub_name n del))"
proof (cases "RequeueAfter sr = 0")
  case True
  with assms(2,3) obtain b w' where
    u: "SetSubroutineCondition cm cs (generation i) n sr None del (world st) = (b, cs1, w')"
    by (auto simp: done_conditions_def split: prod.splits)
  from sub_put [OF assms(1) u] True show ?thesis by auto
next
  case False
  with assms(2,3) show ?thesis by (simp add: done_conditions_def)
qed

lemma step_progress:
  assumes "lib" "lc_conditions l = Some cm" "begin_conditions T l del n cs i st = Some (cs1, i1, st1)"
    and "conditions i2 = conditions i1" "after_action T l cs1 i2 = Some cs2"
    and "done_conditions l del n sr cs2 i2 st2 = (cs3, i3, st3)"
  shows "status_of cs3 (sub_name n del) = progress cs (sub_name n del) (RequeueAfter sr)"
    and "t \<noteq> sub_name n del \<Longrightarrow> cond_lookup cs3 t = cond_lookup cs t"
proof -
  note b = begin_progress [OF assms(1-3)]
  have "cs2 = cs1"
    using b assms(2,4,5) by (auto simp: after_action_def get_conditions_def split: Option.bind_splits)
  note d = done_progress [OF assms(1,2,6)] this
  show "status_of cs3 (sub_name n del) = progress cs (sub_name n del) (RequeueAfter sr)"
    using b d by (simp add: progress_def)
  show "cond_lookup cs3 t = cond_lookup cs t" if "t \<noteq> sub_name n del" using b d that by simp
qed

lemma loop_progress:
  assumes "lib" "lc_conditions l = Some cm"
  shows "process_subs cl L T l log c orig del ss r cs i st = Some (LoopDone r' cs' i' st') \<Longrightarrow>
    deletionTimestamp i = None \<Longrightarrow> \<forall>s \<in> set ss. keeps_status s \<Longrightarrow>
    distinct (map (\<lambda>s. sub_name (GetName s) del) ss) \<Longrightarrow>
    \<exists>os. list_all2 (outcome_of cl L l log c) ss os \<and> (\<forall>x \<in> set os. snd (snd x) = None) \<and>
      outcome_spec r os = Inl r' \<and>
      (\<forall>(s, x) \<in> set (zip ss os). status_of cs' (sub_name (GetName s) del) =
         progress cs (sub_name (GetName s) del) (RequeueAfter (fst x))) \<and>
      (\<forall>t. t \<notin> (\<lambda>s. sub_name (GetName s) del) ` set ss \<longrightarrow> cond_lookup cs' t = cond_lookup cs t)"
proof (induction ss arbitrary: r cs i st)
  case Nil
  then show ?case by (intro exI [of _ "[]"]) simp
next
  case (Cons s ss)
  from Cons.prems(1) show ?case
  proof (cases rule: process_subs_ConsE)
    case (failed cs1 i1 st1 sr retry e i2 st2 cs2)
    from subroutine_failed_value [OF failed(4)] show ?thesis by auto
  next
    case (cont cs1 i1 st1 sr retry i2 st2 cs2 cs3 i3 st3)
    let ?n = "\<lambda>s. sub_name (GetName s) del"
    have "deletionTimestamp i1 = None" using begin_conditions_frame [OF cont(1)] Cons.prems(2) by simp
    with reconcileSubroutine_keeps [OF this _ cont(2)] Cons.prems(3)
    have k: "conditions i2 = conditions i1" "deletionTimestamp i2 = None" by simp_all
    note st = step_progress [OF assms cont(1) k(1) cont(3,4)]
    have "deletionTimestamp i3 = None" using done_conditions_frame [OF cont(4)] k(2) by simp
    from Cons.IH [OF cont(5) this] Cons.prems(3,4) obtain os where
      os: "list_all2 (outcome_of cl L l log c) ss os" "\<forall>x \<in> set os. snd (snd x) = None"
        "outcome_spec (merge_requeue r sr) os = Inl r'" and
      p: "\<forall>(s, x) \<in> set (zip ss os). status_of cs' (?n s) = progress cs3 (?n s) (RequeueAfter (fst x))" and
      f: "\<forall>t. t \<notin> ?n ` set ss \<longrightarrow> cond_lookup cs' t = cond_lookup cs3 t" by auto
    have new: "?n s \<notin> ?n ` set ss" using Cons.prems(4) by auto
    have same: "progress cs3 (?n z) d = progress cs (?n z) d" if "z \<in> set ss" for z d
    proof (rule progress_cong, rule st(2))
      have "?n z \<in> ?n ` set ss" using that by (rule imageI)
      with new show "?n z \<noteq> ?n s" by metis
    qed
    have "outcome_of cl L l log c s (sr, retry, None)"
      using cont(2) unfolding outcome_of_def by (metis fst_conv)
    moreover have "status_of cs' (?n s) = progress cs (?n s) (RequeueAfter sr)"
      using f new st(1) by (simp add: status_of_def)
    moreover have "\<forall>(z, x) \<in> set (zip ss os). status_of cs' (?n z) = progress cs (?n z) (RequeueAfter (fst x))"
    proof (rule ballI, unfold split_beta)
      fix y assume y: "y \<in> set (zip ss os)"
      then have "(fst y, snd y) \<in> set (zip ss os)" by simp
      then have "fst y \<in> set ss" by (rule set_zip_leftD)
      with bspec [OF p y] same show "status_of cs' (?n (fst y)) = progress cs (?n (fst y)) (RequeueAfter (fst (snd y)))"
        by (simp add: split_beta)
    qed
    ultimately show ?thesis using os f st(2)
      by (intro exI [of _ "(sr, retry, None) # os"]) simp
  qed
qed

lemma loop_failed:
  assumes "lib" "lc_conditions l = Some cm" and spr: "\<forall>sp. lc_spreader l = Some sp \<longrightarrow> spread_contract sp"
  shows "process_subs cl L T l log c orig del ss r cs i st = Some (LoopReturn r' e' i' st') \<Longrightarrow>
    deletionTimestamp i = None \<Longrightarrow> \<forall>s \<in> set ss. keeps_status s \<Longrightarrow>
    distinct (map (\<lambda>s. sub_name (GetName s) del) ss) \<Longrightarrow>
    trace st' = trace st @ evs \<Longrightarrow> EvStatusUpdate ds \<in> set evs \<Longrightarrow>
    \<exists>pre s post os x. ss = pre @ s # post \<and> list_all2 (outcome_of cl L l log c) pre os \<and>
      (\<forall>y \<in> set os. snd (snd y) = None) \<and> outcome_of cl L l log c s x \<and> snd (snd x) \<noteq> None \<and>
      (\<forall>(z, y) \<in> set (zip pre os). status_of ds (sub_name (GetName z) del) =
         progress cs (sub_name (GetName z) del) (RequeueAfter (fst y))) \<and>
      status_of ds (sub_name (GetName s) del) = Some ConditionFalse \<and>
      (\<forall>z \<in> set post. status_of ds (sub_name (GetName z) del) = status_of cs (sub_name (GetName z) del)) \<and>
      (\<forall>t. t \<noteq> ConditionReady \<longrightarrow> t \<notin> (\<lambda>s. sub_name (GetName s) del) ` set ss \<longrightarrow> status_of ds t = status_of cs t)"
proof (induction ss arbitrary: r cs i st evs)
  case Nil
  then show ?case by simp
next
  case (Cons s ss)
  let ?n = "\<lambda>s. sub_name (GetName s) del"
  have new: "?n s \<notin> ?n ` set ss" using Cons.prems(4) by auto
  have neq: "?n z \<noteq> ?n s" if "z \<in> set ss" for z
  proof
    assume "?n z = ?n s"
    with new imageI [OF that, of ?n] show False by metis
  qed
  have kept: "conditions i2 = conditions i1 \<and> deletionTimestamp i2 = None"
    if "begin_conditions T l del (GetName s) cs i st = Some (cs1, i1, st1)"
      "reconcileSubroutine cl L l log c i1 s True st1 = (x, i2, st2)" for cs1 i1 st1 x i2 st2
    using reconcileSubroutine_keeps [OF _ _ that(2)] begin_conditions_frame [OF that(1)] Cons.prems(2,3) by simp
  from Cons.prems(1) show ?case
  proof (cases rule: process_subs_ConsE)
    case (failed cs1 i1 st1 sr retry e i2 st2 cs2)
    note b = begin_progress [OF assms(1,2) failed(1)]
    have cs2: "cs2 = cs1" using b kept [OF failed(1,2)] assms(2) failed(3)
      by (auto simp: after_action_def get_conditions_def split: Option.bind_splits)
    obtain fs where fs: "trace st2 = trace st1 @ fs" "set fs \<subseteq> - range EvStatusUpdate"
      using reconcileSubroutine_no_update [OF failed(2)] by (auto simp: adds_def)
    obtain gs where gs: "trace st' = trace st2 @ gs"
      using subroutine_failed_adds [OF failed(4)] by (auto simp: adds_def)
    from gs fs begin_conditions_frame [OF failed(1)] Cons.prems(5) have "evs = fs @ gs" by simp
    with Cons.prems(6) fs have "EvStatusUpdate ds \<in> set gs" by auto
    with failed_status_updates [OF assms failed(4), of gs ds] gs
    have f: "status_of ds (?n s) = Some ConditionFalse"
      "\<And>t. t \<noteq> ConditionReady \<Longrightarrow> t \<noteq> ?n s \<Longrightarrow> status_of ds t = status_of cs t"
      using b cs2 by (simp_all add: status_of_def)
    have o: "outcome_of cl L l log c s (sr, retry, Some e)"
      using failed(2) unfolding outcome_of_def by (metis fst_conv)
    show ?thesis
      by (rule exI [of _ "[]"], rule exI [of _ s], rule exI [of _ ss], rule exI [of _ "[]"],
          rule exI [of _ "(sr, retry, Some e)"])
        (use f o neq sub_not_ready in auto)
  next
    case (cont cs1 i1 st1 sr retry i2 st2 cs2 cs3 i3 st3)
    note k = kept [OF cont(1,2)]
    note sp = step_progress [OF assms(1,2) cont(1) conjunct1 [OF k] cont(3,4)]
    have del: "deletionTimestamp i3 = None" using done_conditions_frame [OF cont(4)] k by simp
    obtain fs where fs: "trace st2 = trace st1 @ fs" "set fs \<subseteq> - range EvStatusUpdate"
      using reconcileSubroutine_no_update [OF cont(2)] by (auto simp: adds_def)
    obtain gs where gs: "trace st' = trace st3 @ gs" using process_subs_order [OF cont(5)] by auto
    from gs fs begin_conditions_frame [OF cont(1)] done_conditions_frame [OF cont(4)] Cons.prems(5)
    have "evs = fs @ gs" by simp
    with Cons.prems(6) fs have "EvStatusUpdate ds \<in> set gs" by auto
    from Cons.IH [OF cont(5) del _ _ gs this] Cons.prems(3,4) obtain pre s' post os x where
      ih: "ss = pre @ s' # post" "list_all2 (outcome_of cl L l log c) pre os" "\<forall>y \<in> set os. snd (snd y) = None"
        "outcome_of cl L l log c s' x" "snd (snd x) \<noteq> None" and
      p: "\<forall>(z, y) \<in> set (zip pre os). status_of ds (?n z) = progress cs3 (?n z) (RequeueAfter (fst y))" and
      q: "status_of ds (?n s') = Some ConditionFalse" and
      po: "\<forall>z \<in> set post. status_of ds (?n z) = status_of cs3 (?n z)" and
      fr: "\<forall>t. t \<noteq> ConditionReady \<longrightarrow> t \<notin> ?n ` set ss \<longrightarrow> status_of ds t = status_of cs3 t" by auto
    have same: "cond_lookup cs3 (?n z) = cond_lookup cs (?n z)" if "z \<in> set ss" for z
      using sp(2) neq [OF that] by blast
    have "status_of ds (?n s) = progress cs (?n s) (RequeueAfter sr)"
      using fr new sub_not_ready sp(1) by simp
    moreover have "\<forall>(z, y) \<in> set (zip pre os). status_of ds (?n z) = progress cs (?n z) (RequeueAfter (fst y))"
    proof (rule ballI, unfold split_beta)
      fix y assume y: "y \<in> set (zip pre os)"
      then have "(fst y, snd y) \<in> set (zip pre os)" by simp
      then have "fst y \<in> set pre" by (rule set_zip_leftD)
      then have "fst y \<in> set ss" using ih(1) by simp
      with bspec [OF p y] progress_cong [OF same] show "status_of ds (?n (fst y)) = progress cs (?n (fst y)) (RequeueAfter (fst (snd y)))"
        by (simp add: split_beta)
    qed
    moreover have "outcome_of cl L l log c s (sr, retry, None)"
      using cont(2) unfolding outcome_of_def by (metis fst_conv)
    moreover have "\<forall>z \<in> set post. status_of ds (?n z) = status_of cs (?n z)"
      using po same ih(1) by (simp add: status_of_def)
    moreover have "\<forall>t. t \<noteq> ConditionReady \<longrightarrow> t \<notin> ?n ` set (s # ss) \<longrightarrow> status_of ds t = status_of cs t"
      using fr sp(2) by (simp add: status_of_def)
    ultimately show ?thesis using ih q
      by (intro exI [of _ "s # pre"] exI [of _ s'] exI [of _ post] exI [of _ "(sr, retry, None) # os"] exI [of _ x]) simp
  qed
qed

end

section \<open>What a status update says\<close>









section \<open>Conditions that are lost\<close>

text \<open>
  In deletion the finalizers are removed by a patch, which updates the object with the content the API
  server returns.  The conditions of this reconciliation are not stored yet, so the returned ones replace
  them, and the loop reads its slice back from the object: after the finalizers of \<open>x\<close> and \<open>y\<close>, of which
  \<open>y\<close> runs first, the status update shows nothing about \<open>y\<close>.
\<close>

definition storing_client :: "condition list \<Rightarrow> ('p, 'w) client" where
  "storing_client stored = ok_client\<lparr>cl_Patch := (\<lambda>ob orig w. (None, ob\<lparr>conditions := stored\<rparr>, w))\<rparr>"

lemma patch_loses_conditions:
  "\<exists>ds i' st'. run_subroutines (storing_client [ready_unknown]) ok_library sample_type
       (managed_lifecycle [sample_sub ''x'' 0 None, sample_sub ''y'' 0 None]) \<lparr>log_level = 0, log_fields = []\<rparr> Map.empty
       (deleted_object\<lparr>finalizers := [''x'', ''y'', ''z'']\<rparr>) [ready_unknown]
       (deleted_object\<lparr>finalizers := [''x'', ''y'', ''z'']\<rparr>) (start 0) =
     Some ((\<lparr>RequeueAfter = 0\<rparr>, None), i', st') \<and>
     trace st' = trace (start (0::int)) @ [EvSub DoFinalize ''y'', EvPatch [''x'', ''z''], EvSub DoFinalize ''x'',
       EvPatch [''z''], EvStatusUpdate ds] \<and>
     status_of ds (subroutine_condition ''x'' True) = Some ConditionTrue \<and>
     status_of ds (subroutine_condition ''y'' True) = None"
  by (simp add: storing_client_def deleted_object_def subroutine_condition_def managed_defs status_of_def)

end
