(* ===== verification/RateLimiter.thy ===== *)
theory RateLimiter
  imports Prelude
begin

text \<open>
  The rate limiter of the controllers' work queue, \<open>controller/lifecycle/ratelimiter\<close>: its
  configuration (\<open>config.go\<close>) and the static-then-exponential limiter (\<open>static_exponential.go\<close>).
  client-go's item limiter is a parameter; \<open>rate_limiter\<close> is the interface \<open>TypedRateLimiter\<close> with
  what the code relies on.  The last section runs \<open>When\<close> and \<open>Forget\<close> concurrently, one step per
  lock section.
\<close>

section \<open>Configuration\<close>

record rl_config =
  StaticRequeueDelay :: duration
  StaticWindow :: duration
  ExponentialInitialBackoff :: duration
  ExponentialMaxBackoff :: duration

definition defaultConfig :: rl_config where
  "defaultConfig = \<lparr>StaticRequeueDelay = 2 * Second, StaticWindow = 60 * Second,
     ExponentialInitialBackoff = 2 * Second, ExponentialMaxBackoff = 1000 * Second\<rparr>"

definition validate :: "rl_config \<Rightarrow> goerror option" where
  "validate c =
     (if StaticRequeueDelay c < 0 then
        Some (ErrorString ''the static requeue delay shouldn't be negative'')
      else if ExponentialInitialBackoff c < 0 then
        Some (ErrorString ''the initial exponential backoff shouldn't be negative'')
      else if StaticRequeueDelay c > ExponentialInitialBackoff c then
        Some (ErrorString ''the initial exponential backoff should be equal to or greater than the static requeue delay'')
      else if StaticWindow c < StaticRequeueDelay c then
        Some (ErrorString ''the static window duration should be equal to or greater than the static requeue delay'')
      else None)"

type_synonym rl_option = "rl_config \<Rightarrow> rl_config"

definition WithStaticWindow :: "duration \<Rightarrow> rl_option" where
  "WithStaticWindow d c = c\<lparr>StaticWindow := d\<rparr>"

definition WithRequeueDelay :: "duration \<Rightarrow> rl_option" where
  "WithRequeueDelay d c = c\<lparr>StaticRequeueDelay := d\<rparr>"

definition WithExponentialInitialBackoff :: "duration \<Rightarrow> rl_option" where
  "WithExponentialInitialBackoff d c = c\<lparr>ExponentialInitialBackoff := d\<rparr>"

definition WithExponentialMaxBackoff :: "duration \<Rightarrow> rl_option" where
  "WithExponentialMaxBackoff d c = c\<lparr>ExponentialMaxBackoff := d\<rparr>"

definition NewConfig :: "rl_option list \<Rightarrow> rl_config" where
  "NewConfig options = fold (\<lambda>opt cfg. opt cfg) options defaultConfig"

section \<open>The limiter\<close>

text \<open>\<open>workqueue.TypedRateLimiter\<close> over items \<open>'t\<close> and a limiter state \<open>'e\<close>.\<close>

record ('t, 'e) typed_rate_limiter =
  When_of :: "'t \<Rightarrow> 'e \<Rightarrow> duration \<times> 'e"
  Forget_of :: "'t \<Rightarrow> 'e \<Rightarrow> 'e"
  NumRequeues_of :: "'t \<Rightarrow> 'e \<Rightarrow> int"

record ('t, 'e) static_limiter =
  staticAttempts :: "'t \<Rightarrow> gotime option"
  staticDelay :: duration
  staticWindow :: duration
  exponential :: 'e

definition NewStaticThenExponentialRateLimiter ::
  "(duration \<Rightarrow> duration \<Rightarrow> 'e) \<Rightarrow> rl_config \<Rightarrow> goerror + ('t, 'e) static_limiter" where
  "NewStaticThenExponentialRateLimiter newItemLimiter cfg =
     (case validate cfg of
        Some err \<Rightarrow> Inl err
      | None \<Rightarrow> Inr \<lparr>staticAttempts = Map.empty, staticDelay = StaticRequeueDelay cfg,
          staticWindow = StaticWindow cfg,
          exponential = newItemLimiter (ExponentialInitialBackoff cfg) (ExponentialMaxBackoff cfg)\<rparr>)"

text \<open>\<open>now\<close> is the reading of the clock at the start of the call.\<close>

definition When ::
  "('t, 'e) typed_rate_limiter \<Rightarrow> gotime \<Rightarrow> 't \<Rightarrow> ('t, 'e) static_limiter \<Rightarrow> duration \<times> ('t, 'e) static_limiter" where
  "When E now item r =
     (case staticAttempts r item of
        None \<Rightarrow> (staticDelay r, r\<lparr>staticAttempts := (staticAttempts r)(item \<mapsto> now)\<rparr>)
      | Some first \<Rightarrow>
          let timeSinceFirst = time_sub now first
          in if timeSinceFirst \<le> staticWindow r then (staticDelay r, r)
             else (let (d, e) = When_of E item (exponential r) in (d, r\<lparr>exponential := e\<rparr>)))"

definition Forget ::
  "('t, 'e) typed_rate_limiter \<Rightarrow> 't \<Rightarrow> ('t, 'e) static_limiter \<Rightarrow> ('t, 'e) static_limiter" where
  "Forget E item r =
     r\<lparr>staticAttempts := (staticAttempts r)(item := None), exponential := Forget_of E item (exponential r)\<rparr>"

definition NumRequeues ::
  "('t, 'e) typed_rate_limiter \<Rightarrow> 't \<Rightarrow> ('t, 'e) static_limiter \<Rightarrow> int" where
  "NumRequeues E item r = NumRequeues_of E item (exponential r)"

section \<open>The interface\<close>

text \<open>
  What the work queue may rely on: items do not interfere, forgetting an item resets it, and the
  count of an item grows by at most one per call.  \<open>lawful\<close> is the assumption on the limiter below.
\<close>

locale rate_limiter =
  fixes when_op :: "'t \<Rightarrow> 's \<Rightarrow> duration \<times> 's"
    and forget_op :: "'t \<Rightarrow> 's \<Rightarrow> 's"
    and requeues_of :: "'t \<Rightarrow> 's \<Rightarrow> int"
    and lawful :: bool
  assumes when_count: "lawful \<Longrightarrow> when_op x s = (d, s') \<Longrightarrow> requeues_of x s \<le> requeues_of x s' \<and> requeues_of x s' \<le> requeues_of x s + 1"
    and when_other: "lawful \<Longrightarrow> when_op x s = (d, s') \<Longrightarrow> y \<noteq> x \<Longrightarrow> requeues_of y s' = requeues_of y s"
    and forget_count: "lawful \<Longrightarrow> requeues_of x (forget_op x s) = 0"
    and forget_other: "lawful \<Longrightarrow> y \<noteq> x \<Longrightarrow> requeues_of y (forget_op x s) = requeues_of y s"
begin

fun whens :: "'t list \<Rightarrow> 's \<Rightarrow> 's" where
  "whens [] s = s"
| "whens (x # xs) s = whens xs (snd (when_op x s))"

lemma whens_count:
  "lawful \<Longrightarrow> requeues_of x s \<le> requeues_of x (whens xs s) \<and>
   requeues_of x (whens xs s) \<le> requeues_of x s + int (count_list xs x)"
proof (induction xs arbitrary: s)
  case (Cons y ys)
  obtain d s' where w: "when_op y s = (d, s')" by fastforce
  from Cons.IH [OF Cons.prems, of s'] when_count [OF Cons.prems w] when_other [OF Cons.prems w, of x] w
  show ?case by (cases "x = y") auto
qed simp

lemma forget_bound:
  "lawful \<Longrightarrow> requeues_of x (whens xs (forget_op x s)) \<le> int (count_list xs x)"
  using whens_count [of x "forget_op x s" xs] forget_count [of x s] by simp

end

text \<open>client-go's documentation of the item limiter.\<close>

definition limiter_laws :: "('t, 'e) typed_rate_limiter \<Rightarrow> bool" where
  "limiter_laws E \<longleftrightarrow>
     (\<forall>x e. NumRequeues_of E x (snd (When_of E x e)) = NumRequeues_of E x e + 1) \<and>
     (\<forall>x y e. y \<noteq> x \<longrightarrow> NumRequeues_of E y (snd (When_of E x e)) = NumRequeues_of E y e) \<and>
     (\<forall>x e. NumRequeues_of E x (Forget_of E x e) = 0) \<and>
     (\<forall>x y e. y \<noteq> x \<longrightarrow> NumRequeues_of E y (Forget_of E x e) = NumRequeues_of E y e)"

lemma limiter_lawsD:
  assumes "limiter_laws E"
  shows "NumRequeues_of E x (Forget_of E x e) = 0"
    "y \<noteq> x \<Longrightarrow> NumRequeues_of E y (Forget_of E x e) = NumRequeues_of E y e"
  using assms by (simp_all add: limiter_laws_def)

lemma limiter_laws_When:
  assumes "limiter_laws E" "When_of E x e = (d, e')"
  shows "NumRequeues_of E x e' = NumRequeues_of E x e + 1"
    "y \<noteq> x \<Longrightarrow> NumRequeues_of E y e' = NumRequeues_of E y e"
proof -
  have e': "e' = snd (When_of E x e)" by (simp add: assms(2))
  show "NumRequeues_of E x e' = NumRequeues_of E x e + 1"
    "y \<noteq> x \<Longrightarrow> NumRequeues_of E y e' = NumRequeues_of E y e"
    using assms(1) unfolding e' by (simp_all add: limiter_laws_def)
qed

interpretation below: rate_limiter "When_of E" "Forget_of E" "NumRequeues_of E" "limiter_laws E" for E
  by unfold_locales (simp_all add: limiter_lawsD limiter_laws_When)

lemma When_cases:
  assumes "When E now x r = (d, r')"
  obtains (first) "staticAttempts r x = None" "d = staticDelay r"
      "r' = r\<lparr>staticAttempts := (staticAttempts r)(x \<mapsto> now)\<rparr>"
    | (static) t where "staticAttempts r x = Some t" "time_sub now t \<le> staticWindow r" "d = staticDelay r" "r' = r"
    | (exponential) t e where "staticAttempts r x = Some t" "time_sub now t > staticWindow r"
      "When_of E x (exponential r) = (d, e)" "r' = r\<lparr>exponential := e\<rparr>"
proof (cases "staticAttempts r x")
  case None
  with assms show ?thesis by (intro first) (simp_all add: When_def)
next
  case (Some t)
  show ?thesis
  proof (cases "time_sub now t \<le> staticWindow r")
    case True
    with assms Some show ?thesis by (intro static [of t]) (auto simp: When_def)
  next
    case False
    obtain d' e where "When_of E x (exponential r) = (d', e)" by fastforce
    with assms Some False show ?thesis by (intro exponential) (auto simp: When_def)
  qed
qed

interpretation stat: rate_limiter "When E now" "Forget E" "NumRequeues E" "limiter_laws E" for E now
proof unfold_locales
  fix x y s d s'
  assume l: "limiter_laws E"
  note b = below.when_count [OF l] below.when_other [OF l]
  show "NumRequeues E x (Forget E x s) = 0" "y \<noteq> x \<Longrightarrow> NumRequeues E y (Forget E x s) = NumRequeues E y s"
    using l by (simp_all add: NumRequeues_def Forget_def limiter_laws_def)
  assume w: "When E now x s = (d, s')"
  then show "NumRequeues E x s \<le> NumRequeues E x s' \<and> NumRequeues E x s' \<le> NumRequeues E x s + 1"
    by (cases rule: When_cases) (auto simp: NumRequeues_def dest: b(1))
  show "NumRequeues E y s' = NumRequeues E y s" if "y \<noteq> x"
    using w that by (cases rule: When_cases) (auto simp: NumRequeues_def dest: b(2))
qed

section \<open>Properties\<close>

lemma validate_iff:
  "validate c = None \<longleftrightarrow> 0 \<le> StaticRequeueDelay c \<and> StaticRequeueDelay c \<le> ExponentialInitialBackoff c \<and>
     StaticRequeueDelay c \<le> StaticWindow c"
  by (auto simp: validate_def)

text \<open>A run of failures of one item: the delays it is given.\<close>

fun delays :: "('t, 'e) typed_rate_limiter \<Rightarrow> 't \<Rightarrow> gotime list \<Rightarrow> ('t, 'e) static_limiter \<Rightarrow> duration list" where
  "delays E item [] r = []"
| "delays E item (t # ts) r = (let (d, r') = When E t item r in d # delays E item ts r')"

fun item_delays :: "('t, 'e) typed_rate_limiter \<Rightarrow> 't \<Rightarrow> nat \<Rightarrow> 'e \<Rightarrow> duration list" where
  "item_delays E item 0 e = []"
| "item_delays E item (Suc n) e = (let (d, e') = When_of E item e in d # item_delays E item n e')"

lemma delays_started:
  assumes "staticAttempts r x = Some t0" "sorted ts"
    and w: "0 \<le> staticWindow r" "staticWindow r < 2 ^ 63 - 1"
  shows "delays E x ts r =
     replicate (length (filter (\<lambda>t. t \<le> t0 + staticWindow r) ts)) (staticDelay r) @
     item_delays E x (length (filter (\<lambda>t. \<not> t \<le> t0 + staticWindow r) ts)) (exponential r)"
  using assms
proof (induction ts arbitrary: r)
  case (Cons t ts)
  show ?case
  proof (cases "t \<le> t0 + staticWindow r")
    case True
    then have "When E t x r = (staticDelay r, r)"
      using Cons.prems by (simp add: When_def time_sub_le_iff)
    with Cons True show ?thesis by simp
  next
    case False
    obtain d e where e: "When_of E x (exponential r) = (d, e)" by fastforce
    with False have w: "When E t x r = (d, r\<lparr>exponential := e\<rparr>)"
      using Cons.prems by (simp add: When_def time_sub_le_iff)
    have "filter (\<lambda>t. t \<le> t0 + staticWindow r) ts = []"
      using False Cons.prems(2) by (auto simp: filter_empty_conv)
    with Cons.IH [of "r\<lparr>exponential := e\<rparr>"] Cons.prems False w e show ?thesis by simp
  qed
qed simp

text \<open>
  C15.  Static, then exponential: for an item without a recorded attempt that fails at the times
  \<open>t0, ts\<close> (in order), every failure up to the end of the window after \<open>t0\<close> is given the static
  delay, and the later ones exactly the delays a fresh run of the item limiter gives, whose state the
  static phase has not touched.
\<close>

theorem static_then_exponential:
  assumes "staticAttempts r item = None" and "sorted (t0 # ts)"
    and "0 \<le> staticWindow r" and "staticWindow r < 2 ^ 63 - 1"
  shows "delays E item (t0 # ts) r =
     replicate (length (filter (\<lambda>t. t \<le> t0 + staticWindow r) (t0 # ts))) (staticDelay r) @
     item_delays E item (length (filter (\<lambda>t. t0 + staticWindow r < t) ts)) (exponential r)"
proof -
  let ?r = "r\<lparr>staticAttempts := (staticAttempts r)(item \<mapsto> t0)\<rparr>"
  have "delays E item (t0 # ts) r = staticDelay r # delays E item ts ?r"
    using assms(1) by (simp add: When_def)
  also have "delays E item ts ?r = replicate (length (filter (\<lambda>t. t \<le> t0 + staticWindow r) ts)) (staticDelay r) @
     item_delays E item (length (filter (\<lambda>t. \<not> t \<le> t0 + staticWindow r) ts)) (exponential r)"
    using delays_started [of ?r item t0 ts E] assms(2-4) by simp
  finally show ?thesis using assms(3) by (simp add: not_le)
qed

text \<open>A limiter that counts and doubles up to a bound, as an instance of the parameter.\<close>

definition doubling :: "duration \<Rightarrow> duration \<Rightarrow> ('t, 't \<Rightarrow> nat) typed_rate_limiter" where
  "doubling base cap = \<lparr>When_of = (\<lambda>x e. (min cap (base * 2 ^ e x), e(x := e x + 1))),
     Forget_of = (\<lambda>x e. e(x := 0)), NumRequeues_of = (\<lambda>x e. int (e x))\<rparr>"

lemma doubling_laws: "limiter_laws (doubling base cap)"
  by (simp add: limiter_laws_def doubling_def)

definition sample_limiter :: "(nat, nat \<Rightarrow> nat) static_limiter" where
  "sample_limiter = \<lparr>staticAttempts = Map.empty, staticDelay = 2, staticWindow = 10, exponential = (\<lambda>_. 0)\<rparr>"

theorem static_then_exponential_witness:
  "delays (doubling 3 20) 7 [100, 104, 110, 111, 130, 140, 150] sample_limiter = [2, 2, 2, 3, 6, 12, 20]"
  by (subst static_then_exponential) (simp_all add: sample_limiter_def doubling_def)

text \<open>
  An accepted configuration gives a limiter with no recorded attempt whose static delay is not
  negative and at most the window and the first exponential backoff; every other configuration is
  refused with an error.  \<open>ExponentialMaxBackoff\<close> is not looked at: it may be below the others.
\<close>

theorem NewStaticThenExponentialRateLimiter_spec:
  "case NewStaticThenExponentialRateLimiter newItemLimiter cfg of
     Inr r \<Rightarrow> staticAttempts r = Map.empty \<and> 0 \<le> staticDelay r \<and> staticDelay r \<le> staticWindow r \<and>
       staticDelay r \<le> ExponentialInitialBackoff cfg \<and>
       exponential r = newItemLimiter (ExponentialInitialBackoff cfg) (ExponentialMaxBackoff cfg)
   | Inl err \<Rightarrow> StaticRequeueDelay cfg < 0 \<or> ExponentialInitialBackoff cfg < StaticRequeueDelay cfg \<or>
       StaticWindow cfg < StaticRequeueDelay cfg"
proof (cases "validate cfg")
  case None
  then show ?thesis using validate_iff [of cfg] by (simp add: NewStaticThenExponentialRateLimiter_def)
next
  case (Some e)
  then have "validate cfg \<noteq> None" by simp
  then show ?thesis using validate_iff [of cfg] Some
    by (auto simp: NewStaticThenExponentialRateLimiter_def)
qed

lemma defaultConfig_valid: "validate (NewConfig []) = None"
  by (simp add: NewConfig_def defaultConfig_def validate_def)

text \<open>
  Success resets an item: after \<open>Forget\<close> and any calls for other items, the item has no
  requeues and its next failure gets the static delay and starts a new window.
\<close>

theorem Forget_resets:
  assumes "limiter_laws E" and "item \<notin> set others"
    and "r' = stat.whens E now others (Forget E item r)"
  shows "NumRequeues E item r' = 0 \<and> fst (When E t item r') = staticDelay r \<and>
    staticAttempts (snd (When E t item r')) item = Some t"
proof -
  have frame: "staticAttempts (stat.whens E now xs s) item = None \<and> staticDelay (stat.whens E now xs s) = staticDelay s"
    if "item \<notin> set xs" "staticAttempts s item = None" for xs s
    using that
  proof (induction xs arbitrary: s)
    case (Cons x xs)
    obtain d s' where w: "When E now x s = (d, s')" by fastforce
    then have "staticAttempts s' item = None \<and> staticDelay s' = staticDelay s"
      using Cons.prems by (cases rule: When_cases) auto
    with Cons w show ?case by simp
  qed simp
  have f: "staticAttempts r' item = None" "staticDelay r' = staticDelay r"
    using frame [OF assms(2), of "Forget E item r"] assms(3) by (simp_all add: Forget_def)
  then have g: "fst (When E t item r') = staticDelay r \<and> staticAttempts (snd (When E t item r')) item = Some t"
    by (simp add: When_def)
  from stat.whens_count [OF assms(1), of item "Forget E item r" now others]
    stat.forget_count [OF assms(1), of item r] assms(2,3)
  have "NumRequeues E item r' = 0" by (simp add: count_list_0_iff)
  with g show ?thesis by simp
qed

theorem Forget_resets_witness:
  "fst (When (doubling 3 20) 500 7 (stat.whens (doubling 3 20) 400 [8, 9]
      (Forget (doubling 3 20) 7 (sample_limiter\<lparr>staticAttempts := [7 \<mapsto> 100]\<rparr>)))) = 2"
  using Forget_resets [OF doubling_laws, of 7 "[8, 9]" _ 3 20 400 "sample_limiter\<lparr>staticAttempts := [7 \<mapsto> 100]\<rparr>" 500]
  by (simp add: sample_limiter_def)

section \<open>Concurrent calls\<close>

text \<open>
  The workers call the limiter concurrently.  A \<open>When\<close> takes four steps: it reads the clock, reads
  the attempt under the read lock, decides, and records the attempt under the write lock or calls
  the item limiter.  Between the steps the others run: two first failures of an item may both find no
  attempt, and an attempt may be younger than the reader's own clock value.  Every step has a label, so
  that a run has a history.
\<close>

datatype 't pc =
    Idle
  | GotNow 't gotime
  | GotFirst 't gotime "gotime option"
  | ToExponential 't
  | Returned 't duration

record ('t, 'e) system =
  clock :: gotime
  lim :: "('t, 'e) static_limiter"
  pcs :: "nat \<Rightarrow> 't pc"

datatype 't label =
    Tick
  | Called nat 't gotime
  | Loaded nat 't "gotime option"
  | Stored nat 't gotime
  | Internal nat
  | Forgot 't

inductive sys_step ::
  "('t, 'e) typed_rate_limiter \<Rightarrow> ('t, 'e) system \<Rightarrow> 't label \<Rightarrow> ('t, 'e) system \<Rightarrow> bool"
  for E where
  tick: "t \<ge> clock s \<Longrightarrow> sys_step E s Tick (s\<lparr>clock := t\<rparr>)"
| now: "pcs s p = Idle \<Longrightarrow> sys_step E s (Called p x (clock s)) (s\<lparr>pcs := (pcs s)(p := GotNow x (clock s))\<rparr>)"
| load: "pcs s p = GotNow x n \<Longrightarrow> sys_step E s (Loaded p x (staticAttempts (lim s) x))
    (s\<lparr>pcs := (pcs s)(p := GotFirst x n (staticAttempts (lim s) x))\<rparr>)"
| store: "pcs s p = GotFirst x n None \<Longrightarrow> sys_step E s (Stored p x n)
    (s\<lparr>lim := (lim s)\<lparr>staticAttempts := (staticAttempts (lim s))(x \<mapsto> n)\<rparr>,
      pcs := (pcs s)(p := Returned x (staticDelay (lim s)))\<rparr>)"
| static: "pcs s p = GotFirst x n (Some f) \<Longrightarrow> time_sub n f \<le> staticWindow (lim s) \<Longrightarrow>
    sys_step E s (Internal p) (s\<lparr>pcs := (pcs s)(p := Returned x (staticDelay (lim s)))\<rparr>)"
| late: "pcs s p = GotFirst x n (Some f) \<Longrightarrow> time_sub n f > staticWindow (lim s) \<Longrightarrow>
    sys_step E s (Internal p) (s\<lparr>pcs := (pcs s)(p := ToExponential x)\<rparr>)"
| backoff: "pcs s p = ToExponential x \<Longrightarrow> When_of E x (exponential (lim s)) = (d, e) \<Longrightarrow>
    sys_step E s (Internal p) (s\<lparr>lim := (lim s)\<lparr>exponential := e\<rparr>, pcs := (pcs s)(p := Returned x d)\<rparr>)"
| return: "pcs s p = Returned x d \<Longrightarrow> sys_step E s (Internal p) (s\<lparr>pcs := (pcs s)(p := Idle)\<rparr>)"
| forget: "pcs s p = Idle \<Longrightarrow> sys_step E s (Forgot x) (s\<lparr>lim := Forget E x (lim s)\<rparr>)"

text \<open>\<open>h\<close> is the history of the run so far, in the order of the steps.\<close>

inductive reach ::
  "('t, 'e) typed_rate_limiter \<Rightarrow> ('t, 'e) system \<Rightarrow> 't label list \<Rightarrow> ('t, 'e) system \<Rightarrow> bool"
  for E s0 where
  start: "reach E s0 [] s0"
| next_step: "reach E s0 h s \<Longrightarrow> sys_step E s l s' \<Longrightarrow> reach E s0 (h @ [l]) s'"

definition initial_system :: "gotime \<Rightarrow> ('t, 'e) static_limiter \<Rightarrow> ('t, 'e) system" where
  "initial_system t0 r = \<lparr>clock = t0, lim = r, pcs = (\<lambda>_. Idle)\<rparr>"

text \<open>
  \<open>h\<close> ends with the episode of an item that began with a failure at clock reading \<open>f\<close>: a call for the
  item read \<open>f\<close> and recorded it, and since then nobody recorded another attempt or forgot the item.
\<close>

definition episode :: "'t label list \<Rightarrow> 't \<Rightarrow> gotime \<Rightarrow> bool" where
  "episode h x f \<longleftrightarrow> (\<exists>h1 q h2. h = h1 @ Stored q x f # h2 \<and> Called q x f \<in> set h1 \<and>
     Forgot x \<notin> set h2 \<and> (\<forall>q' f'. Stored q' x f' \<notin> set h2))"

lemma episode_snoc: "episode h x f \<Longrightarrow> l \<noteq> Forgot x \<Longrightarrow> \<forall>q f'. l \<noteq> Stored q x f' \<Longrightarrow> episode (h @ [l]) x f"
proof -
  assume "episode h x f" and l: "l \<noteq> Forgot x" "\<forall>q f'. l \<noteq> Stored q x f'"
  then obtain h1 q h2 where "h = h1 @ Stored q x f # h2" "Called q x f \<in> set h1" "Forgot x \<notin> set h2"
    "\<forall>q' f'. Stored q' x f' \<notin> set h2" unfolding episode_def by blast
  with l show ?thesis unfolding episode_def by (intro exI [of _ h1] exI [of _ q] exI [of _ "h2 @ [l]"]) auto
qed

lemma episode_new: "Called q x f \<in> set h \<Longrightarrow> episode (h @ [Stored q x f]) x f"
  unfolding episode_def by fastforce

text \<open>A call of \<open>p\<close> looked \<open>x\<close> up during the episode.\<close>

definition loaded_in :: "'t label list \<Rightarrow> nat \<Rightarrow> 't \<Rightarrow> gotime \<Rightarrow> bool" where
  "loaded_in h p x f \<longleftrightarrow> (\<exists>h1 h2. h = h1 @ Loaded p x (Some f) # h2 \<and> episode h1 x f)"

lemma loaded_in_snoc: "loaded_in h p x f \<Longrightarrow> loaded_in (h @ [l]) p x f"
  unfolding loaded_in_def by fastforce

lemma loaded_in_new: "episode h x f \<Longrightarrow> loaded_in (h @ [Loaded p x (Some f)]) p x f"
  unfolding loaded_in_def by blast

fun pc_ok :: "'t label list \<Rightarrow> nat \<Rightarrow> gotime \<Rightarrow> duration \<Rightarrow> 't pc \<Rightarrow> bool" where
  "pc_ok h p c w Idle = True"
| "pc_ok h p c w (GotNow x n) = (Called p x n \<in> set h \<and> n \<le> c)"
| "pc_ok h p c w (GotFirst x n a) =
     (Called p x n \<in> set h \<and> n \<le> c \<and> (\<forall>f. a = Some f \<longrightarrow> loaded_in h p x f))"
| "pc_ok h p c w (ToExponential x) = (\<exists>f n. Called p x n \<in> set h \<and> n \<le> c \<and> loaded_in h p x f \<and> f + w < n)"
| "pc_ok h p c w (Returned x d) = True"

definition times_ok :: "'t label list \<Rightarrow> duration \<Rightarrow> ('t, 'e) system \<Rightarrow> bool" where
  "times_ok h w s \<longleftrightarrow> staticWindow (lim s) = w \<and> (\<forall>p. pc_ok h p (clock s) w (pcs s p)) \<and>
     (\<forall>x f. staticAttempts (lim s) x = Some f \<longrightarrow> episode h x f)"

lemma pc_ok_mono: "pc_ok h p c w q \<Longrightarrow> c \<le> c' \<Longrightarrow> pc_ok (h @ [l]) p c' w q"
proof (induction h p c w q rule: pc_ok.induct)
  case (4 h p c w x)
  then obtain f n where "Called p x n \<in> set h" "n \<le> c" "loaded_in h p x f" "f + w < n" by auto
  with 4(2) show ?case unfolding pc_ok.simps by (intro exI [of _ f] exI [of _ n]) (simp add: loaded_in_snoc)
qed (auto intro: loaded_in_snoc)

lemma times_okD:
  assumes "times_ok h w s"
  shows "staticWindow (lim s) = w" "pc_ok h p (clock s) w (pcs s p)"
    "staticAttempts (lim s) x = Some f \<Longrightarrow> episode h x f"
  using assms by (simp_all add: times_ok_def)

lemma times_okI:
  assumes "times_ok h w s" and "staticWindow (lim s') = w" and "clock s \<le> clock s'"
    and "\<And>p. pcs s' p = pcs s p \<or> pc_ok (h @ [l]) p (clock s') w (pcs s' p)"
    and "\<And>x f. staticAttempts (lim s') x = Some f \<Longrightarrow>
      episode (h @ [l]) x f \<or> staticAttempts (lim s) x = Some f \<and> l \<noteq> Forgot x \<and> (\<forall>q f'. l \<noteq> Stored q x f')"
  shows "times_ok (h @ [l]) w s'"
  unfolding times_ok_def
proof (intro conjI allI impI)
  show "staticWindow (lim s') = w" using assms(2) .
next
  fix p
  have "pc_ok (h @ [l]) p (clock s') w (pcs s p)" using times_okD(2) [OF assms(1)] assms(3) by (rule pc_ok_mono)
  then show "pc_ok (h @ [l]) p (clock s') w (pcs s' p)" using assms(4) [of p] by auto
next
  fix x f
  assume "staticAttempts (lim s') x = Some f"
  from assms(5) [OF this] show "episode (h @ [l]) x f"
    using times_okD(3) [OF assms(1)] episode_snoc [of h x f l] by blast
qed

lemma times_ok_step:
  assumes "sys_step E s l s'" and ok: "times_ok h w s" and w: "0 \<le> w"
  shows "times_ok (h @ [l]) w s'"
  using assms(1)
proof (cases rule: sys_step.cases)
  case (load p x n)
  have "loaded_in (h @ [l]) p x f" if "staticAttempts (lim s) x = Some f" for f
    using loaded_in_new [OF times_okD(3) [OF ok that]] load(1) that by simp
  then show ?thesis using load times_okD(1) [OF ok] times_okD(2) [OF ok, of p] by (intro times_okI [OF ok]) auto
next
  case (store p x n)
  then have "Called p x n \<in> set h" using times_okD(2) [OF ok, of p] by simp
  then show ?thesis using store times_okD(1) [OF ok] episode_new [of p x n h]
    by (intro times_okI [OF ok]) (auto split: if_splits)
next
  case (late p x n f)
  then have "pc_ok (h @ [l]) p (clock s') w (pcs s' p)"
    using times_okD(1) [OF ok] times_okD(2) [OF ok, of p] time_sub_gt [OF late(4)] w loaded_in_snoc [of h p x f l]
    by auto
  then show ?thesis using late times_okD(1) [OF ok] by (intro times_okI [OF ok]) auto
next
  case (forget p x)
  then show ?thesis using times_okD(1) [OF ok]
    by (intro times_okI [OF ok]) (auto simp: Forget_def split: if_splits)
qed (use times_okD(1) [OF ok] in \<open>(intro times_okI [OF ok]; auto)+\<close>)

lemma times_ok_reach:
  assumes "reach E (initial_system t0 r) h s" "staticAttempts r = Map.empty" "0 \<le> staticWindow r"
  shows "times_ok h (staticWindow r) s"
  using assms(1)
proof induction
  case start
  with assms(2) show ?case by (simp add: times_ok_def initial_system_def)
next
  case (next_step h s l s')
  from times_ok_step [OF next_step(2,3) assms(3)] show ?case .
qed

text \<open>
  C16.  However the calls interleave, no item is sent to the exponential limiter before a full window
  has passed since it began to fail: the call looked the item up during an episode, which began when
  some call recorded its own clock reading \<open>f\<close> as the attempt of the item and in which nobody forgot the
  item or recorded it again, and \<open>f\<close> plus the window lies before the call's own clock reading \<open>n\<close>.
  Every attempt recorded at present is the beginning of such an episode that still lasts.
\<close>

theorem no_early_backoff:
  assumes "reach E (initial_system t0 r) h s" and "staticAttempts r = Map.empty" and "0 \<le> staticWindow r"
  shows "(pcs s p = ToExponential x \<longrightarrow>
      (\<exists>h1 q h2 h3 f n. h = h1 @ [Stored q x f] @ h2 @ [Loaded p x (Some f)] @ h3 \<and>
         Called q x f \<in> set h1 \<and> Forgot x \<notin> set h2 \<and> (\<forall>q' f'. Stored q' x f' \<notin> set h2) \<and>
         Called p x n \<in> set h \<and> f + staticWindow r < n \<and> n \<le> clock s)) \<and>
    (staticAttempts (lim s) x = Some f \<longrightarrow>
      (\<exists>h1 q h2. h = h1 @ [Stored q x f] @ h2 \<and> Called q x f \<in> set h1 \<and>
         Forgot x \<notin> set h2 \<and> (\<forall>q' f'. Stored q' x f' \<notin> set h2)))"
proof (intro conjI impI)
  note ok = times_ok_reach [OF assms]
  assume "pcs s p = ToExponential x"
  then obtain f n where 1: "Called p x n \<in> set h" "n \<le> clock s" "loaded_in h p x f" "f + staticWindow r < n"
    using times_okD(2) [OF ok, of p] by auto
  from 1(3) obtain h1 q h2 h3 where "h = (h1 @ Stored q x f # h2) @ Loaded p x (Some f) # h3"
    "Called q x f \<in> set h1" "Forgot x \<notin> set h2" "\<forall>q' f'. Stored q' x f' \<notin> set h2"
    unfolding loaded_in_def episode_def by metis
  with 1(1,2,4) show "\<exists>h1 q h2 h3 f n. h = h1 @ [Stored q x f] @ h2 @ [Loaded p x (Some f)] @ h3 \<and>
         Called q x f \<in> set h1 \<and> Forgot x \<notin> set h2 \<and> (\<forall>q' f'. Stored q' x f' \<notin> set h2) \<and>
         Called p x n \<in> set h \<and> f + staticWindow r < n \<and> n \<le> clock s"
    by (intro exI [of _ h1] exI [of _ q] exI [of _ h2] exI [of _ h3] exI [of _ f] exI [of _ n]) simp
next
  assume "staticAttempts (lim s) x = Some f"
  from times_okD(3) [OF times_ok_reach [OF assms] this] show "\<exists>h1 q h2. h = h1 @ [Stored q x f] @ h2 \<and>
      Called q x f \<in> set h1 \<and> Forgot x \<notin> set h2 \<and> (\<forall>q' f'. Stored q' x f' \<notin> set h2)"
    unfolding episode_def by simp
qed

lemma reach_step: "reach E s0 h s \<Longrightarrow> sys_step E s l s' \<Longrightarrow> h' = h @ [l] \<Longrightarrow> s' = s'' \<Longrightarrow> reach E s0 h' s''"
  by (auto intro: next_step)

text \<open>Two episodes of an item: it fails at 100, is forgotten, fails at 105 and again at 116.\<close>

definition late_history :: "nat label list" where
  "late_history = [Called 0 7 100, Loaded 0 7 None, Stored 0 7 100, Internal 0, Forgot 7, Tick, Called 0 7 105,
     Loaded 0 7 None, Stored 0 7 105, Internal 0, Tick, Called 0 7 116, Loaded 0 7 (Some 105), Internal 0]"

definition late_state :: "gotime \<Rightarrow> (nat \<rightharpoonup> gotime) \<Rightarrow> nat pc \<Rightarrow> (nat, nat \<Rightarrow> nat) system" where
  "late_state c m q = \<lparr>clock = c, lim = sample_limiter\<lparr>staticAttempts := m\<rparr>, pcs = (\<lambda>_. Idle)(0 := q)\<rparr>"

lemma late_state_sel [simp]:
  "clock (late_state c m q) = c" "pcs (late_state c m q) 0 = q" "staticAttempts (lim (late_state c m q)) = m"
  "late_state c m q\<lparr>clock := c'\<rparr> = late_state c' m q"
  "late_state c m q\<lparr>pcs := (pcs (late_state c m q))(0 := q')\<rparr> = late_state c m q'"
  "staticWindow (lim (late_state c m q)) = 10" "staticDelay (lim (late_state c m q)) = 2"
  by (simp_all add: late_state_def sample_limiter_def)

lemma late_run: "reach (doubling 3 20) (initial_system 100 sample_limiter) late_history (late_state 116 [7 \<mapsto> 105] (ToExponential 7))"
proof -
  let ?r = "reach (doubling 3 20) (initial_system 100 sample_limiter)"
  have "?r [] (late_state 100 Map.empty Idle)"
    using start [of "doubling 3 20" "initial_system 100 sample_limiter"]
    by (simp add: initial_system_def sample_limiter_def late_state_def fun_upd_idem)
  note r0 = this
  have r1: "?r (take 1 late_history) (late_state 100 Map.empty (GotNow 7 100))"
    by (rule reach_step [OF r0 now [where p = 0 and x = 7]]) (simp_all add: late_history_def)
  have r2: "?r (take 2 late_history) (late_state 100 Map.empty (GotFirst 7 100 None))"
    by (rule reach_step [OF r1 load [where p = 0 and x = 7 and n = 100]]) (simp_all add: late_history_def)
  have r3: "?r (take 3 late_history) (late_state 100 [7 \<mapsto> 100] (Returned 7 2))"
    by (rule reach_step [OF r2 store [where p = 0 and x = 7 and n = 100]])
      (simp_all add: late_history_def, simp add: late_state_def sample_limiter_def)
  have r4: "?r (take 4 late_history) (late_state 100 [7 \<mapsto> 100] Idle)"
    by (rule reach_step [OF r3 return [where p = 0 and x = 7 and d = 2]]) (simp_all add: late_history_def)
  have r5: "?r (take 5 late_history) (late_state 100 Map.empty Idle)"
    by (rule reach_step [OF r4 forget [where p = 0 and x = 7]])
      (simp_all add: late_history_def, simp add: late_state_def sample_limiter_def Forget_def doubling_def fun_upd_idem)
  have r6: "?r (take 6 late_history) (late_state 105 Map.empty Idle)"
    by (rule reach_step [OF r5 tick [where t = 105]]) (simp_all add: late_history_def)
  have r7: "?r (take 7 late_history) (late_state 105 Map.empty (GotNow 7 105))"
    by (rule reach_step [OF r6 now [where p = 0 and x = 7]]) (simp_all add: late_history_def)
  have r8: "?r (take 8 late_history) (late_state 105 Map.empty (GotFirst 7 105 None))"
    by (rule reach_step [OF r7 load [where p = 0 and x = 7 and n = 105]]) (simp_all add: late_history_def)
  have r9: "?r (take 9 late_history) (late_state 105 [7 \<mapsto> 105] (Returned 7 2))"
    by (rule reach_step [OF r8 store [where p = 0 and x = 7 and n = 105]])
      (simp_all add: late_history_def, simp add: late_state_def sample_limiter_def)
  have r10: "?r (take 10 late_history) (late_state 105 [7 \<mapsto> 105] Idle)"
    by (rule reach_step [OF r9 return [where p = 0 and x = 7 and d = 2]]) (simp_all add: late_history_def)
  have r11: "?r (take 11 late_history) (late_state 116 [7 \<mapsto> 105] Idle)"
    by (rule reach_step [OF r10 tick [where t = 116]]) (simp_all add: late_history_def)
  have r12: "?r (take 12 late_history) (late_state 116 [7 \<mapsto> 105] (GotNow 7 116))"
    by (rule reach_step [OF r11 now [where p = 0 and x = 7]]) (simp_all add: late_history_def)
  have r13: "?r (take 13 late_history) (late_state 116 [7 \<mapsto> 105] (GotFirst 7 116 (Some 105)))"
    by (rule reach_step [OF r12 load [where p = 0 and x = 7 and n = 116]]) (simp_all add: late_history_def)
  show ?thesis
    by (rule reach_step [OF r13 late [where p = 0 and x = 7 and n = 116 and f = 105]])
      (simp_all add: time_sub_def late_history_def)
qed

text \<open>At the end of this run the window is counted from the second failure, after the \<open>Forget\<close>.\<close>

theorem no_early_backoff_witness:
  "\<exists>h1 h2 h3 f n. late_history = h1 @ [Stored 0 7 f] @ h2 @ [Loaded 0 7 (Some f)] @ h3 \<and>
     Forgot 7 \<notin> set h2 \<and> f + staticWindow sample_limiter < n \<and> n \<le> 116"
proof -
  have q: "q = 0" if "Stored q 7 f \<in> set late_history" for q f using that by (auto simp: late_history_def)
  have s: "staticAttempts sample_limiter = Map.empty" "0 \<le> staticWindow sample_limiter" by (simp_all add: sample_limiter_def)
  from no_early_backoff [OF late_run s, of 0 7 f, THEN conjunct1] obtain h1 q h2 h3 f n where
    *: "late_history = h1 @ [Stored q 7 f] @ h2 @ [Loaded 0 7 (Some f)] @ h3" "Forgot 7 \<notin> set h2"
    "f + staticWindow sample_limiter < n" "n \<le> 116" by auto
  have "Stored q 7 f \<in> set late_history" unfolding *(1) by simp
  with q have "q = 0" by blast
  with * show ?thesis by blast
qed

end
