(* ===== verification/Managers.thy ===== *)
theory Managers
  imports Lifecycle_Conditions RateLimiter
begin

text \<open>
  The lifecycle managers a controller is built from: \<open>controllerruntime/lifecycle.go\<close>,
  \<open>multicluster/lifecycle.go\<close> and \<open>builder/builder.go\<close> under \<open>controller/lifecycle\<close>, the event filter
  \<open>controller/filter/filter.go\<close>, and the stand-ins of \<open>controller/testSupport/lifecycle.go\<close>.  The fluent
  builders of controller-runtime are modelled by what they are configured with (\<open>registration\<close>).
  The locale \<open>lifecycle_provider\<close> is the interface \<open>api.Lifecycle\<close> with its set-up.
\<close>

section \<open>The event filter\<close>

definition DebugLabel :: string where
  "DebugLabel = ''debug.platform-mesh.io''"

datatype 'p kube_event =
    CreateEvent "'p object"
  | UpdateEvent "'p object" "'p object"
  | DeleteEvent "'p object"
  | GenericEvent "'p object"

text \<open>Indexing a Go map of strings: the empty string for an absent key.\<close>

definition label_value :: "'p object \<Rightarrow> string \<Rightarrow> string" where
  "label_value ob k = (case labels ob k of None \<Rightarrow> [] | Some v \<Rightarrow> v)"

fun DebugResourcesBehaviourPredicate :: "string \<Rightarrow> 'p kube_event \<Rightarrow> bool" where
  "DebugResourcesBehaviourPredicate labelValue (CreateEvent ob) = (label_value ob DebugLabel = labelValue)"
| "DebugResourcesBehaviourPredicate labelValue (UpdateEvent old new) = (label_value new DebugLabel = labelValue)"
| "DebugResourcesBehaviourPredicate labelValue (DeleteEvent ob) = (label_value ob DebugLabel = labelValue)"
| "DebugResourcesBehaviourPredicate labelValue (GenericEvent ob) = (label_value ob DebugLabel = labelValue)"

fun event_object :: "'p kube_event \<Rightarrow> 'p object" where
  "event_object (CreateEvent ob) = ob"
| "event_object (UpdateEvent old new) = new"
| "event_object (DeleteEvent ob) = ob"
| "event_object (GenericEvent ob) = ob"

lemma Debug_iff: "DebugResourcesBehaviourPredicate v ev \<longleftrightarrow> label_value (event_object ev) DebugLabel = v"
  by (cases ev) simp_all

section \<open>What is registered with the controller manager\<close>

record ('p, 'q, 'e) registration =
  reg_name :: string
  reg_maxConcurrent :: int
  reg_rateLimiter :: "('q, 'e) static_limiter option"
  reg_filters :: "('p kube_event \<Rightarrow> bool) list"

definition accepts :: "('p, 'q, 'e) registration \<Rightarrow> 'p kube_event \<Rightarrow> bool" where
  "accepts b ev = list_all (\<lambda>f. f ev) (reg_filters b)"

section \<open>The controller-runtime manager\<close>

text \<open>A pointer field is \<open>None\<close> when it is nil; \<open>cr_client\<close> is the client of the manager's cluster.\<close>

record ('p, 'w, 'q, 'e) cr_manager =
  cr_log :: logger
  cr_client :: "('p, 'w) client"
  cr_config :: Config
  cr_subroutines :: "('p, 'w) subroutine list"
  cr_spreader :: "('p, 'w) spread_manager option"
  cr_conditionsManager :: "'w condition_manager option"
  cr_prepareContextFunc :: "('p, 'w) prepare_context option"
  cr_rateLimiter :: "('q, 'e) static_limiter option"

definition NewLifecycleManager_cr ::
  "('p, 'w) subroutine list \<Rightarrow> string \<Rightarrow> string \<Rightarrow> ('p, 'w) client \<Rightarrow> logger \<Rightarrow> ('p, 'w, 'q, 'e) cr_manager option" where
  "NewLifecycleManager_cr subs operatorName controllerName cl log = do {
     log1 \<leftarrow> MustChildLoggerWithAttributes log [''operator'', operatorName, ''controller'', controllerName];
     Some \<lparr>cr_log = log1, cr_client = cl,
       cr_config = \<lparr>OperatorName = operatorName, ControllerName = controllerName, ReadOnly = False\<rparr>,
       cr_subroutines = subs, cr_spreader = None, cr_conditionsManager = None,
       cr_prepareContextFunc = None, cr_rateLimiter = None\<rparr>
   }"

definition ConditionsManager_cr :: "('p, 'w, 'q, 'e) cr_manager \<Rightarrow> 'w condition_manager option" where
  "ConditionsManager_cr l = (case cr_conditionsManager l of None \<Rightarrow> None | Some cm \<Rightarrow> Some cm)"

definition Spreader_cr :: "('p, 'w, 'q, 'e) cr_manager \<Rightarrow> ('p, 'w) spread_manager option" where
  "Spreader_cr l = (case cr_spreader l of None \<Rightarrow> None | Some sp \<Rightarrow> Some sp)"

text \<open>The manager as an \<open>api.Lifecycle\<close>: it has neither \<open>Terminator\<close> nor \<open>Initializer\<close>.\<close>

definition lifecycle_cr :: "('p, 'w, 'q, 'e) cr_manager \<Rightarrow> ('p, 'w) lifecycle" where
  "lifecycle_cr l = \<lparr>lc_config = cr_config l, lc_log = cr_log l, lc_spreader = Spreader_cr l,
     lc_conditions = ConditionsManager_cr l, lc_prepare = cr_prepareContextFunc l,
     lc_subroutines = cr_subroutines l, lc_terminator = None, lc_initializer = None\<rparr>"

definition Reconcile_cr ::
  "('p, 'u) library \<Rightarrow> 'p object_type \<Rightarrow> ('p, 'w, 'q, 'e) cr_manager \<Rightarrow> string \<Rightarrow> ctx \<Rightarrow> namespaced_name \<Rightarrow>
   'p object \<Rightarrow> 'w rstate \<Rightarrow> ((ctrl_result \<times> goerror option) \<times> 'p object \<times> 'w rstate) option" where
  "Reconcile_cr L T l rid c nName inst st =
     Reconcile (cr_client l) L T (lifecycle_cr l) rid None c nName inst st"

definition read_only_error :: goerror where
  "read_only_error = ErrorString ''cannot use conditions or spread reconciles in read-only mode''"

definition SetupWithManagerBuilder_cr ::
  "('p, 'w, 'q, 'e) cr_manager \<Rightarrow> int \<Rightarrow> string \<Rightarrow> 'p object_type \<Rightarrow> string \<Rightarrow> ('p kube_event \<Rightarrow> bool) list \<Rightarrow>
   goerror + ('p, 'q, 'e) registration" where
  "SetupWithManagerBuilder_cr l maxReconciles reconcilerName T debugLabelValue eventPredicates =
     (case ValidateInterfaces T (lifecycle_cr l) of
        Some err \<Rightarrow> Inl err
      | None \<Rightarrow>
          if (ConditionsManager_cr l \<noteq> None \<or> Spreader_cr l \<noteq> None) \<and> ReadOnly (cr_config l)
          then Inl read_only_error
          else Inr \<lparr>reg_name = reconcilerName, reg_maxConcurrent = maxReconciles,
            reg_rateLimiter = (case cr_rateLimiter l of None \<Rightarrow> None | Some r \<Rightarrow> Some r),
            reg_filters = DebugResourcesBehaviourPredicate debugLabelValue # eventPredicates\<rparr>)"

text \<open>\<open>Complete\<close> is the end of controller-runtime's builder.\<close>

definition SetupWithManager_cr where
  "SetupWithManager_cr complete l maxReconciles reconcilerName T debugLabelValue eventPredicates =
     (case SetupWithManagerBuilder_cr l maxReconciles reconcilerName T debugLabelValue eventPredicates of
        Inl err \<Rightarrow> Some err
      | Inr b \<Rightarrow> complete b)"

definition WithPrepareContextFunc_cr where
  "WithPrepareContextFunc_cr f l = l\<lparr>cr_prepareContextFunc := Some f\<rparr>"

definition WithReadOnly_cr :: "('p, 'w, 'q, 'e) cr_manager \<Rightarrow> ('p, 'w, 'q, 'e) cr_manager" where
  "WithReadOnly_cr l = l\<lparr>cr_config := (cr_config l)\<lparr>ReadOnly := True\<rparr>\<rparr>"

definition WithSpreadingReconciles_cr ::
  "'w stdlib \<Rightarrow> ('p, 'w, 'q, 'e) cr_manager \<Rightarrow> ('p, 'w, 'q, 'e) cr_manager" where
  "WithSpreadingReconciles_cr S l = l\<lparr>cr_spreader := Some (NewSpreader S)\<rparr>"

definition WithConditionManagement_cr ::
  "'w meta_api \<Rightarrow> ('p, 'w, 'q, 'e) cr_manager \<Rightarrow> ('p, 'w, 'q, 'e) cr_manager" where
  "WithConditionManagement_cr M l = l\<lparr>cr_conditionsManager := Some (NewConditionManager M)\<rparr>"

text \<open>\<open>log.Fatalf\<close> on an invalid configuration ends the process.\<close>

definition WithStaticThenExponentialRateLimiter_cr ::
  "(duration \<Rightarrow> duration \<Rightarrow> 'e) \<Rightarrow> rl_option list \<Rightarrow> ('p, 'w, 'q, 'e) cr_manager \<Rightarrow> ('p, 'w, 'q, 'e) cr_manager option" where
  "WithStaticThenExponentialRateLimiter_cr newItemLimiter opts l =
     (case NewStaticThenExponentialRateLimiter newItemLimiter (NewConfig opts) of
        Inl err \<Rightarrow> None
      | Inr rl \<Rightarrow> Some (l\<lparr>cr_rateLimiter := Some rl\<rparr>))"

section \<open>The multicluster manager\<close>

text \<open>
  The interface \<open>ClusterGetter\<close>: \<open>GetCluster\<close>, with \<open>GetClient\<close> of the cluster it returns.  The \<open>Manager\<close> of
  multicluster-runtime is another type, an interface with many methods, of which a lifecycle manager uses this
  one.
\<close>

type_synonym ('p, 'w) cluster_getter = "ctx \<Rightarrow> string \<Rightarrow> 'w \<Rightarrow> (goerror + ('p, 'w) client) \<times> 'w"

record ('p, 'w) mcmanager =
  mgr_GetCluster :: "('p, 'w) cluster_getter"

record ('p, 'w, 'q, 'e) mc_manager =
  mc_log :: logger
  mc_mgr :: "('p, 'w) cluster_getter"
  mc_config :: Config
  mc_subroutines :: "('p, 'w) subroutine list"
  mc_spreader :: "('p, 'w) spread_manager option"
  mc_conditionsManager :: "'w condition_manager option"
  mc_prepareContextFunc :: "('p, 'w) prepare_context option"
  mc_rateLimiter :: "('q, 'e) static_limiter option"
  mc_terminator :: string
  mc_initializer :: string

definition NewLifecycleManager_mc ::
  "('p, 'w) subroutine list \<Rightarrow> string \<Rightarrow> string \<Rightarrow> ('p, 'w) cluster_getter \<Rightarrow>
   logger \<Rightarrow> ('p, 'w, 'q, 'e) mc_manager option" where
  "NewLifecycleManager_mc subs operatorName controllerName mgr log = do {
     log1 \<leftarrow> MustChildLoggerWithAttributes log [''operator'', operatorName, ''controller'', controllerName];
     Some \<lparr>mc_log = log1, mc_mgr = mgr,
       mc_config = \<lparr>OperatorName = operatorName, ControllerName = controllerName, ReadOnly = False\<rparr>,
       mc_subroutines = subs, mc_spreader = None, mc_conditionsManager = None,
       mc_prepareContextFunc = None, mc_rateLimiter = None, mc_terminator = [], mc_initializer = []\<rparr>
   }"

definition ConditionsManager_mc :: "('p, 'w, 'q, 'e) mc_manager \<Rightarrow> 'w condition_manager option" where
  "ConditionsManager_mc l = (case mc_conditionsManager l of None \<Rightarrow> None | Some cm \<Rightarrow> Some cm)"

definition Spreader_mc :: "('p, 'w, 'q, 'e) mc_manager \<Rightarrow> ('p, 'w) spread_manager option" where
  "Spreader_mc l = (case mc_spreader l of None \<Rightarrow> None | Some sp \<Rightarrow> Some sp)"

text \<open>It always has the methods \<open>Terminator\<close> and \<open>Initializer\<close>, whose value may be empty.\<close>

definition lifecycle_mc :: "('p, 'w, 'q, 'e) mc_manager \<Rightarrow> ('p, 'w) lifecycle" where
  "lifecycle_mc l = \<lparr>lc_config = mc_config l, lc_log = mc_log l, lc_spreader = Spreader_mc l,
     lc_conditions = ConditionsManager_mc l, lc_prepare = mc_prepareContextFunc l,
     lc_subroutines = mc_subroutines l, lc_terminator = Some (mc_terminator l),
     lc_initializer = Some (mc_initializer l)\<rparr>"

definition Reconcile_mc ::
  "('p, 'u) library \<Rightarrow> 'p object_type \<Rightarrow> ('p, 'w, 'q, 'e) mc_manager \<Rightarrow> string \<Rightarrow> string option \<Rightarrow> ctx \<Rightarrow> string \<Rightarrow>
   namespaced_name \<Rightarrow> 'p object \<Rightarrow> 'w rstate \<Rightarrow>
   ((ctrl_result \<times> goerror option) \<times> 'p object \<times> 'w rstate) option" where
  "Reconcile_mc L T l rid cluster c clusterName nName inst st =
     (case mc_mgr l c clusterName (world st) of
        (Inl err, w) \<Rightarrow>
          Some ((\<lparr>RequeueAfter = 0\<rparr>, Some (WrapError ''failed to get cluster'' err)), inst, st\<lparr>world := w\<rparr>)
      | (Inr cl, w) \<Rightarrow> Reconcile cl L T (lifecycle_mc l) rid cluster c nName inst (st\<lparr>world := w\<rparr>))"

definition SetupWithManagerBuilder_mc ::
  "('p, 'w, 'q, 'e) mc_manager \<Rightarrow> int \<Rightarrow> string \<Rightarrow> 'p object_type \<Rightarrow> string \<Rightarrow> ('p kube_event \<Rightarrow> bool) list \<Rightarrow>
   goerror + ('p, 'q, 'e) registration" where
  "SetupWithManagerBuilder_mc l maxReconciles reconcilerName T debugLabelValue eventPredicates =
     (case ValidateInterfaces T (lifecycle_mc l) of
        Some err \<Rightarrow> Inl err
      | None \<Rightarrow>
          if (ConditionsManager_mc l \<noteq> None \<or> Spreader_mc l \<noteq> None) \<and> ReadOnly (mc_config l)
          then Inl read_only_error
          else Inr \<lparr>reg_name = reconcilerName, reg_maxConcurrent = maxReconciles,
            reg_rateLimiter = (case mc_rateLimiter l of None \<Rightarrow> None | Some r \<Rightarrow> Some r),
            reg_filters = DebugResourcesBehaviourPredicate debugLabelValue # eventPredicates\<rparr>)"

definition SetupWithManager_mc where
  "SetupWithManager_mc complete l maxReconciles reconcilerName T debugLabelValue eventPredicates =
     (case SetupWithManagerBuilder_mc l maxReconciles reconcilerName T debugLabelValue eventPredicates of
        Inl err \<Rightarrow> Some err
      | Inr b \<Rightarrow> complete b)"

definition WithPrepareContextFunc_mc where
  "WithPrepareContextFunc_mc f l = l\<lparr>mc_prepareContextFunc := Some f\<rparr>"

definition WithReadOnly_mc :: "('p, 'w, 'q, 'e) mc_manager \<Rightarrow> ('p, 'w, 'q, 'e) mc_manager" where
  "WithReadOnly_mc l = l\<lparr>mc_config := (mc_config l)\<lparr>ReadOnly := True\<rparr>\<rparr>"

definition WithSpreadingReconciles_mc ::
  "'w stdlib \<Rightarrow> ('p, 'w, 'q, 'e) mc_manager \<Rightarrow> ('p, 'w, 'q, 'e) mc_manager" where
  "WithSpreadingReconciles_mc S l = l\<lparr>mc_spreader := Some (NewSpreader S)\<rparr>"

definition WithConditionManagement_mc ::
  "'w meta_api \<Rightarrow> ('p, 'w, 'q, 'e) mc_manager \<Rightarrow> ('p, 'w, 'q, 'e) mc_manager" where
  "WithConditionManagement_mc M l = l\<lparr>mc_conditionsManager := Some (NewConditionManager M)\<rparr>"

definition WithStaticThenExponentialRateLimiter_mc ::
  "(duration \<Rightarrow> duration \<Rightarrow> 'e) \<Rightarrow> rl_option list \<Rightarrow> ('p, 'w, 'q, 'e) mc_manager \<Rightarrow> ('p, 'w, 'q, 'e) mc_manager option" where
  "WithStaticThenExponentialRateLimiter_mc newItemLimiter opts l =
     (case NewStaticThenExponentialRateLimiter newItemLimiter (NewConfig opts) of
        Inl err \<Rightarrow> None
      | Inr rl \<Rightarrow> Some (l\<lparr>mc_rateLimiter := Some rl\<rparr>))"

definition WithTerminator_mc :: "string \<Rightarrow> ('p, 'w, 'q, 'e) mc_manager \<Rightarrow> ('p, 'w, 'q, 'e) mc_manager" where
  "WithTerminator_mc t l = l\<lparr>mc_terminator := t\<rparr>"

definition WithInitializer_mc :: "string \<Rightarrow> ('p, 'w, 'q, 'e) mc_manager \<Rightarrow> ('p, 'w, 'q, 'e) mc_manager" where
  "WithInitializer_mc t l = l\<lparr>mc_initializer := t\<rparr>"

section \<open>The builder\<close>

record ('p, 'w) Builder =
  b_operatorName :: string
  b_controllerName :: string
  b_withConditionManagement :: bool
  b_withSpreadingReconciles :: bool
  b_withReadOnly :: bool
  b_terminator :: string
  b_initializer :: string
  b_rateLimiterOptions :: "rl_option list option"
  b_subroutines :: "('p, 'w) subroutine list"
  b_log :: logger

definition NewBuilder :: "string \<Rightarrow> string \<Rightarrow> ('p, 'w) subroutine list \<Rightarrow> logger \<Rightarrow> ('p, 'w) Builder" where
  "NewBuilder operatorName controllerName subs log =
     \<lparr>b_operatorName = operatorName, b_controllerName = controllerName, b_withConditionManagement = False,
      b_withSpreadingReconciles = False, b_withReadOnly = False, b_terminator = [], b_initializer = [],
      b_rateLimiterOptions = None, b_subroutines = subs, b_log = log\<rparr>"

definition WithConditionManagement_b :: "('p, 'w) Builder \<Rightarrow> ('p, 'w) Builder" where
  "WithConditionManagement_b b = b\<lparr>b_withConditionManagement := True\<rparr>"

definition WithSpreadingReconciles_b :: "('p, 'w) Builder \<Rightarrow> ('p, 'w) Builder" where
  "WithSpreadingReconciles_b b = b\<lparr>b_withSpreadingReconciles := True\<rparr>"

definition WithReadOnly_b :: "('p, 'w) Builder \<Rightarrow> ('p, 'w) Builder" where
  "WithReadOnly_b b = b\<lparr>b_withReadOnly := True\<rparr>"

definition WithStaticThenExponentialRateLimiter_b :: "rl_option list \<Rightarrow> ('p, 'w) Builder \<Rightarrow> ('p, 'w) Builder" where
  "WithStaticThenExponentialRateLimiter_b opts b = b\<lparr>b_rateLimiterOptions := Some opts\<rparr>"

definition WithTerminator_b :: "string \<Rightarrow> ('p, 'w) Builder \<Rightarrow> ('p, 'w) Builder" where
  "WithTerminator_b t b = b\<lparr>b_terminator := t\<rparr>"

definition WithInitializer_b :: "string \<Rightarrow> ('p, 'w) Builder \<Rightarrow> ('p, 'w) Builder" where
  "WithInitializer_b t b = b\<lparr>b_initializer := t\<rparr>"

definition BuildControllerRuntime ::
  "'w meta_api \<Rightarrow> 'w stdlib \<Rightarrow> (duration \<Rightarrow> duration \<Rightarrow> 'e) \<Rightarrow> ('p, 'w) Builder \<Rightarrow> ('p, 'w) client \<Rightarrow>
   ('p, 'w, 'q, 'e) cr_manager option" where
  "BuildControllerRuntime M S newItemLimiter b cl = do {
     lm \<leftarrow> NewLifecycleManager_cr (b_subroutines b) (b_operatorName b) (b_controllerName b) cl (b_log b);
     let lm1 = (if b_withConditionManagement b then WithConditionManagement_cr M lm else lm);
     let lm2 = (if b_withSpreadingReconciles b then WithSpreadingReconciles_cr S lm1 else lm1);
     let lm3 = (if b_withReadOnly b then WithReadOnly_cr lm2 else lm2);
     (case b_rateLimiterOptions b of
        None \<Rightarrow> Some lm3
      | Some opts \<Rightarrow> WithStaticThenExponentialRateLimiter_cr newItemLimiter opts lm3)
   }"

definition BuildMultiCluster ::
  "'w meta_api \<Rightarrow> 'w stdlib \<Rightarrow> (duration \<Rightarrow> duration \<Rightarrow> 'e) \<Rightarrow> ('p, 'w) Builder \<Rightarrow>
   ('p, 'w) mcmanager \<Rightarrow> ('p, 'w, 'q, 'e) mc_manager option" where
  "BuildMultiCluster M S newItemLimiter b mgr = do {
     lm \<leftarrow> NewLifecycleManager_mc (b_subroutines b) (b_operatorName b) (b_controllerName b)
       (mgr_GetCluster mgr) (b_log b);
     let lm1 = (if b_withConditionManagement b then WithConditionManagement_mc M lm else lm);
     let lm2 = (if b_withSpreadingReconciles b then WithSpreadingReconciles_mc S lm1 else lm1);
     let lm3 = (if b_withReadOnly b then WithReadOnly_mc lm2 else lm2);
     lm4 \<leftarrow> (case b_rateLimiterOptions b of
        None \<Rightarrow> Some lm3
      | Some opts \<Rightarrow> WithStaticThenExponentialRateLimiter_mc newItemLimiter opts lm3);
     let lm5 = (if b_terminator b \<noteq> [] then WithTerminator_mc (b_terminator b) lm4 else lm4);
     Some (if b_initializer b \<noteq> [] then WithInitializer_mc (b_initializer b) lm5 else lm5)
   }"

section \<open>The stand-ins for tests\<close>

definition test_condition :: "string \<Rightarrow> cond_status \<Rightarrow> string \<Rightarrow> string \<Rightarrow> condition" where
  "test_condition ty s reason msg = \<lparr>cond_type = ty, cond_status = s, cond_reason = reason,
     cond_message = msg, cond_generation = 0, cond_transition = 0\<rparr>"

definition TestConditionManager :: "'w meta_api \<Rightarrow> 'w condition_manager" where
  "TestConditionManager M = \<lparr>
     SetInstanceConditionUnknownIfNotSet = (\<lambda>conds gen w. SetStatusCondition M conds
       (test_condition ''Ready'' ConditionUnknown ''Unknown'' ''The resource is in an unknown state'') w),
     SetSubroutineConditionToUnknownIfNotSet = (\<lambda>conds gen name isFinalize w. SetStatusCondition M conds
       (test_condition (name @ ''_Ready'') ConditionUnknown ''Unknown'' ''The resource is in an unknown state'') w),
     SetSubroutineCondition = (\<lambda>conds gen name res err isFinalize w. SetStatusCondition M conds
       (test_condition (name @ ''_Ready'') ConditionTrue ''ok'' ''The subroutine is complete'') w),
     SetInstanceConditionReady = (\<lambda>conds gen status w. SetStatusCondition M conds
       (test_condition ''Ready'' ConditionTrue ''ok'' ''The resource is ready'') w)\<rparr>"

record ('p, 'w) test_manager =
  tm_Logger :: logger
  tm_SubroutinesArr :: "('p, 'w) subroutine list"
  tm_spreader :: "('p, 'w) spread_manager option"
  tm_conditionsManager :: "'w condition_manager option"
  tm_ShouldReconcile :: bool
  tm_prepareContextFunc :: "('p, 'w) prepare_context option"
  tm_terminator :: string
  tm_initializer :: string

definition lifecycle_test :: "('p, 'w) test_manager \<Rightarrow> ('p, 'w) lifecycle" where
  "lifecycle_test l = \<lparr>lc_config = \<lparr>OperatorName = ''test-operator'', ControllerName = ''test-controller'', ReadOnly = False\<rparr>,
     lc_log = tm_Logger l, lc_spreader = tm_spreader l, lc_conditions = tm_conditionsManager l,
     lc_prepare = tm_prepareContextFunc l, lc_subroutines = tm_SubroutinesArr l,
     lc_terminator = Some (tm_terminator l), lc_initializer = Some (tm_initializer l)\<rparr>"

definition WithSpreadingReconciles_test :: "'w stdlib \<Rightarrow> ('p, 'w) test_manager \<Rightarrow> ('p, 'w) test_manager" where
  "WithSpreadingReconciles_test S l = l\<lparr>tm_spreader := Some (TestSpreader S (tm_ShouldReconcile l))\<rparr>"

definition WithTerminator_test :: "string \<Rightarrow> ('p, 'w) test_manager \<Rightarrow> ('p, 'w) test_manager" where
  "WithTerminator_test terminator l = l\<lparr>tm_terminator := terminator\<rparr>"

definition WithInitializer_test :: "string \<Rightarrow> ('p, 'w) test_manager \<Rightarrow> ('p, 'w) test_manager" where
  "WithInitializer_test initializer l = l\<lparr>tm_initializer := initializer\<rparr>"

definition WithPrepareContextFunc_test ::
  "('p, 'w) prepare_context \<Rightarrow> ('p, 'w) test_manager \<Rightarrow> ('p, 'w) test_manager" where
  "WithPrepareContextFunc_test prepareFunction l = l\<lparr>tm_prepareContextFunc := Some prepareFunction\<rparr>"

definition WithConditionManagement_test :: "'w meta_api \<Rightarrow> ('p, 'w) test_manager \<Rightarrow> ('p, 'w) test_manager" where
  "WithConditionManagement_test M l = l\<lparr>tm_conditionsManager := Some (TestConditionManager M)\<rparr>"

section \<open>The interface\<close>

text \<open>
  A lifecycle with the set-up that registers it: a set-up that succeeds has validated the object type
  and has refused spreader and conditions in read-only mode, and the only spreader a well-formed
  manager has is the one of \<open>NewSpreader\<close>.
\<close>

locale lifecycle_provider =
  fixes get :: "'m \<Rightarrow> ('p, 'w) lifecycle"
    and setup_fails :: "'m \<Rightarrow> 'p object_type \<Rightarrow> goerror option"
    and wf :: "'m \<Rightarrow> bool"
  assumes setup_validates: "setup_fails m T = None \<Longrightarrow> ValidateInterfaces T (get m) = None"
    and setup_read_only: "setup_fails m T = None \<Longrightarrow> ReadOnly (lc_config (get m)) \<Longrightarrow>
      lc_spreader (get m) = None \<and> lc_conditions (get m) = None"
    and spreader_known: "wf m \<Longrightarrow> lc_spreader (get m) = None \<or> (\<exists>S. lc_spreader (get m) = Some (NewSpreader S))"
begin

lemma setup_no_panic:
  assumes "setup_fails m T = None" "wf m" "\<And>i. 2 * Minute \<le> reconcile_border T i"
  shows "Reconcile cl L T (get m) rid cluster c nn inst st \<noteq> None"
proof -
  from spreader_known [OF assms(2)] obtain S where
    "lc_spreader (get m) = None \<or> (lc_spreader (get m) = Some (NewSpreader S) \<and> (\<forall>i. 2 * Minute \<le> reconcile_border T i))"
    using assms(3) by blast
  from validated_no_panic [OF setup_validates [OF assms(1)] this] show ?thesis by force
qed

lemma setup_read_only_quiet:
  assumes "setup_fails m T = None" "ReadOnly (lc_config (get m))"
    and "\<not> has_name (lc_terminator (get m))" "\<not> has_name (lc_initializer (get m))"
    and "Reconcile cl L T (get m) rid cluster c nn inst st = Some (ret, inst', st')"
  shows "\<exists>evs. trace st' = trace st @ evs \<and> (\<forall>e \<in> set evs. \<not> is_write e)"
  using read_only_quiet [OF assms(5,2) _ assms(3,4)] setup_read_only [OF assms(1,2)] by simp

end

definition setup_error :: "goerror + 'a \<Rightarrow> goerror option" where
  "setup_error x = (case x of Inl e \<Rightarrow> Some e | Inr _ \<Rightarrow> None)"

definition wf_cr :: "('p, 'w, 'q, 'e) cr_manager \<Rightarrow> bool" where
  "wf_cr l \<longleftrightarrow> cr_spreader l = None \<or> (\<exists>S. cr_spreader l = Some (NewSpreader S))"

definition wf_mc :: "('p, 'w, 'q, 'e) mc_manager \<Rightarrow> bool" where
  "wf_mc l \<longleftrightarrow> mc_spreader l = None \<or> (\<exists>S. mc_spreader l = Some (NewSpreader S))"

lemma getters [simp]:
  "ConditionsManager_cr l = cr_conditionsManager l" "Spreader_cr l = cr_spreader l"
  "ConditionsManager_mc k = mc_conditionsManager k" "Spreader_mc k = mc_spreader k"
  by (simp_all add: ConditionsManager_cr_def Spreader_cr_def ConditionsManager_mc_def Spreader_mc_def
      split: option.split)

lemma lifecycle_cr_sel [simp]:
  "lc_spreader (lifecycle_cr l) = cr_spreader l" "lc_conditions (lifecycle_cr l) = cr_conditionsManager l"
  "lc_config (lifecycle_cr l) = cr_config l" "lc_terminator (lifecycle_cr l) = None" "lc_initializer (lifecycle_cr l) = None"
  by (simp_all add: lifecycle_cr_def)

lemma lifecycle_mc_sel [simp]:
  "lc_spreader (lifecycle_mc l) = mc_spreader l" "lc_conditions (lifecycle_mc l) = mc_conditionsManager l"
  "lc_config (lifecycle_mc l) = mc_config l" "lc_terminator (lifecycle_mc l) = Some (mc_terminator l)"
  "lc_initializer (lifecycle_mc l) = Some (mc_initializer l)"
  by (simp_all add: lifecycle_mc_def)

interpretation crm: lifecycle_provider lifecycle_cr
    "\<lambda>l T. setup_error (SetupWithManagerBuilder_cr l n name T v ps)" wf_cr for n name v ps
  by unfold_locales
    (auto simp: setup_error_def SetupWithManagerBuilder_cr_def wf_cr_def split: option.splits if_splits)

interpretation mcm: lifecycle_provider lifecycle_mc
    "\<lambda>l T. setup_error (SetupWithManagerBuilder_mc l n name T v ps)" wf_mc for n name v ps
  by unfold_locales
    (auto simp: setup_error_def SetupWithManagerBuilder_mc_def wf_mc_def split: option.splits if_splits)

lemma setup_error_Inr [simp]: "setup_error (Inr x) = None"
  by (simp add: setup_error_def)

section \<open>Properties\<close>

lemmas build_defs = BuildControllerRuntime_def BuildMultiCluster_def NewLifecycleManager_cr_def
  NewLifecycleManager_mc_def WithConditionManagement_cr_def WithConditionManagement_mc_def
  WithSpreadingReconciles_cr_def WithSpreadingReconciles_mc_def WithReadOnly_cr_def WithReadOnly_mc_def
  WithStaticThenExponentialRateLimiter_cr_def WithStaticThenExponentialRateLimiter_mc_def
  WithTerminator_mc_def WithInitializer_mc_def

lemma Build_wf:
  "BuildControllerRuntime M S newL b cl = Some l \<Longrightarrow> wf_cr l"
  "BuildMultiCluster M S newL b mgr = Some k \<Longrightarrow> wf_mc k"
  by (auto simp: build_defs wf_cr_def wf_mc_def Let_def split: option.splits sum.splits if_splits Option.bind_splits)

text \<open>The two builds in one piece.\<close>

definition built_limiter :: "(duration \<Rightarrow> duration \<Rightarrow> 'e) \<Rightarrow> ('p, 'w) Builder \<Rightarrow> ('q, 'e) static_limiter option option" where
  "built_limiter newL b =
     (case b_rateLimiterOptions b of
        None \<Rightarrow> Some None
      | Some opts \<Rightarrow>
          (case NewStaticThenExponentialRateLimiter newL (NewConfig opts) of
             Inl _ \<Rightarrow> None | Inr rl \<Rightarrow> Some (Some rl)))"

definition built_config :: "('p, 'w) Builder \<Rightarrow> Config" where
  "built_config b = \<lparr>OperatorName = b_operatorName b, ControllerName = b_controllerName b, ReadOnly = b_withReadOnly b\<rparr>"

definition built_log :: "('p, 'w) Builder \<Rightarrow> logger" where
  "built_log b = the (MustChildLoggerWithAttributes (b_log b)
     [''operator'', b_operatorName b, ''controller'', b_controllerName b])"

lemma Build_cr_eq:
  "BuildControllerRuntime M S newL b cl = map_option (\<lambda>rl.
     \<lparr>cr_log = built_log b, cr_client = cl, cr_config = built_config b, cr_subroutines = b_subroutines b,
      cr_spreader = if b_withSpreadingReconciles b then Some (NewSpreader S) else None,
      cr_conditionsManager = if b_withConditionManagement b then Some (NewConditionManager M) else None,
      cr_prepareContextFunc = None, cr_rateLimiter = rl\<rparr>) (built_limiter newL b)"
  by (cases b) (simp add: build_defs built_limiter_def built_log_def built_config_def Let_def split: option.split sum.split)

lemma Build_mc_eq:
  "BuildMultiCluster M S newL b mgr = map_option (\<lambda>rl.
     \<lparr>mc_log = built_log b, mc_mgr = mgr_GetCluster mgr, mc_config = built_config b, mc_subroutines = b_subroutines b,
      mc_spreader = if b_withSpreadingReconciles b then Some (NewSpreader S) else None,
      mc_conditionsManager = if b_withConditionManagement b then Some (NewConditionManager M) else None,
      mc_prepareContextFunc = None, mc_rateLimiter = rl, mc_terminator = b_terminator b,
      mc_initializer = b_initializer b\<rparr>) (built_limiter newL b)"
  by (cases b) (simp add: build_defs built_limiter_def built_log_def built_config_def Let_def split: option.split sum.split)

text \<open>When a multicluster manager can be set up for an object type.\<close>

lemma setup_mc_Inr:
  "(\<exists>reg. SetupWithManagerBuilder_mc lm n name T v ps = Inr reg) \<longleftrightarrow>
   (mc_spreader lm \<noteq> None \<longrightarrow> has_spread_status T) \<and> (mc_conditionsManager lm \<noteq> None \<longrightarrow> has_conditions T) \<and>
   \<not> (ReadOnly (mc_config lm) \<and> (mc_spreader lm \<noteq> None \<or> mc_conditionsManager lm \<noteq> None))"
  by (auto simp: SetupWithManagerBuilder_mc_def ValidateInterfaces_def ToInterface_def)

lemma setup_mc_reg:
  "SetupWithManagerBuilder_mc lm n name T v ps = Inr reg \<Longrightarrow>
   reg = \<lparr>reg_name = name, reg_maxConcurrent = n, reg_rateLimiter = mc_rateLimiter lm,
     reg_filters = DebugResourcesBehaviourPredicate v # ps\<rparr>"
  by (auto simp: SetupWithManagerBuilder_mc_def split: option.splits if_splits)

lemma built_limiter_None:
  "built_limiter newL b = None \<longleftrightarrow> (\<exists>opts. b_rateLimiterOptions b = Some opts \<and> validate (NewConfig opts) \<noteq> None)"
  by (auto simp: built_limiter_def NewStaticThenExponentialRateLimiter_def split: option.splits sum.splits)

text \<open>
  C35.  From the builder to the reconciliations of a multicluster manager.  \<open>BuildMultiCluster\<close> ends the process
  exactly when the configuration of the rate limiter is not valid.  The set-up of the manager for an object type fails
  exactly when the type lacks the interface for spreading or for conditions that the builder was given, or either is
  combined with read-only mode; else the controller gets the name, the number of workers, the rate limiter and the event filters.
  A manager that has been set up never panics in any cluster, when the objects' own reconcile
  intervals are at least two minutes; and when a cluster cannot be found, the reconciliation returns an error and does nothing.
\<close>

theorem built_mc_no_panic:
  "(case BuildMultiCluster M S newL b mgr :: ('p, 'w, 'q, 'e) mc_manager option of
      None \<Rightarrow> \<exists>opts. b_rateLimiterOptions b = Some opts \<and> validate (NewConfig opts) \<noteq> None
    | Some lm \<Rightarrow> (\<forall>opts. b_rateLimiterOptions b = Some opts \<longrightarrow> validate (NewConfig opts) = None) \<and>
        (case SetupWithManagerBuilder_mc lm n name T v ps of
           Inl _ \<Rightarrow> b_withSpreadingReconciles b \<and> \<not> has_spread_status T \<or>
             b_withConditionManagement b \<and> \<not> has_conditions T \<or>
             b_withReadOnly b \<and> (b_withSpreadingReconciles b \<or> b_withConditionManagement b)
         | Inr reg \<Rightarrow> (b_withSpreadingReconciles b \<longrightarrow> has_spread_status T) \<and>
             (b_withConditionManagement b \<longrightarrow> has_conditions T) \<and>
             \<not> (b_withReadOnly b \<and> (b_withSpreadingReconciles b \<or> b_withConditionManagement b)) \<and>
             reg_name reg = name \<and> reg_maxConcurrent reg = n \<and> built_limiter newL b = Some (reg_rateLimiter reg) \<and>
             reg_filters reg = DebugResourcesBehaviourPredicate v # ps \<and>
             (\<forall>c cn st inst. case mgr_GetCluster mgr c cn (world st) of
                (Inl e, w) \<Rightarrow> \<exists>e'. Reconcile_mc L T lm rid cluster c cn nn inst st =
                  Some ((\<lparr>RequeueAfter = 0\<rparr>, Some e'), inst, st\<lparr>world := w\<rparr>)
              | (Inr cl, w) \<Rightarrow> (\<forall>i. 2 * Minute \<le> reconcile_border T i) \<longrightarrow>
                  Reconcile_mc L T lm rid cluster c cn nn inst st \<noteq> None)))"
proof (cases "BuildMultiCluster M S newL b mgr :: ('p, 'w, 'q, 'e) mc_manager option")
  case None
  then have "(built_limiter newL b :: ('q, 'e) static_limiter option option) = None" by (simp add: Build_mc_eq)
  then show ?thesis unfolding None built_limiter_None by simp
next
  case (Some lm)
  then obtain rl where rl: "built_limiter newL b = Some (rl :: ('q, 'e) static_limiter option)"
    and lm: "mc_spreader lm \<noteq> None \<longleftrightarrow> b_withSpreadingReconciles b"
      "mc_conditionsManager lm \<noteq> None \<longleftrightarrow> b_withConditionManagement b" "ReadOnly (mc_config lm) = b_withReadOnly b"
      "mc_rateLimiter lm = rl" "mc_mgr lm = mgr_GetCluster mgr"
    by (auto simp: Build_mc_eq built_config_def)
  have ok: "\<forall>opts. b_rateLimiterOptions b = Some opts \<longrightarrow> validate (NewConfig opts) = None"
    using rl built_limiter_None [of newL b] by (metis option.distinct(1))
  show ?thesis
  proof (cases "SetupWithManagerBuilder_mc lm n name T v ps")
    case (Inl e)
    then have "\<not> (\<exists>reg. SetupWithManagerBuilder_mc lm n name T v ps = Inr reg)" by simp
    note no = this [unfolded setup_mc_Inr lm]
    show ?thesis unfolding Some Inl option.case sum.case using ok no by blast
  next
    case (Inr reg)
    then have "\<exists>reg. SetupWithManagerBuilder_mc lm n name T v ps = Inr reg" by simp
    note s = this [unfolded setup_mc_Inr lm]
    have "setup_error (SetupWithManagerBuilder_mc lm n name T v ps) = None" using Inr by simp
    note np = mcm.setup_no_panic [OF this Build_wf(2) [OF Some]]
    have run: "case mgr_GetCluster mgr c cn (world st) of
                (Inl e, w) \<Rightarrow> \<exists>e'. Reconcile_mc L T lm rid cluster c cn nn inst st =
                  Some ((\<lparr>RequeueAfter = 0\<rparr>, Some e'), inst, st\<lparr>world := w\<rparr>)
              | (Inr cl, w) \<Rightarrow> (\<forall>i. 2 * Minute \<le> reconcile_border T i) \<longrightarrow>
                  Reconcile_mc L T lm rid cluster c cn nn inst st \<noteq> None" for c cn st inst
    proof (cases "mgr_GetCluster mgr c cn (world st)")
      case (Pair x w)
      then show ?thesis using np [of _ L rid cluster c nn inst "st\<lparr>world := w\<rparr>"]
        by (cases x) (simp_all add: Reconcile_mc_def lm del: split_paired_Ex not_None_eq)
    qed
    have r: "reg_name reg = name" "reg_maxConcurrent reg = n" "built_limiter newL b = Some (reg_rateLimiter reg)"
      "reg_filters reg = DebugResourcesBehaviourPredicate v # ps"
      using setup_mc_reg [OF Inr] rl lm(4) by simp_all
    show ?thesis unfolding Some Inr option.case sum.case using s by (intro conjI ok allI run r) blast+
  qed
qed

definition sample_builder :: "(unit, int) Builder" where
  "sample_builder = WithConditionManagement_b (WithSpreadingReconciles_b
     (NewBuilder ''op'' ''ctrl'' [sample_sub ''x'' 0 None] \<lparr>log_level = 0, log_fields = []\<rparr>))"

definition sample_mc :: "(unit, int, nat, nat \<Rightarrow> nat) mc_manager" where
  "sample_mc = the (BuildMultiCluster example_meta example_std (\<lambda>_ _ _. 0) sample_builder \<lparr>mgr_GetCluster = (\<lambda>c n w. (Inr ok_client, w))\<rparr>)"

lemma sample_mc_built:
  "BuildMultiCluster example_meta example_std (\<lambda>_ _ _. 0) sample_builder \<lparr>mgr_GetCluster = (\<lambda>c n w. (Inr ok_client, w))\<rparr> = Some sample_mc"
  by (simp add: sample_mc_def build_defs sample_builder_def NewBuilder_def WithConditionManagement_b_def
      WithSpreadingReconciles_b_def)

lemma sample_mc_setup:
  "\<exists>reg. SetupWithManagerBuilder_mc sample_mc 1 ''r'' sample_type [] [] = Inr reg"
  by (simp add: sample_mc_def SetupWithManagerBuilder_mc_def build_defs sample_builder_def NewBuilder_def
      WithConditionManagement_b_def WithSpreadingReconciles_b_def ValidateInterfaces_def ToInterface_def sample_type_def)

theorem built_mc_no_panic_witness:
  "\<exists>reg. SetupWithManagerBuilder_mc sample_mc 1 ''r'' sample_type [] [] = Inr reg \<and> reg_maxConcurrent reg = 1 \<and>
     Reconcile_mc ok_library sample_type sample_mc ''r'' None Map.empty ''c'' request sample_object (start 0) \<noteq> None"
proof -
  from sample_mc_setup obtain reg where s: "SetupWithManagerBuilder_mc sample_mc 1 ''r'' sample_type [] [] = Inr reg" ..
  have b: "\<forall>i. 2 * Minute \<le> reconcile_border sample_type i"
    by (simp add: sample_type_def reconcile_border_def defaultMaxReconcileDuration_def)
  note P = built_mc_no_panic [where 'q = nat and 'e = "nat \<Rightarrow> nat" and M = example_meta and S = example_std and newL = "\<lambda>_ _ _. 0" and b = sample_builder
      and mgr = "\<lparr>mgr_GetCluster = (\<lambda>c n w. (Inr ok_client, w))\<rparr>" and T = sample_type and n = 1 and name = "''r''"
      and v = "[]" and ps = "[]" and L = ok_library and rid = "''r''" and cluster = None and nn = request]
  from P have "reg_maxConcurrent reg = 1 \<and>
      (\<forall>c cn st inst. Reconcile_mc ok_library sample_type sample_mc ''r'' None c cn request inst st \<noteq> None)"
    unfolding sample_mc_built option.case s sum.case using b by simp
  with s show ?thesis by blast
qed

text \<open>
  A read-only controller-runtime manager that has been set up writes nothing, without further
  conditions: its set-up has refused spreader and conditions, and it has no terminator or initializer.
\<close>

theorem cr_read_only_quiet:
  assumes "SetupWithManagerBuilder_cr lm n name T v ps = Inr reg" and "ReadOnly (cr_config lm)"
    and "Reconcile_cr L T lm rid c nn inst st = Some (ret, inst', st')"
  shows "\<exists>evs. trace st' = trace st @ evs \<and> (\<forall>e \<in> set evs. \<not> is_write e)"
proof (rule crm.setup_read_only_quiet)
  show "setup_error (SetupWithManagerBuilder_cr lm n name T v ps) = None" using assms(1) by simp
  show "Reconcile (cr_client lm) L T (lifecycle_cr lm) rid None c nn inst st = Some (ret, inst', st')"
    using assms(3) by (simp add: Reconcile_cr_def)
qed (simp_all add: assms(2) has_name_def)

definition read_only_cr :: "(unit, unit, nat, nat \<Rightarrow> nat) cr_manager" where
  "read_only_cr = WithReadOnly_cr (the (NewLifecycleManager_cr [sample_sub ''x'' Second None] ''op'' ''ctrl'' ok_client
     \<lparr>log_level = 0, log_fields = []\<rparr>))"

theorem cr_read_only_quiet_witness:
  "\<exists>evs. [EvGet, EvSub DoProcess ''x''] = evs \<and> (\<forall>e \<in> set evs. \<not> is_write e)"
proof -
  have "\<exists>reg. SetupWithManagerBuilder_cr read_only_cr 1 ''r'' sample_type [] [] = Inr reg"
    by (simp add: read_only_cr_def SetupWithManagerBuilder_cr_def build_defs ValidateInterfaces_def)
  then obtain reg where s: "SetupWithManagerBuilder_cr read_only_cr 1 ''r'' sample_type [] [] = Inr reg" ..
  have "Reconcile_cr ok_library sample_type read_only_cr ''r'' Map.empty request sample_object (start ()) =
    Some ((\<lparr>RequeueAfter = Second\<rparr>, None), sample_object, \<lparr>world = (), trace = [EvGet, EvSub DoProcess ''x'']\<rparr>)"
    by (simp add: Reconcile_cr_def read_only_cr_def build_defs lifecycle_cr_def lifecycle_defs sample_defs)
  from cr_read_only_quiet [OF s _ this] show ?thesis
    by (simp add: read_only_cr_def build_defs sample_defs)
qed

lemma lifecycle_of:
  "lifecycle_cr \<lparr>cr_log = a1, cr_client = a2, cr_config = a3, cr_subroutines = a4,
      cr_spreader = a5, cr_conditionsManager = a6, cr_prepareContextFunc = a7, cr_rateLimiter = rl\<rparr> =
  \<lparr>lc_config = a3, lc_log = a1, lc_spreader = a5, lc_conditions = a6, lc_prepare = a7,
     lc_subroutines = a4, lc_terminator = None, lc_initializer = None\<rparr>"
  "lifecycle_mc \<lparr>mc_log = a1, mc_mgr = mgr, mc_config = a3, mc_subroutines = a4,
      mc_spreader = a5, mc_conditionsManager = a6, mc_prepareContextFunc = a7, mc_rateLimiter = rl,
      mc_terminator = a8, mc_initializer = a9\<rparr> =
  \<lparr>lc_config = a3, lc_log = a1, lc_spreader = a5, lc_conditions = a6, lc_prepare = a7,
     lc_subroutines = a4, lc_terminator = Some a8, lc_initializer = Some a9\<rparr>"
  by (simp_all add: lifecycle_cr_def lifecycle_mc_def)

text \<open>
  The two managers a builder makes behave alike: both builds end the process for the same rate
  limiter options, both managers show \<open>Reconcile\<close> the same lifecycle and have the same rate limiter,
  except that the controller-runtime one drops the builder's terminator and initializer.
\<close>

theorem builds_agree:
  "rel_option (\<lambda>(k :: ('p, 'w, 'q, 'e) mc_manager) (l :: ('p, 'w, 'q, 'e) cr_manager).
      lifecycle_mc k = (lifecycle_cr l)\<lparr>lc_terminator := Some (b_terminator b), lc_initializer := Some (b_initializer b)\<rparr> \<and>
      mc_rateLimiter k = cr_rateLimiter l \<and> lc_terminator (lifecycle_cr l) = None \<and> lc_initializer (lifecycle_cr l) = None)
     (BuildMultiCluster M S newL b mgr) (BuildControllerRuntime M S newL b cl)"
proof (cases "built_limiter newL b :: ('q, 'e) static_limiter option option")
  case None
  show ?thesis unfolding Build_cr_eq Build_mc_eq None by simp
next
  case (Some rl)
  show ?thesis unfolding Build_cr_eq Build_mc_eq Some option.map option.rel_inject lifecycle_of by simp
qed

lemma setup_filters:
  assumes "SetupWithManagerBuilder_mc lm n name T v ps = Inr reg"
  shows "reg_filters reg = DebugResourcesBehaviourPredicate v # ps"
proof (cases "ValidateInterfaces T (lifecycle_mc lm)")
  case None
  show ?thesis
  proof (cases "(ConditionsManager_mc lm \<noteq> None \<or> Spreader_mc lm \<noteq> None) \<and> ReadOnly (mc_config lm)")
    case True
    with assms None show ?thesis by (simp add: SetupWithManagerBuilder_mc_def)
  next
    case False
    with assms None show ?thesis by (force simp: SetupWithManagerBuilder_mc_def)
  qed
qed (use assms in \<open>simp add: SetupWithManagerBuilder_mc_def\<close>)

text \<open>
  Event filter: a set-up manager hands an event on exactly when the debug label of its object
  (the new one of an update) is the configured value, an absent label counting as the empty string,
  and every further predicate accepts the event.
\<close>

theorem registration_accepts:
  assumes "SetupWithManagerBuilder_mc lm n name T v ps = Inr reg"
  shows "accepts reg ev \<longleftrightarrow>
    (case labels (event_object ev) DebugLabel of None \<Rightarrow> v = [] | Some l \<Rightarrow> l = v) \<and> (\<forall>f \<in> set ps. f ev)"
  unfolding accepts_def setup_filters [OF assms]
  by (auto simp: list_all_iff Debug_iff label_value_def split: option.split)

theorem registration_accepts_witness:
  "\<exists>reg. SetupWithManagerBuilder_mc sample_mc 1 ''r'' sample_type [] [] = Inr reg \<and>
     accepts reg (UpdateEvent (sample_object\<lparr>labels := [DebugLabel \<mapsto> ''dev'']\<rparr>) sample_object)"
proof -
  from sample_mc_setup obtain reg where s: "SetupWithManagerBuilder_mc sample_mc 1 ''r'' sample_type [] [] = Inr reg" ..
  have "accepts reg (UpdateEvent (sample_object\<lparr>labels := [DebugLabel \<mapsto> ''dev'']\<rparr>) sample_object)"
    unfolding registration_accepts [OF s] by (simp add: sample_object_def)
  with s show ?thesis by blast
qed

end
