(* ===== verification/Test_Kit.thy ===== *)
theory Test_Kit
  imports Managers Lifecycle_Runs
begin

text \<open>
  The objects, subroutines and cluster stand-ins of \<open>controller/testSupport\<close>, and reconciliations with them.
  The remaining stand-ins are in the theory \<open>Test_Objects\<close>.
\<close>

section \<open>Objects\<close>

text \<open>
  The struct types of \<open>testSupport.go\<close> and \<open>testApiObjects.go\<close>; which of them has the methods for
  conditions and for spreading.  The payload holds the type and \<open>Status.Some\<close>.
\<close>

datatype test_kind =
    TestApiObject | ImplementConditions | ImplementingSpreadReconciles | NotImplementingSpreadReconciles
  | ImplementConditionsAndSpreadReconciles

record test_payload =
  tk_kind :: test_kind
  tk_Some :: string

definition test_type :: "test_kind \<Rightarrow> test_payload object_type" where
  "test_type k = \<lparr>has_conditions = (k \<in> {ImplementConditions, ImplementConditionsAndSpreadReconciles}),
     has_spread_status = (k \<in> {ImplementingSpreadReconciles, ImplementConditionsAndSpreadReconciles}),
     reconcile_timer = None\<rparr>"

definition set_Some :: "string \<Rightarrow> test_payload object \<Rightarrow> test_payload object" where
  "set_Some s i = i\<lparr>payload := (payload i)\<lparr>tk_Some := s\<rparr>\<rparr>"

section \<open>Subroutines\<close>

definition no_result :: "('p, 'w) action" where
  "no_result c i w = ((\<lparr>RequeueAfter = 0\<rparr>, None), i, w)"

definition ChangeStatusSubroutine :: "(test_payload, 'w) subroutine" where
  "ChangeStatusSubroutine = \<lparr>GetName = ''changeStatus'', Finalizers = (\<lambda>_. [''changestatus'']),
     Process = (\<lambda>c i w. ((\<lparr>RequeueAfter = 0\<rparr>, None),
       if tk_kind (payload i) \<in> {TestApiObject, ImplementingSpreadReconciles, ImplementConditions}
       then set_Some ''other string'' i else i, w)),
     Finalize = no_result, Terminate = None, Initialize = None\<rparr>"

definition AddConditionSubroutine :: "'w meta_api \<Rightarrow> cond_status \<Rightarrow> (test_payload, 'w) subroutine" where
  "AddConditionSubroutine M ready = \<lparr>GetName = ''addCondition'', Finalizers = (\<lambda>_. []),
     Process = (\<lambda>c i w.
       if tk_kind (payload i) = ImplementConditions then
         (let (_, cs, w1) = SetStatusCondition M (conditions i)
            \<lparr>cond_type = ''test'', cond_status = ready, cond_reason = ''test'', cond_message = ''test'',
             cond_generation = 0, cond_transition = 0\<rparr> w
          in ((\<lparr>RequeueAfter = 0\<rparr>, None), (set_Some ''other string'' i)\<lparr>conditions := cs\<rparr>, w1))
       else ((\<lparr>RequeueAfter = 0\<rparr>, None), i, w)),
     Finalize = no_result, Terminate = None, Initialize = None\<rparr>"

record failure_scenario =
  fs_Retry :: bool
  fs_RequeAfter :: bool
  fs_FinalizeRetry :: bool
  fs_FinalizeRequeAfter :: bool

definition failure_error :: goerror where
  "failure_error = ErrorString ''FailureScenarioSubroutine''"

text \<open>\<open>Finalize\<close> looks at \<open>RequeAfter\<close>, too; the two fields for the finalization are not used.\<close>

definition FailureScenarioSubroutine :: "failure_scenario \<Rightarrow> ('p, 'w) subroutine" where
  "FailureScenarioSubroutine f = \<lparr>GetName = ''FailureScenarioSubroutine'', Finalizers = (\<lambda>_. [''failuresubroutine'']),
     Process = (\<lambda>c i w. (if fs_RequeAfter f then (\<lparr>RequeueAfter = 10 * Second\<rparr>, None)
       else (\<lparr>RequeueAfter = 0\<rparr>, NewOperatorError (Some failure_error) (fs_Retry f) False), i, w)),
     Finalize = (\<lambda>c i w. (if fs_RequeAfter f then (\<lparr>RequeueAfter = 10 * Second\<rparr>, None)
       else (\<lparr>RequeueAfter = 0\<rparr>, NewOperatorError (Some failure_error) True False), i, w)),
     Terminate = None, Initialize = None\<rparr>"

definition SubroutineFinalizer :: string where
  "SubroutineFinalizer = ''finalizer''"

text \<open>\<open>Process\<close> asserts that the object is a \<open>TestApiObject\<close> and would panic on another: nothing is said for those.\<close>

definition FinalizerSubroutine :: "goerror option \<Rightarrow> duration \<Rightarrow> (test_payload, 'w) subroutine" where
  "FinalizerSubroutine err requeueAfter = \<lparr>GetName = ''changeStatus'', Finalizers = (\<lambda>_. [SubroutineFinalizer]),
     Process = (\<lambda>c i w. if tk_kind (payload i) = TestApiObject
       then ((\<lparr>RequeueAfter = 0\<rparr>, None), set_Some ''other string'' i, w) else undefined),
     Finalize = (\<lambda>c i w. (if err \<noteq> None then (\<lparr>RequeueAfter = 0\<rparr>, NewOperatorError err True True)
       else if requeueAfter > 0 then (\<lparr>RequeueAfter = requeueAfter\<rparr>, None) else (\<lparr>RequeueAfter = 0\<rparr>, None), i, w)),
     Terminate = None, Initialize = None\<rparr>"

section \<open>Clusters\<close>

text \<open>\<open>FakeManager.GetCluster\<close>, with the \<open>GetClient\<close> of its \<open>FakeCluster\<close>: always the same client.\<close>

definition FakeManager :: "('p, 'w) client \<Rightarrow> ('p, 'w) cluster_getter" where
  "FakeManager cl c clusterName w = (Inr cl, w)"

section \<open>Reconciliations\<close>

text \<open>The manager the tests use: one subroutine, neither spreader nor conditions.\<close>

definition one_subroutine :: "('p, 'w) subroutine \<Rightarrow> ('p, 'w) test_manager" where
  "one_subroutine s = \<lparr>tm_Logger = \<lparr>log_level = 0, log_fields = []\<rparr>, tm_SubroutinesArr = [s], tm_spreader = None,
     tm_conditionsManager = None, tm_ShouldReconcile = False, tm_prepareContextFunc = None, tm_terminator = [],
     tm_initializer = []\<rparr>"


section \<open>The fake manager\<close>

text \<open>Without a name to remove, the terminator and the initializer of a lifecycle play no part.\<close>

definition with_names :: "('p, 'w) lifecycle \<Rightarrow> string option \<Rightarrow> string option \<Rightarrow> ('p, 'w) lifecycle" where
  "with_names l t i = l\<lparr>lc_terminator := t, lc_initializer := i\<rparr>"

lemma with_names_sel [simp]:
  "lc_config (with_names l t i) = lc_config l" "lc_log (with_names l t i) = lc_log l"
  "lc_spreader (with_names l t i) = lc_spreader l" "lc_conditions (with_names l t i) = lc_conditions l"
  "lc_prepare (with_names l t i) = lc_prepare l" "lc_subroutines (with_names l t i) = lc_subroutines l"
  "lc_terminator (with_names l t i) = t" "lc_initializer (with_names l t i) = i"
  by (simp_all add: with_names_def)

lemma with_names_one:
  "reconcileSubroutine cl L (with_names l t i) log c inst s g st = reconcileSubroutine cl L l log c inst s g st"
  unfolding reconcileSubroutine_def run_chosen_def with_names_sel by (rule refl)

lemma with_names_parts:
  "MarkResourceAsFinal T (with_names l t i) = MarkResourceAsFinal T l"
  "spread_check T (with_names l t i) = spread_check T l"
  "init_conditions T (with_names l t i) = init_conditions T l"
  "prepare_context (with_names l t i) = prepare_context l"
  "begin_conditions T (with_names l t i) = begin_conditions T l"
  "done_conditions (with_names l t i) = done_conditions l"
  "fail_conditions T (with_names l t i) = fail_conditions T l"
  "final_status cl L (with_names l t i) = final_status cl L l"
  "drop_refresh_label cl (with_names l t i) = drop_refresh_label cl l"
  unfolding fun_eq_iff MarkResourceAsFinal_def spread_check_def init_conditions_def prepare_context_def
    begin_conditions_def done_conditions_def fail_conditions_def final_status_def drop_refresh_label_def with_names_sel
  by simp_all

lemma with_names_failed:
  "subroutine_failed cl L T (with_names l t i) orig d n r sr retry e cs inst st =
   subroutine_failed cl L T l orig d n r sr retry e cs inst st"
  unfolding subroutine_failed_def with_names_parts with_names_sel by (rule refl)

lemma with_names_loop:
  "process_subs cl L T (with_names l t i) log c orig d ss r cs inst st =
   process_subs cl L T l log c orig d ss r cs inst st"
proof (induction ss arbitrary: r cs inst st)
  case (Cons s ss)
  show ?case
    unfolding process_subs.simps with_names_parts with_names_one with_names_failed with_names_sel Cons.IH by (rule refl)
qed simp

lemma with_names_finish:
  assumes "\<not> has_name t" "\<not> has_name i" "\<not> has_name (lc_terminator l)" "\<not> has_name (lc_initializer l)"
  shows "finish cl L T (with_names l t i) orig d r cs inst st = finish cl L T l orig d r cs inst st"
proof -
  have "drop_terminator cl L k d r j s = (None, j, s)" "drop_initializer cl L k d r j s = (None, j, s)"
    if "\<not> has_name (lc_terminator k)" "\<not> has_name (lc_initializer k)" for k j s
    using that by (auto simp: drop_terminator_def drop_initializer_def has_name_def split: option.splits)
  then have d: "drop_terminator cl L (with_names l t i) d r j s = (None, j, s)" "drop_terminator cl L l d r j s = (None, j, s)"
    "drop_initializer cl L (with_names l t i) d r j s = (None, j, s)" "drop_initializer cl L l d r j s = (None, j, s)" for j s
    using assms by simp_all
  show ?thesis unfolding finish_def mark_end_def with_names_parts with_names_sel d by (rule refl)
qed

lemma with_names_irrelevant:
  assumes "\<not> has_name t" "\<not> has_name i" "\<not> has_name (lc_terminator l)" "\<not> has_name (lc_initializer l)"
  shows "Reconcile cl L T (with_names l t i) rid cluster c nn inst st = Reconcile cl L T l rid cluster c nn inst st"
  unfolding Reconcile_def reconcile_found_def run_subroutines_def with_names_parts with_names_loop with_names_sel
    with_names_finish [OF assms] by (rule refl)

text \<open>
  The options both managers have: their methods \<open>With...\<close> but \<open>WithTerminator\<close> and \<open>WithInitializer\<close>, which only
  the multicluster manager has.
\<close>

datatype ('p, 'w) manager_option =
    UseConditionManagement
  | UseSpreadingReconciles
  | UseReadOnly
  | UsePrepareContextFunc "('p, 'w) prepare_context"
  | UseRateLimiter "rl_option list"

fun with_option_cr :: "'w meta_api \<Rightarrow> 'w stdlib \<Rightarrow> (duration \<Rightarrow> duration \<Rightarrow> 'e) \<Rightarrow> ('p, 'w) manager_option \<Rightarrow>
    ('p, 'w, 'q, 'e) cr_manager \<Rightarrow> ('p, 'w, 'q, 'e) cr_manager option" where
  "with_option_cr M S newL UseConditionManagement l = Some (WithConditionManagement_cr M l)"
| "with_option_cr M S newL UseSpreadingReconciles l = Some (WithSpreadingReconciles_cr S l)"
| "with_option_cr M S newL UseReadOnly l = Some (WithReadOnly_cr l)"
| "with_option_cr M S newL (UsePrepareContextFunc f) l = Some (WithPrepareContextFunc_cr f l)"
| "with_option_cr M S newL (UseRateLimiter opts) l = WithStaticThenExponentialRateLimiter_cr newL opts l"

fun with_option_mc :: "'w meta_api \<Rightarrow> 'w stdlib \<Rightarrow> (duration \<Rightarrow> duration \<Rightarrow> 'e) \<Rightarrow> ('p, 'w) manager_option \<Rightarrow>
    ('p, 'w, 'q, 'e) mc_manager \<Rightarrow> ('p, 'w, 'q, 'e) mc_manager option" where
  "with_option_mc M S newL UseConditionManagement k = Some (WithConditionManagement_mc M k)"
| "with_option_mc M S newL UseSpreadingReconciles k = Some (WithSpreadingReconciles_mc S k)"
| "with_option_mc M S newL UseReadOnly k = Some (WithReadOnly_mc k)"
| "with_option_mc M S newL (UsePrepareContextFunc f) k = Some (WithPrepareContextFunc_mc f k)"
| "with_option_mc M S newL (UseRateLimiter opts) k = WithStaticThenExponentialRateLimiter_mc newL opts k"

fun with_options :: "('o \<Rightarrow> 'm \<Rightarrow> 'm option) \<Rightarrow> 'o list \<Rightarrow> 'm \<Rightarrow> 'm option" where
  "with_options f [] m = Some m"
| "with_options f (opt # opts) m = Option.bind (f opt m) (with_options f opts)"

text \<open>The two managers show the same lifecycle, one with empty names, and use the same client.\<close>

definition alike :: "('p, 'w, 'q, 'e) mc_manager \<Rightarrow> ('p, 'w, 'q, 'e) cr_manager \<Rightarrow> bool" where
  "alike k l \<longleftrightarrow> mc_log k = cr_log l \<and> mc_mgr k = FakeManager (cr_client l) \<and> mc_config k = cr_config l \<and>
     mc_subroutines k = cr_subroutines l \<and> mc_spreader k = cr_spreader l \<and>
     mc_conditionsManager k = cr_conditionsManager l \<and> mc_prepareContextFunc k = cr_prepareContextFunc l \<and>
     mc_rateLimiter k = cr_rateLimiter l \<and> mc_terminator k = [] \<and> mc_initializer k = []"

lemma alike_option:
  "alike k l \<Longrightarrow> rel_option alike (with_option_mc M S newL opt k) (with_option_cr M S newL opt l)"
  by (cases opt) (auto simp: alike_def build_defs WithPrepareContextFunc_cr_def WithPrepareContextFunc_mc_def split: sum.split)

lemma alike_options:
  "alike k l \<Longrightarrow>
   rel_option alike (with_options (with_option_mc M S newL) opts k) (with_options (with_option_cr M S newL) opts l)"
proof (induction opts arbitrary: k l)
  case (Cons opt opts)
  from alike_option [OF Cons.prems, of M S newL opt] show ?case
    by (cases rule: option.rel_cases) (auto intro: Cons.IH)
qed simp

lemma alike_lifecycle: "alike k l \<Longrightarrow> lifecycle_mc k = with_names (lifecycle_cr l) (Some []) (Some [])"
  by (simp add: alike_def lifecycle_mc_def lifecycle_cr_def with_names_def Spreader_mc_def Spreader_cr_def
      ConditionsManager_mc_def ConditionsManager_cr_def)

lemma alike_reconcile:
  assumes "alike k l"
  shows "Reconcile_mc L T k rid None c cn nn inst st = Reconcile_cr L T l rid c nn inst st"
proof -
  have "mc_mgr k = FakeManager (cr_client l)" using assms by (simp add: alike_def)
  then show ?thesis unfolding Reconcile_mc_def Reconcile_cr_def alike_lifecycle [OF assms]
    by (simp add: FakeManager_def with_names_irrelevant has_name_def)
qed

text \<open>
  C26.  The fake manager is faithful: make a multicluster manager with the \<open>FakeManager\<close> of a client and a controller-runtime
  manager with that client, by their constructors and the same options in the same order, none of them a terminator or an
  initializer.  Either both end the process or neither does, and then they reconcile alike, outside a named cluster:
  results, objects, states of the world and traces agree, panics included.
\<close>

theorem fake_manager_equivalence:
  fixes newL :: "duration \<Rightarrow> duration \<Rightarrow> 'e" and subs :: "('p, 'w) subroutine list"
  shows "rel_option (\<lambda>(k :: ('p, 'w, 'q, 'e) mc_manager) (l :: ('p, 'w, 'q, 'e) cr_manager).
      \<forall>L T rid c cn nn inst st. Reconcile_mc L T k rid None c cn nn inst st = Reconcile_cr L T l rid c nn inst st)
    (Option.bind (NewLifecycleManager_mc subs operatorName controllerName (FakeManager cl) log)
      (with_options (with_option_mc M S newL) opts))
    (Option.bind (NewLifecycleManager_cr subs operatorName controllerName cl log)
      (with_options (with_option_cr M S newL) opts))"
proof (cases "MustChildLoggerWithAttributes log [''operator'', operatorName, ''controller'', controllerName]")
  case None
  then show ?thesis by (simp add: NewLifecycleManager_mc_def NewLifecycleManager_cr_def)
next
  case (Some log1)
  then obtain k :: "('p, 'w, 'q, 'e) mc_manager" and l :: "('p, 'w, 'q, 'e) cr_manager" where
    n: "NewLifecycleManager_mc subs operatorName controllerName (FakeManager cl) log = Some k"
      "NewLifecycleManager_cr subs operatorName controllerName cl log = Some l" "alike k l"
    by (simp add: NewLifecycleManager_mc_def NewLifecycleManager_cr_def alike_def)
  show ?thesis unfolding n(1,2) Option.bind.simps(2)
    by (rule option.rel_mono_strong [OF alike_options [OF n(3)]]) (simp add: alike_reconcile)
qed

section \<open>The finalizer scenarios\<close>

text \<open>
  The finalizer scenarios: an object in deletion that has the finalizer of a \<open>FinalizerSubroutine\<close>
  keeps it when the subroutine fails, and the error comes back; it keeps it when the subroutine asks for
  a requeue, and the delay comes back; otherwise the finalizer, all occurrences of it and no other one, is
  removed and the reconciliation is done.
\<close>

theorem FinalizerSubroutine_scenarios:
  assumes "deletionTimestamp i \<noteq> None" and "deletionTimestamp i \<noteq> Some 0" and "SubroutineFinalizer \<in> set (finalizers i)"
  shows "\<exists>st'. Reconcile ok_client ok_library (test_type k) (lifecycle_test (one_subroutine (FinalizerSubroutine err d)))
      rid None c nn i st =
    Some (case err of
        Some e \<Rightarrow> ((\<lparr>RequeueAfter = 0\<rparr>, Some e), i, st')
      | None \<Rightarrow> if d > 0 then ((\<lparr>RequeueAfter = d\<rparr>, None), i, st')
          else ((\<lparr>RequeueAfter = 0\<rparr>, None), i\<lparr>finalizers := filter (\<lambda>f. f \<noteq> SubroutineFinalizer) (finalizers i)\<rparr>, st'))"
  using assms
  by (cases err) (auto simp: lifecycle_defs one_subroutine_def lifecycle_test_def FinalizerSubroutine_def
      ok_client_def ok_library_def NewOperatorError_def containsFinalizer.simps remove_finalizers.simps)

theorem FinalizerSubroutine_scenarios_witness:
  "\<exists>(ob :: test_payload object) st'. finalizers ob = [''finalizer''] \<and>
     Reconcile ok_client ok_library (test_type TestApiObject)
       (lifecycle_test (one_subroutine (FinalizerSubroutine None (1 * Second)))) ''r'' None Map.empty request ob (start ()) =
     Some ((\<lparr>RequeueAfter = Second\<rparr>, None), ob, st')"
proof -
  define ob :: "test_payload object" where
    "ob = \<lparr>obj_name = ''a'', generation = 1, labels = Map.empty, finalizers = [''finalizer''],
       deletionTimestamp = Some 1, conditions = [], nextReconcileTime = 0, observedGeneration = 0,
       terminators = [], initializers = [], payload = \<lparr>tk_kind = TestApiObject, tk_Some = []\<rparr>\<rparr>"
  obtain st' where "Reconcile ok_client ok_library (test_type TestApiObject)
      (lifecycle_test (one_subroutine (FinalizerSubroutine None (1 * Second)))) ''r'' None Map.empty request ob (start ()) =
    Some ((\<lparr>RequeueAfter = Second\<rparr>, None), ob, st')"
    using FinalizerSubroutine_scenarios [where i = ob and k = TestApiObject and err = None and d = "1 * Second"
        and rid = "''r''" and c = Map.empty and nn = request and st = "start ()"]
    by (auto simp: ob_def SubroutineFinalizer_def)
  moreover have "finalizers ob = [''finalizer'']" by (simp add: ob_def)
  ultimately show ?thesis by blast
qed

end
