(* ===== verification/Test_Objects.thy ===== *)
theory Test_Objects
  imports Test_Kit
begin

text \<open>
  The rest of \<open>controller/testSupport\<close>: the deep copies of the test objects, over a store that shows which
  slices they share; the subroutine that reads a value of the context; the stand-ins for clusters, for the
  cluster provider and for runtime objects; the fake client.
\<close>

section \<open>Deep copies\<close>

text \<open>
  The store keeps the arrays behind the slices, of conditions and of strings; a slice is nil or an array with
  a length.
\<close>

datatype slice = NilSlice | Slice nat nat

record test_heap =
  cond_arrays :: "nat \<Rightarrow> condition list"
  string_arrays :: "nat \<Rightarrow> string list"
  next_array :: nat

fun elems :: "(nat \<Rightarrow> 'a list) \<Rightarrow> slice \<Rightarrow> 'a list" where
  "elems h NilSlice = []"
| "elems h (Slice a n) = take n (h a)"

text \<open>\<open>s[i] = x\<close>; an index out of range panics.\<close>

fun set_elem :: "(nat \<Rightarrow> 'a list) \<Rightarrow> slice \<Rightarrow> nat \<Rightarrow> 'a \<Rightarrow> (nat \<Rightarrow> 'a list) option" where
  "set_elem h NilSlice i x = None"
| "set_elem h (Slice a n) i x = (if i < n then Some (h(a := (h a)[i := x])) else None)"

record test_status =
  st_Some :: string
  st_Conditions :: slice
  st_NextReconcileTime :: gotime
  st_ObservedGeneration :: int
  st_Terminators :: slice
  st_Initializers :: slice

text \<open>The type meta has two strings; the object meta is the library's.\<close>

record 'm test_object =
  to_TypeMeta :: "string \<times> string"
  to_ObjectMeta :: 'm
  to_Status :: test_status

record 'm no_status_object =
  ns_TypeMeta :: "string \<times> string"
  ns_ObjectMeta :: 'm

text \<open>The first argument is \<open>DeepCopyInto\<close> of \<open>ObjectMeta\<close>; \<open>*out = *m\<close> copies the fields, slices by reference.\<close>

type_synonym 'm meta_copy = "'m \<Rightarrow> test_heap \<Rightarrow> 'm \<times> test_heap"

definition DeepCopyInto_TestApiObject :: "'m meta_copy \<Rightarrow> 'm test_object \<Rightarrow> test_heap \<Rightarrow> 'm test_object \<times> test_heap" where
  "DeepCopyInto_TestApiObject copy_meta m h =
     (let out = m;
          out1 = out\<lparr>to_TypeMeta := to_TypeMeta m\<rparr>;
          (meta, h1) = copy_meta (to_ObjectMeta m) h
      in (out1\<lparr>to_ObjectMeta := meta\<rparr>, h1))"

definition DeepCopyInto_NotImplementing :: "'m meta_copy \<Rightarrow> 'm test_object \<Rightarrow> test_heap \<Rightarrow> 'm test_object \<times> test_heap" where
  "DeepCopyInto_NotImplementing copy_meta m h =
     (let out = m;
          out1 = out\<lparr>to_TypeMeta := to_TypeMeta m\<rparr>;
          (meta, h1) = copy_meta (to_ObjectMeta m) h
      in (out1\<lparr>to_ObjectMeta := meta, to_Status := to_Status m\<rparr>, h1))"

definition DeepCopyInto_NoStatus :: "'m meta_copy \<Rightarrow> 'm no_status_object \<Rightarrow> test_heap \<Rightarrow> 'm no_status_object \<times> test_heap" where
  "DeepCopyInto_NoStatus copy_meta m h =
     (let out = m;
          out1 = out\<lparr>ns_TypeMeta := ns_TypeMeta m\<rparr>;
          (meta, h1) = copy_meta (ns_ObjectMeta m) h
      in (out1\<lparr>ns_ObjectMeta := meta\<rparr>, h1))"

text \<open>\<open>DeepCopy\<close>, for the three types alike: a nil pointer has a nil copy.  \<open>DeepCopyObject\<close> makes a nil interface of it.\<close>

definition DeepCopy :: "('o \<Rightarrow> test_heap \<Rightarrow> 'o \<times> test_heap) \<Rightarrow> 'o option \<Rightarrow> test_heap \<Rightarrow> 'o option \<times> test_heap" where
  "DeepCopy into t h = (case t of None \<Rightarrow> (None, h) | Some m \<Rightarrow> (let (out, h1) = into m h in (Some out, h1)))"

definition DeepCopyObject :: "('o \<Rightarrow> test_heap \<Rightarrow> 'o \<times> test_heap) \<Rightarrow> 'o option \<Rightarrow> test_heap \<Rightarrow> 'o option \<times> test_heap" where
  "DeepCopyObject into t h = (case DeepCopy into t h of (Some c, h1) \<Rightarrow> (Some c, h1) | (None, h1) \<Rightarrow> (None, h1))"

definition DeepCopyObject_TestApiObject :: "'m meta_copy \<Rightarrow> 'm test_object option \<Rightarrow> test_heap \<Rightarrow> 'm test_object option \<times> test_heap" where
  "DeepCopyObject_TestApiObject copy_meta = DeepCopyObject (DeepCopyInto_TestApiObject copy_meta)"

definition DeepCopyObject_NoStatus :: "'m meta_copy \<Rightarrow> 'm no_status_object option \<Rightarrow> test_heap \<Rightarrow> 'm no_status_object option \<times> test_heap" where
  "DeepCopyObject_NoStatus copy_meta = DeepCopyObject (DeepCopyInto_NoStatus copy_meta)"

definition DeepCopyObject_NotImplementing :: "'m meta_copy \<Rightarrow> 'm test_object option \<Rightarrow> test_heap \<Rightarrow> 'm test_object option \<times> test_heap" where
  "DeepCopyObject_NotImplementing copy_meta = DeepCopyObject (DeepCopyInto_NotImplementing copy_meta)"

text \<open>A nil object has a nil copy, and no copy of another object is nil.\<close>

lemma DeepCopyObject_nil: "fst (DeepCopyObject into t h) = None \<longleftrightarrow> t = None"
  by (cases t) (auto simp: DeepCopyObject_def DeepCopy_def split: prod.split)

subsection \<open>What a copy shares\<close>

text \<open>A write to an element of one of the three slices of a status.\<close>

datatype status_write = WriteCondition nat condition | WriteTerminator nat string | WriteInitializer nat string

fun status_set :: "test_status \<Rightarrow> status_write \<Rightarrow> test_heap \<Rightarrow> test_heap option" where
  "status_set s (WriteCondition i c) h =
     map_option (\<lambda>a. h\<lparr>cond_arrays := a\<rparr>) (set_elem (cond_arrays h) (st_Conditions s) i c)"
| "status_set s (WriteTerminator i t) h =
     map_option (\<lambda>a. h\<lparr>string_arrays := a\<rparr>) (set_elem (string_arrays h) (st_Terminators s) i t)"
| "status_set s (WriteInitializer i t) h =
     map_option (\<lambda>a. h\<lparr>string_arrays := a\<rparr>) (set_elem (string_arrays h) (st_Initializers s) i t)"

fun status_sets :: "test_status \<Rightarrow> status_write list \<Rightarrow> test_heap \<Rightarrow> test_heap option" where
  "status_sets s [] h = Some h"
| "status_sets s (w # ws) h = (case status_set s w h of None \<Rightarrow> None | Some h1 \<Rightarrow> status_sets s ws h1)"

text \<open>What a status reads as.\<close>

definition status_view :: "test_heap \<Rightarrow> test_status \<Rightarrow> condition list \<times> string list \<times> string list" where
  "status_view h s = (elems (cond_arrays h) (st_Conditions s), elems (string_arrays h) (st_Terminators s),
     elems (string_arrays h) (st_Initializers s))"

text \<open>
  \<open>DeepCopyInto\<close> of \<open>ObjectMeta\<close> as its documentation has it: the copy reads like the original, with arrays
  of its own; \<open>view\<close> is what a reader of the meta sees, and \<open>old\<close> says which arrays existed before.
\<close>

definition meta_copy_laws :: "'m meta_copy \<Rightarrow> (test_heap \<Rightarrow> 'm \<Rightarrow> 'v) \<Rightarrow> bool" where
  "meta_copy_laws copy_meta view \<longleftrightarrow> (\<forall>m h m1 h1. copy_meta m h = (m1, h1) \<longrightarrow>
     cond_arrays h1 = cond_arrays h \<and> (\<forall>a < next_array h. string_arrays h1 a = string_arrays h a) \<and>
     (\<forall>h2. (\<forall>a. next_array h \<le> a \<longrightarrow> string_arrays h2 a = string_arrays h1 a) \<longrightarrow> view h2 m1 = view h m))"

fun allocated :: "slice \<Rightarrow> nat \<Rightarrow> bool" where
  "allocated NilSlice n \<longleftrightarrow> True"
| "allocated (Slice a k) n \<longleftrightarrow> a < n"

definition below :: "test_status \<Rightarrow> nat \<Rightarrow> bool" where
  "below s n \<longleftrightarrow> allocated (st_Terminators s) n \<and> allocated (st_Initializers s) n"

lemma status_set_frame:
  "status_set s w h = Some h1 \<Longrightarrow> below s n \<Longrightarrow> n \<le> a \<Longrightarrow> string_arrays h1 a = string_arrays h a"
  by (cases "(s, w, h)" rule: status_set.cases; cases "st_Terminators s"; cases "st_Initializers s")
    (auto simp: below_def split: if_splits)

lemma status_sets_frame:
  "status_sets s ws h = Some h1 \<Longrightarrow> below s n \<Longrightarrow> n \<le> a \<Longrightarrow> string_arrays h1 a = string_arrays h a"
  by (induction s ws h rule: status_sets.induct) (auto split: option.splits simp: status_set_frame)

text \<open>
  The copy of a test object is no snapshot: whatever is written to the elements of the conditions, terminators
  and initializers of the original after the copy shows in the copy, too, so a comparison of the two
  statuses does not see it; the metadata of the copy keeps the values it had.
\<close>

lemma DeepCopyInto_shares_status:
  assumes "meta_copy_laws copy_meta view" "below (to_Status m) (next_array h)"
    and "DeepCopyInto_TestApiObject copy_meta m h = (out, h1)" and "status_sets (to_Status m) ws h1 = Some h2"
  shows "status_view h2 (to_Status out) = status_view h2 (to_Status m) \<and> view h2 (to_ObjectMeta out) = view h (to_ObjectMeta m)"
proof -
  obtain m1 where c: "copy_meta (to_ObjectMeta m) h = (m1, h1)" "out = m\<lparr>to_ObjectMeta := m1\<rparr>"
    using assms(3) by (auto simp: DeepCopyInto_TestApiObject_def Let_def split: prod.splits)
  have "\<forall>a. next_array h \<le> a \<longrightarrow> string_arrays h2 a = string_arrays h1 a"
    using status_sets_frame [OF assms(4,2)] by blast
  with assms(1) c(1) have "view h2 m1 = view h (to_ObjectMeta m)" unfolding meta_copy_laws_def by blast
  with c(2) show ?thesis by simp
qed

text \<open>A test object as the lifecycle sees it; \<open>view\<close> gives the part the metadata determine.\<close>

definition object_of ::
  "(test_heap \<Rightarrow> 'm \<Rightarrow> test_payload object) \<Rightarrow> test_heap \<Rightarrow> 'm test_object \<Rightarrow> test_payload object" where
  "object_of view h m = (view h (to_ObjectMeta m))\<lparr>
     conditions := elems (cond_arrays h) (st_Conditions (to_Status m)),
     nextReconcileTime := st_NextReconcileTime (to_Status m),
     observedGeneration := st_ObservedGeneration (to_Status m),
     terminators := elems (string_arrays h) (st_Terminators (to_Status m)),
     initializers := elems (string_arrays h) (st_Initializers (to_Status m)),
     payload := \<lparr>tk_kind = TestApiObject, tk_Some = st_Some (to_Status m)\<rparr>\<rparr>"

definition same_status :: "'p object \<Rightarrow> 'p object \<Rightarrow> bool" where
  "same_status a b \<longleftrightarrow> conditions a = conditions b \<and> nextReconcileTime a = nextReconcileTime b \<and>
     observedGeneration a = observedGeneration b \<and> terminators a = terminators b \<and> initializers a = initializers b \<and>
     payload a = payload b"

text \<open>Objects with the same status have equal status fields in their unstructured forms.\<close>

definition status_laws :: "('p, 'u) library \<Rightarrow> bool" where
  "status_laws L \<longleftrightarrow> (\<forall>a b u v x y. same_status a b \<and> ToUnstructured L a = Inr u \<and> ToUnstructured L b = Inr v \<and>
     NestedFieldCopy L u [''status''] = Inr x \<and> NestedFieldCopy L v [''status''] = Inr y \<longrightarrow> DeepEqual L x y)"

lemma unchanged_status:
  assumes "status_laws L" "same_status cur orig"
  shows "\<exists>e. updateStatus cl L orig cur g st = (e, cur, st)"
  using assms unfolding status_laws_def updateStatus_def by (fastforce split: sum.split)

text \<open>
  C40.  Changes in place are not sent: when the original is kept by the \<open>DeepCopy\<close> of the test objects, as the
  lifecycle does at the start of a reconciliation, and the status of the object is then changed only by writes
  to elements of its conditions, terminators or initializers, such as the new status of an existing condition,
  the final status update finds no difference and sends nothing; only the metadata are kept as they were.
\<close>

theorem in_place_changes_unsent:
  assumes "status_laws L" and "meta_copy_laws copy_meta view" and "below (to_Status m) (next_array h)"
    and "DeepCopyInto_TestApiObject copy_meta m h = (orig, h1)" and "status_sets (to_Status m) ws h1 = Some h2"
  shows "(\<exists>e. updateStatus cl L (object_of view h2 orig) (object_of view h2 m) g st = (e, object_of view h2 m, st)) \<and>
    view h2 (to_ObjectMeta orig) = view h (to_ObjectMeta m)"
proof -
  have "to_Status orig = to_Status m"
    using assms(4) by (auto simp: DeepCopyInto_TestApiObject_def Let_def split: prod.splits)
  then have "same_status (object_of view h2 m) (object_of view h2 orig)" by (simp add: same_status_def object_of_def)
  from unchanged_status [OF assms(1) this] DeepCopyInto_shares_status [OF assms(2-5)] show ?thesis by blast
qed

text \<open>An object with the condition \<open>Ready\<close>, which becomes true in place.\<close>

definition ready_condition :: "cond_status \<Rightarrow> condition" where
  "ready_condition s = \<lparr>cond_type = ''Ready'', cond_status = s, cond_reason = [], cond_message = [],
     cond_generation = 1, cond_transition = 0\<rparr>"

definition heap_object :: "unit test_object" where
  "heap_object = \<lparr>to_TypeMeta = ([], []), to_ObjectMeta = (), to_Status = \<lparr>st_Some = [], st_Conditions = Slice 0 1,
     st_NextReconcileTime = 0, st_ObservedGeneration = 0, st_Terminators = NilSlice, st_Initializers = NilSlice\<rparr>\<rparr>"

definition one_array :: test_heap where
  "one_array = \<lparr>cond_arrays = (\<lambda>_. [ready_condition ConditionFalse]), string_arrays = (\<lambda>_. []), next_array = 1\<rparr>"

definition no_meta :: "test_heap \<Rightarrow> unit \<Rightarrow> test_payload object" where
  "no_meta h m = \<lparr>obj_name = ''a'', generation = 1, labels = Map.empty, finalizers = [], deletionTimestamp = None,
     conditions = [], nextReconcileTime = 0, observedGeneration = 0, terminators = [], initializers = [],
     payload = \<lparr>tk_kind = TestApiObject, tk_Some = []\<rparr>\<rparr>"

theorem in_place_changes_unsent_witness:
  "\<exists>h2 e. status_sets (to_Status heap_object) [WriteCondition 0 (ready_condition ConditionTrue)] one_array = Some h2 \<and>
     conditions (object_of no_meta h2 heap_object) = [ready_condition ConditionTrue] \<and>
     conditions (object_of no_meta one_array heap_object) = [ready_condition ConditionFalse] \<and>
     updateStatus ok_client ok_library (object_of no_meta h2 heap_object) (object_of no_meta h2 heap_object) True (start ()) =
       (e, object_of no_meta h2 heap_object, start ())"
proof -
  have copy: "DeepCopyInto_TestApiObject Pair heap_object one_array = (heap_object, one_array)"
    by (simp add: DeepCopyInto_TestApiObject_def)
  have laws: "status_laws (ok_library :: (test_payload, test_payload object) library)" "meta_copy_laws Pair no_meta"
    "below (to_Status heap_object) (next_array one_array)"
    by (auto simp: status_laws_def ok_library_def same_status_def meta_copy_laws_def no_meta_def below_def heap_object_def)
  obtain h2 where h2: "status_sets (to_Status heap_object) [WriteCondition 0 (ready_condition ConditionTrue)] one_array = Some h2"
    "cond_arrays h2 0 = [ready_condition ConditionTrue]"
    by (auto simp: heap_object_def one_array_def)
  then have "conditions (object_of no_meta h2 heap_object) = [ready_condition ConditionTrue]"
    "conditions (object_of no_meta one_array heap_object) = [ready_condition ConditionFalse]"
    by (simp_all add: object_of_def heap_object_def one_array_def)
  with h2(1) in_place_changes_unsent [OF laws copy h2(1), of ok_client True "start ()"] show ?thesis by blast
qed

section \<open>The subroutine that reads the context\<close>

definition ContextValueKey :: ctx_key where "ContextValueKey = ContextKey ''ContextValueKey''"

text \<open>For a context without a string under the key the type assertion panics: nothing is said for those.\<close>

definition ContextValueSubroutine :: "(test_payload, 'w) subroutine" where
  "ContextValueSubroutine = \<lparr>GetName = ''ContextValueSubroutine'', Finalizers = (\<lambda>_. []),
     Process = (\<lambda>c i w. ((\<lparr>RequeueAfter = 0\<rparr>, None),
       if tk_kind (payload i) = TestApiObject
       then (case c ContextValueKey of Some (VString s) \<Rightarrow> set_Some s i | _ \<Rightarrow> undefined) else i, w)),
     Finalize = no_result, Terminate = None, Initialize = None\<rparr>"

text \<open>
  The prepare function and the subroutines of one reconciliation: the value the function puts into the
  context is the one the subroutine reads.
\<close>

lemma prepared_value_is_read:
  assumes "deletionTimestamp i = None" and "tk_kind (payload i) = TestApiObject"
    and "\<And>c j w. prep c j w = ((c(ContextValueKey \<mapsto> VString v), None), j, w)"
  shows "\<exists>r i' st'. Reconcile ok_client ok_library (test_type TestApiObject)
      (lifecycle_test ((one_subroutine ContextValueSubroutine)\<lparr>tm_prepareContextFunc := Some prep\<rparr>)) rid None c nn i st =
    Some (r, i', st') \<and> tk_Some (payload i') = v"
  using assms
  by (auto simp: lifecycle_defs one_subroutine_def lifecycle_test_def ContextValueSubroutine_def set_Some_def
      ok_client_def ok_library_def ContextValueKey_def SetLoggerInContext_def LoggerCtxKey_def WithValue_def)

section \<open>Clusters\<close>

text \<open>The interface \<open>cluster.Cluster\<close>; pointers and interfaces other than the client are numbers, \<open>None\<close> for nil.\<close>

record ('p, 'w) cluster =
  cluster_GetHTTPClient :: "nat option"
  cluster_GetConfig :: "nat option"
  cluster_GetCache :: "nat option"
  cluster_GetScheme :: "nat option"
  cluster_GetClient :: "('p, 'w) client"
  cluster_GetFieldIndexer :: "nat option"
  cluster_GetEventRecorderFor :: "string \<Rightarrow> nat option"
  cluster_GetRESTMapper :: "nat option"
  cluster_GetAPIReader :: "nat option"
  cluster_Start :: "ctx \<Rightarrow> goerror option"
  cluster_GetEventRecorder :: "string \<Rightarrow> nat option"

definition FakeCluster :: "('p, 'w) client \<Rightarrow> ('p, 'w) cluster" where
  "FakeCluster cl = \<lparr>cluster_GetHTTPClient = None, cluster_GetConfig = None, cluster_GetCache = None,
     cluster_GetScheme = None, cluster_GetClient = cl, cluster_GetFieldIndexer = None,
     cluster_GetEventRecorderFor = (\<lambda>_. None), cluster_GetRESTMapper = None, cluster_GetAPIReader = None,
     cluster_Start = (\<lambda>_. None), cluster_GetEventRecorder = (\<lambda>_. None)\<rparr>"

definition FakeManager_GetCluster ::
  "('p, 'w) client \<Rightarrow> ctx \<Rightarrow> string \<Rightarrow> goerror + ('p, 'w) cluster" where
  "FakeManager_GetCluster cl c clusterName = Inr (FakeCluster cl)"

text \<open>The manager of the theory \<open>Test_Kit\<close> is this one, followed by \<open>GetClient\<close>.\<close>

lemma FakeManager_client:
  "FakeManager cl c n w = (map_sum id cluster_GetClient (FakeManager_GetCluster cl c n), w)"
  by (simp add: FakeManager_def FakeManager_GetCluster_def FakeCluster_def)

text \<open>\<open>cluster.New\<close> is a parameter.\<close>

definition NewFakeProvider :: "'cfg \<Rightarrow> 'cfg" where
  "NewFakeProvider cfg = cfg"

definition FakeProvider_Get ::
  "('cfg \<Rightarrow> goerror + ('p, 'w) cluster) \<Rightarrow> 'cfg \<Rightarrow> ctx \<Rightarrow> string \<Rightarrow> goerror + ('p, 'w) cluster" where
  "FakeProvider_Get cluster_New f c clusterName = cluster_New f"

definition FakeProvider_IndexField :: "'cfg \<Rightarrow> ctx \<Rightarrow> string \<Rightarrow> goerror option" where
  "FakeProvider_IndexField f c fld = None"

section \<open>The dummy runtime object\<close>

text \<open>A getter and its setter; the struct has no fields, so its setters change nothing.\<close>

record ('o, 'v) accessor =
  acc_get :: "'o \<Rightarrow> 'v"
  acc_set :: "'v \<Rightarrow> 'o \<Rightarrow> 'o"

definition constant_accessor :: "'v \<Rightarrow> ('o, 'v) accessor" where
  "constant_accessor v = \<lparr>acc_get = (\<lambda>_. v), acc_set = (\<lambda>_ d. d)\<rparr>"

record 'o runtime_object_methods =
  ro_GetObjectKind :: "'o \<Rightarrow> nat option"
  ro_DeepCopyObject :: "'o \<Rightarrow> 'o option"
  ro_Annotations :: "('o, string \<rightharpoonup> string) accessor"
  ro_CreationTimestamp :: "('o, gotime) accessor"
  ro_Namespace :: "('o, string) accessor"
  ro_Name :: "('o, string) accessor"
  ro_GenerateName :: "('o, string) accessor"
  ro_UID :: "('o, string) accessor"
  ro_Generation :: "('o, int) accessor"
  ro_ResourceVersion :: "('o, string) accessor"
  ro_Finalizers :: "('o, string list) accessor"
  ro_Labels :: "('o, string \<rightharpoonup> string) accessor"
  ro_OwnerReferences :: "('o, nat list) accessor"
  ro_ManagedFields :: "('o, nat list) accessor"
  ro_SelfLink :: "('o, string) accessor"
  ro_ClusterName :: "('o, string) accessor"
  ro_DeletionTimestamp :: "('o, gotime option) accessor"
  ro_DeletionGracePeriodSeconds :: "('o, int option) accessor"

definition DummyRuntimeObject :: "unit runtime_object_methods" where
  "DummyRuntimeObject = \<lparr>ro_GetObjectKind = (\<lambda>_. None), ro_DeepCopyObject = (\<lambda>_. None),
     ro_Annotations = constant_accessor Map.empty, ro_CreationTimestamp = constant_accessor 0,
     ro_Namespace = constant_accessor [], ro_Name = constant_accessor [], ro_GenerateName = constant_accessor [],
     ro_UID = constant_accessor [], ro_Generation = constant_accessor 0, ro_ResourceVersion = constant_accessor [],
     ro_Finalizers = constant_accessor [], ro_Labels = constant_accessor Map.empty,
     ro_OwnerReferences = constant_accessor [], ro_ManagedFields = constant_accessor [],
     ro_SelfLink = constant_accessor [], ro_ClusterName = constant_accessor [],
     ro_DeletionTimestamp = constant_accessor None, ro_DeletionGracePeriodSeconds = constant_accessor None\<rparr>"

definition DummyConditions :: "(unit, condition list) accessor" where
  "DummyConditions = constant_accessor []"

subsection \<open>The methods of the test objects\<close>

text \<open>The objects of \<open>testSupport.go\<close> with conditions and spreading read and write the fields of their status.\<close>

definition conditions_methods :: "('p object, condition list) accessor" where
  "conditions_methods = \<lparr>acc_get = conditions, acc_set = (\<lambda>cs m. m\<lparr>conditions := cs\<rparr>)\<rparr>"

record 'o spread_methods =
  sm_GetGeneration :: "'o \<Rightarrow> int"
  sm_ObservedGeneration :: "('o, int) accessor"
  sm_NextReconcileTime :: "('o, gotime) accessor"

definition status_spread_methods :: "'p object spread_methods" where
  "status_spread_methods = \<lparr>sm_GetGeneration = generation,
     sm_ObservedGeneration = \<lparr>acc_get = observedGeneration, acc_set = (\<lambda>g m. m\<lparr>observedGeneration := g\<rparr>)\<rparr>,
     sm_NextReconcileTime = \<lparr>acc_get = nextReconcileTime, acc_set = (\<lambda>time m. m\<lparr>nextReconcileTime := time\<rparr>)\<rparr>\<rparr>"

definition ConditionsAndSpread_methods :: "('p object, condition list) accessor \<times> 'p object spread_methods" where
  "ConditionsAndSpread_methods = (conditions_methods, status_spread_methods)"

text \<open>What the lifecycle expects of such methods, and what the dummy does not give it.\<close>

definition lawful :: "('o, 'v) accessor \<Rightarrow> bool" where
  "lawful a \<longleftrightarrow> (\<forall>v m. acc_get a (acc_set a v m) = v)"

lemma test_methods_lawful:
  "lawful (fst ConditionsAndSpread_methods)" "lawful (sm_ObservedGeneration (snd ConditionsAndSpread_methods))"
  "lawful (sm_NextReconcileTime (snd ConditionsAndSpread_methods))"
  by (simp_all add: lawful_def ConditionsAndSpread_methods_def conditions_methods_def status_spread_methods_def)

lemma dummy_not_lawful: "\<not> lawful DummyConditions" "\<not> lawful (ro_Finalizers DummyRuntimeObject)"
  by (auto simp: lawful_def DummyConditions_def DummyRuntimeObject_def constant_accessor_def)

section \<open>The fake client\<close>

text \<open>
  The builders of controller-runtime are parameters; a failed assertion on the error only marks the test.
\<close>

record ('b, 's, 'o, 'c) fake_builder =
  fb_NewClientBuilder :: 'b
  fb_NewSchemeBuilder :: "string \<Rightarrow> string \<Rightarrow> 's"
  fb_Register :: "'o \<Rightarrow> 's \<Rightarrow> 's"
  fb_WithStatusSubresource :: "'o \<Rightarrow> 'b \<Rightarrow> 'b"
  fb_AddToScheme :: "'s \<Rightarrow> goerror option"
  fb_WithScheme :: "'s \<Rightarrow> 'b \<Rightarrow> 'b"
  fb_WithObjects :: "'o list \<Rightarrow> 'b \<Rightarrow> 'b"
  fb_Build :: "'b \<Rightarrow> 'c"

definition CreateFakeClient :: "('b, 's, 'o, 'c) fake_builder \<Rightarrow> 'o \<Rightarrow> 'o list \<Rightarrow> bool \<times> 'c" where
  "CreateFakeClient B test_api_object objects =
     (let sBuilder = fb_Register B test_api_object (fb_NewSchemeBuilder B ''test.platform-mesh.io'' ''v1alpha1'');
          (sBuilder1, builder) = fold (\<lambda>obj (sb, b). (fb_Register B obj sb, fb_WithStatusSubresource B obj b))
             objects (sBuilder, fb_NewClientBuilder B);
          err = fb_AddToScheme B sBuilder1
      in (err = None, fb_Build B (fb_WithObjects B objects (fb_WithScheme B sBuilder1 builder))))"

end
