(* ===== verification/Fga_Naming.thy ===== *)
theory Fga_Naming
  imports Prelude
begin

text \<open>
  The names the authorization store is addressed by: type names (\<open>fga/util/util.go\<close>), object names
  and the parent tuples of a resource (\<open>fga/model/model.go\<close>), and the user ids of
  \<open>fga/helpers/helper.go\<close>.  Strings are byte lists; what \<open>strings.ToLower\<close> does outside ASCII is the parameter \<open>U\<close>.
\<close>

section \<open>Type names\<close>

definition maxRelationLength :: int where
  "maxRelationLength = 50"

definition capGroupSingularLength :: "string \<Rightarrow> string \<Rightarrow> int \<Rightarrow> string" where
  "capGroupSingularLength grp singular maxLength =
     (let groupSingular = grp @ ''_'' @ singular;
          maxRelation = ''create_'' @ groupSingular @ ''s''
      in if int (length maxRelation) > maxLength \<and> maxLength > 0
         then (let truncateLen = int (length maxRelation) - maxLength in drop (nat truncateLen) groupSingular)
         else groupSingular)"

definition ConvertToTypeName :: "(string \<Rightarrow> string) \<Rightarrow> string \<Rightarrow> string \<Rightarrow> string" where
  "ConvertToTypeName U grp singular =
     (let group1 = (if grp = [] then ''core'' else grp);
          objectType1 = capGroupSingularLength group1 singular maxRelationLength;
          objectType2 = trimPrefix objectType1 ''_'';
          objectType3 = replaceChar CHR ''.'' CHR ''_'' objectType2
      in toLower U objectType3)"

section \<open>Object names and parent tuples\<close>

definition BuildObjectType :: "(string \<Rightarrow> string) \<Rightarrow> string \<Rightarrow> string \<Rightarrow> string" where
  "BuildObjectType U grp singular = ConvertToTypeName U grp singular"

definition BuildObjectNameFromType :: "string \<Rightarrow> string \<Rightarrow> string \<Rightarrow> string option \<Rightarrow> string" where
  "BuildObjectNameFromType objectType clusterID name ns =
     (case ns of
        Some n \<Rightarrow> if n \<noteq> [] then objectType @ '':'' @ clusterID @ ''/'' @ n @ ''/'' @ name
                  else objectType @ '':'' @ clusterID @ ''/'' @ name
      | None \<Rightarrow> objectType @ '':'' @ clusterID @ ''/'' @ name)"

definition BuildObjectName :: "(string \<Rightarrow> string) \<Rightarrow> string \<Rightarrow> string \<Rightarrow> string \<Rightarrow> string \<Rightarrow> string option \<Rightarrow> string" where
  "BuildObjectName U grp singular clusterID name ns =
     BuildObjectNameFromType (BuildObjectType U grp singular) clusterID name ns"

record ResourceContext =
  rc_Group :: string
  rc_Kind :: string
  rc_ClusterID :: string
  rc_Name :: string
  rc_Namespace :: string

record tuple_key =
  tk_Object :: string
  tk_Relation :: string
  tk_User :: string

text \<open>A nil slice and an empty one are both \<open>[]\<close> here: \<open>BuildParentTuples\<close> returns no empty slice.\<close>

definition BuildParentTuples :: "string \<Rightarrow> string \<Rightarrow> string option \<Rightarrow> tuple_key list" where
  "BuildParentTuples parentObject ob namespaceObject =
     (case namespaceObject of
        Some n \<Rightarrow>
          if n \<noteq> [] then
            [\<lparr>tk_Object = n, tk_Relation = ''parent'', tk_User = parentObject\<rparr>,
             \<lparr>tk_Object = ob, tk_Relation = ''parent'', tk_User = n\<rparr>]
          else if ob = parentObject then []
          else [\<lparr>tk_Object = ob, tk_Relation = ''parent'', tk_User = parentObject\<rparr>]
      | None \<Rightarrow>
          if ob = parentObject then []
          else [\<lparr>tk_Object = ob, tk_Relation = ''parent'', tk_User = parentObject\<rparr>])"

definition BuildContextualTuples ::
  "(string \<Rightarrow> string) \<Rightarrow> string \<Rightarrow> ResourceContext \<Rightarrow> goerror + tuple_key list" where
  "BuildContextualTuples U accountObject res =
     (if accountObject = [] then Inl (ErrorString ''accountObject must not be empty'')
      else
        let ns = (if rc_Namespace res \<noteq> [] then Some (rc_Namespace res) else None);
            resourceObject = BuildObjectNameFromType (BuildObjectType U (rc_Group res) (rc_Kind res))
                               (rc_ClusterID res) (rc_Name res) ns;
            namespaceObject = (if rc_Namespace res \<noteq> [] then
                Some (BuildObjectNameFromType (BuildObjectType U [] ''namespace'') (rc_ClusterID res) (rc_Namespace res) None)
              else None)
        in Inr (BuildParentTuples accountObject resourceObject namespaceObject))"

definition SanitizeUserID :: "string \<Rightarrow> string" where
  "SanitizeUserID userID = replaceChar CHR '':'' CHR ''_'' userID"

section \<open>Properties\<close>










text \<open>
  Type names are not injective and may begin with an underscore: a group whose dots meet another
  name's underscores, and two long names that differ only at the front, share their type; the
  leading underscore is removed before the dots are replaced.
\<close>

theorem ConvertToTypeName_collisions:
  "ConvertToTypeName U ''a.b'' ''c'' = ConvertToTypeName U ''a'' ''b_c'' \<and>
   ConvertToTypeName U ''x-projects.platform-mesh.example.io'' ''organization'' =
     ConvertToTypeName U ''y-projects.platform-mesh.example.io'' ''organization'' \<and>
   ConvertToTypeName U ''.a'' ''b'' = ''_a_b''"
  by (intro conjI; code_simp)

text \<open>
  Object names can be read back: for a type without colon and slash-free cluster, namespace and
  name, splitting the object name at the slashes gives the type with the cluster, the namespace if
  there is one, and the name.
\<close>

theorem BuildObjectNameFromType_split:
  assumes "CHR ''/'' \<notin> set ty" and "CHR ''/'' \<notin> set cluster" and "CHR ''/'' \<notin> set name"
    and "\<forall>n. ns = Some n \<longrightarrow> CHR ''/'' \<notin> set n"
  shows "splitOn CHR ''/'' (BuildObjectNameFromType ty cluster name ns) =
    (case ns of None \<Rightarrow> [ty @ '':'' @ cluster, name]
     | Some n \<Rightarrow> if n = [] then [ty @ '':'' @ cluster, name] else [ty @ '':'' @ cluster, n, name])"
proof -
  have none: "splitOn c xs = [xs]" if "c \<notin> set xs" for c xs
    using that by (induction xs) auto
  have app: "splitOn c (xs @ c # ys) = xs # splitOn c ys" if "c \<notin> set xs" for c xs ys
    using that by (induction xs) auto
  have "CHR ''/'' \<notin> set (ty @ '':'' @ cluster)" using assms by simp
  note a = app [OF this, simplified] and b = none [OF assms(3)]
  show ?thesis
    using assms(4) a b by (cases ns) (auto simp: BuildObjectNameFromType_def app)
qed

theorem BuildObjectNameFromType_split_witness:
  "splitOn CHR ''/'' (BuildObjectNameFromType ''core_pod'' ''c1'' ''web'' (Some ''prod'')) =
     [''core_pod:c1'', ''prod'', ''web'']"
  by (subst BuildObjectNameFromType_split) simp_all

text \<open>The parent relation a list of tuples spells out, and its reachability.\<close>

definition parents :: "tuple_key list \<Rightarrow> (string \<times> string) set" where
  "parents ts = {(tk_Object t, tk_User t) |t. t \<in> set ts \<and> tk_Relation t = ''parent''}"

lemma parents_simps [simp]:
  "parents [] = {}"
  "parents (t # ts) = (if tk_Relation t = ''parent'' then insert (tk_Object t, tk_User t) (parents ts) else parents ts)"
  by (auto simp: parents_def)

lemma parents_acyclic:
  fixes a r s :: string
  shows "a \<noteq> r \<Longrightarrow> acyclic {(r, a)}" "r \<noteq> s \<Longrightarrow> s \<noteq> a \<Longrightarrow> a \<noteq> r \<Longrightarrow> acyclic {(r, s), (s, a)}"
proof -
  have e: "acyclic ({} :: (string \<times> string) set)" by (rule wf_acyclic) simp
  show one: "acyclic {(r, a)}" if "a \<noteq> r" for r a :: string
    unfolding acyclic_insert using e that by auto
  show "acyclic {(r, s), (s, a)}" if "r \<noteq> s" "s \<noteq> a" "a \<noteq> r"
    unfolding acyclic_insert using one [of a s] that by (auto elim: rtranclE)
qed

text \<open>The resource of a namespace is another object than the namespace: there is one more slash in its name.\<close>

lemma resource_not_space:
  "BuildObjectNameFromType ty cluster name (Some n) \<noteq> ''core_namespace:'' @ cluster @ ''/'' @ n" if "n \<noteq> []"
proof
  assume "BuildObjectNameFromType ty cluster name (Some n) = ''core_namespace:'' @ cluster @ ''/'' @ n"
  then have eq: "ty @ '':'' @ cluster @ ''/'' @ n @ ''/'' @ name = ''core_namespace:'' @ cluster @ ''/'' @ n"
    using that by (simp add: BuildObjectNameFromType_def)
  then have "length (ty @ '':'' @ cluster @ ''/'' @ n @ ''/'' @ name) = length (''core_namespace:'' @ cluster @ ''/'' @ n)"
    by (rule arg_cong)
  then have "length ty + length name < 14" by simp
  then have "length ty < 14" by simp
  have "(ty @ '':'' @ cluster @ ''/'' @ n @ ''/'' @ name) ! length ty = CHR '':''" by (simp add: nth_append)
  then have "(''core_namespace:'' @ cluster @ ''/'' @ n) ! length ty = CHR '':''" unfolding eq .
  moreover have "(''core_namespace:'' @ cluster @ ''/'' @ n) ! length ty = ''core_namespace'' ! length ty"
    using \<open>length ty < 14\<close> nth_append_left [of "length ty" "''core_namespace''" "'':'' @ cluster @ ''/'' @ n"] by simp
  ultimately have "''core_namespace'' ! length ty = CHR '':''" by simp
  moreover have "''core_namespace'' ! length ty \<in> set ''core_namespace''" using \<open>length ty < 14\<close> by (intro nth_mem) simp
  ultimately have "CHR '':'' \<in> set ''core_namespace''" by simp
  then show False by simp
qed

text \<open>
  C32.  Parent hierarchy: an empty account object is an error.  For an account that is neither the resource
  of a namespace nor that namespace itself, the tuples form one chain without a cycle that leads from the resource to the
  account, directly, or through the namespace when there is one; a resource without a namespace that is its own account has none.
\<close>

theorem BuildContextualTuples_spec:
  assumes "resource = BuildObjectNameFromType (BuildObjectType U (rc_Group res) (rc_Kind res)) (rc_ClusterID res)
      (rc_Name res) (if rc_Namespace res = [] then None else Some (rc_Namespace res))"
    and "space = ''core_namespace:'' @ rc_ClusterID res @ ''/'' @ rc_Namespace res"
    and "rc_Namespace res \<noteq> [] \<longrightarrow> account \<noteq> resource \<and> account \<noteq> space"
  shows "BuildContextualTuples U account res =
      (if account = [] then Inl (ErrorString ''accountObject must not be empty'')
       else Inr (if rc_Namespace res \<noteq> [] then
           [\<lparr>tk_Object = space, tk_Relation = ''parent'', tk_User = account\<rparr>,
            \<lparr>tk_Object = resource, tk_Relation = ''parent'', tk_User = space\<rparr>]
         else if resource = account then []
         else [\<lparr>tk_Object = resource, tk_Relation = ''parent'', tk_User = account\<rparr>])) \<and>
    (\<forall>ts. BuildContextualTuples U account res = Inr ts \<longrightarrow> (resource, account) \<in> (parents ts)\<^sup>* \<and> acyclic (parents ts))"
    (is "?eq \<and> ?chain")
proof -
  have ns: "BuildObjectType U [] ''namespace'' = ''core_namespace''" unfolding BuildObjectType_def by code_simp
  have sp: "BuildObjectNameFromType (BuildObjectType U [] ''namespace'') (rc_ClusterID res) (rc_Namespace res) None = space"
    unfolding ns assms(2) by (simp add: BuildObjectNameFromType_def)
  have "space \<noteq> []" by (simp add: assms(2))
  then have eq: ?eq using sp by (simp add: BuildContextualTuples_def Let_def BuildParentTuples_def assms(1))
  have "resource \<noteq> space" if "rc_Namespace res \<noteq> []"
    unfolding assms(1,2) using that resource_not_space by simp
  then have ?chain unfolding eq using assms(3) parents_acyclic(1) [of account resource] parents_acyclic(2) [of resource space account]
    by (auto intro: converse_rtrancl_into_rtrancl simp: insert_commute acyclic_def)
  with eq show ?thesis ..
qed

theorem BuildContextualTuples_spec_witness:
  "BuildContextualTuples id ''core_account:root/acme''
      \<lparr>rc_Group = ''apps'', rc_Kind = ''Deployment'', rc_ClusterID = ''c1'', rc_Name = ''web'', rc_Namespace = ''prod''\<rparr> =
   Inr [\<lparr>tk_Object = ''core_namespace:c1/prod'', tk_Relation = ''parent'', tk_User = ''core_account:root/acme''\<rparr>,
        \<lparr>tk_Object = ''apps_deployment:c1/prod/web'', tk_Relation = ''parent'', tk_User = ''core_namespace:c1/prod''\<rparr>]"
proof -
  have ty: "BuildObjectType id ''apps'' ''Deployment'' = ''apps_deployment''"
    unfolding BuildObjectType_def by code_simp
  show ?thesis
    by (subst BuildContextualTuples_spec [OF refl refl, THEN conjunct1]) (simp_all add: ty BuildObjectNameFromType_def)
qed

text \<open>
  The documented exception for a resource that is its own account does not cover namespaced
  resources: there the tuples close a cycle between the account and its namespace.
\<close>

theorem namespaced_self_reference_cycle:
  "\<exists>account res ts. BuildContextualTuples U account res = Inr ts \<and>
     account = BuildObjectName U (rc_Group res) (rc_Kind res) (rc_ClusterID res) (rc_Name res) (Some (rc_Namespace res)) \<and>
     (account, account) \<in> (parents ts)\<^sup>+"
proof -
  let ?r = "\<lparr>rc_Group = [], rc_Kind = ''account'', rc_ClusterID = ''c'', rc_Name = ''a'', rc_Namespace = ''n''\<rparr>"
  let ?a = "BuildObjectName U [] ''account'' ''c'' ''a'' (Some ''n'')"
  let ?n = "BuildObjectNameFromType (BuildObjectType U [] ''namespace'') ''c'' ''n'' None"
  let ?ts = "[\<lparr>tk_Object = ?n, tk_Relation = ''parent'', tk_User = ?a\<rparr>, \<lparr>tk_Object = ?a, tk_Relation = ''parent'', tk_User = ?n\<rparr>]"
  have "BuildContextualTuples U ?a ?r = Inr ?ts"
    by (simp add: BuildContextualTuples_def BuildParentTuples_def BuildObjectName_def BuildObjectNameFromType_def)
  moreover have "(?a, ?a) \<in> (parents ?ts)\<^sup>+"
    by (rule trancl_into_trancl [of _ ?n]) auto
  ultimately show ?thesis by (intro exI [of _ ?a] exI [of _ ?r] exI [of _ ?ts]) simp
qed

lemma SanitizeUserID_spec: "CHR '':'' \<notin> set (SanitizeUserID u)" "length (SanitizeUserID u) = length u"
  "CHR '':'' \<notin> set u \<Longrightarrow> SanitizeUserID u = u"
  by (simp_all add: SanitizeUserID_def set_replaceChar replaceChar_id)

end
