(* ===== verification/Cache.thy ===== *)
theory Cache
  imports Prelude
begin

text \<open>
  The caches of strings the packages use (\<open>expirable.LRU\<close> and \<open>lru.Cache\<close> of golang-lru, \<open>ttlcache\<close>), as a
  parameter with the laws their documentation promises.
\<close>

text \<open>
  A cache with eviction and expiry: \<open>Get\<close> may change it (recency, expired entries), and an entry may
  disappear at any time; \<open>held\<close> is what it holds.
\<close>

record 'c string_cache =
  cache_Get :: "string \<Rightarrow> 'c \<Rightarrow> string option \<times> 'c"
  cache_Add :: "string \<Rightarrow> string \<Rightarrow> 'c \<Rightarrow> 'c"
  held :: "'c \<Rightarrow> (string \<times> string) set"

definition cache_laws :: "'c string_cache \<Rightarrow> bool" where
  "cache_laws K \<longleftrightarrow>
     (\<forall>k c r c'. cache_Get K k c = (r, c') \<longrightarrow>
        held K c' \<subseteq> held K c \<and> (\<forall>v. r = Some v \<longrightarrow> (k, v) \<in> held K c)) \<and>
     (\<forall>k v c. held K (cache_Add K k v c) \<subseteq> insert (k, v) (held K c))"

lemma cache_lawsD:
  assumes "cache_laws K"
  shows "cache_Get K k c = (r, c') \<Longrightarrow> held K c' \<subseteq> held K c"
    "cache_Get K k c = (Some v, c') \<Longrightarrow> (k, v) \<in> held K c"
    "held K (cache_Add K k v c) \<subseteq> insert (k, v) (held K c)"
  using assms by (auto simp: cache_laws_def)

text \<open>A cache that keeps everything, as an instance.\<close>

definition map_cache :: "(string \<rightharpoonup> string) string_cache" where
  "map_cache = \<lparr>cache_Get = (\<lambda>k c. (c k, c)), cache_Add = (\<lambda>k v c. c(k \<mapsto> v)), held = (\<lambda>c. {(k, v). c k = Some v})\<rparr>"

lemma map_cache_laws: "cache_laws map_cache"
  by (auto simp: cache_laws_def map_cache_def split: if_splits)

end
