(* ===== verification/Fga_Store.thy ===== *)
theory Fga_Store
  imports Fga_Naming Cache
begin

text \<open>
  How the packages find the OpenFGA store and model of a tenant: \<open>fga/helpers/helper.go\<close> (one cache
  for the process), \<open>fga/store/store.go\<close> (a cache per helper, a store-name prefix) and
  \<open>fga/client/store.go\<close>, \<open>cache.go\<close>, \<open>client.go\<close>.  The OpenFGA service and the caches are parameters.
  The locale \<open>tenant_ids\<close> is the interface \<open>FGAStoreHelper\<close> (and the id part of
  \<open>OpenFGAClientServicer\<close>), interpreted on all three.
\<close>

section \<open>The service and the caches\<close>

record fga_store =
  store_Id :: string
  store_Name :: string

text \<open>A model is its id.  \<open>Check\<close>, \<open>Read\<close> and \<open>Write\<close> get the request the code builds.\<close>

record check_request =
  cr_StoreId :: string
  cr_ModelId :: string
  cr_TupleKey :: tuple_key

record read_request =
  rr_StoreId :: string
  rr_TupleKey :: tuple_key

record write_request =
  wr_StoreId :: string
  wr_ModelId :: string
  wr_Writes :: "tuple_key list option"
  wr_Deletes :: "tuple_key list option"

record 'w fga_service =
  ListStores :: "'w \<Rightarrow> (goerror + fga_store list) \<times> 'w"
  ReadAuthorizationModels :: "string \<Rightarrow> 'w \<Rightarrow> (goerror + string list) \<times> 'w"
  svc_Check :: "check_request \<Rightarrow> 'w \<Rightarrow> (goerror + bool) \<times> 'w"
  svc_Read :: "read_request \<Rightarrow> 'w \<Rightarrow> (goerror + tuple_key list) \<times> 'w"
  svc_Write :: "write_request \<Rightarrow> 'w \<Rightarrow> goerror option \<times> 'w"

section \<open>The helper functions and the tenant store\<close>

text \<open>
  \<open>helpers.GetStoreIDForTenant\<close> and the method of \<open>FgaTenantStore\<close> have the same text but for the store
  name; a state is the cache and the world.
\<close>

definition GetStoreIDForTenant ::
  "'c string_cache \<Rightarrow> 'w fga_service \<Rightarrow> string \<Rightarrow> 'c \<times> 'w \<Rightarrow> (goerror + string) \<times> 'c \<times> 'w" where
  "GetStoreIDForTenant K S tenantID st =
     (let cacheKey = ''tenant-'' @ tenantID;
          (r, c1) = cache_Get K cacheKey (fst st);
          list = (\<lambda>_. case ListStores S (snd st) of
              (Inl err, w) \<Rightarrow> (Inl err, c1, w)
            | (Inr stores, w) \<Rightarrow>
                (case List.find (\<lambda>s. store_Name s = cacheKey) stores of
                   None \<Rightarrow> (Inl (ErrorString (''could not find store matching key '' @ cacheKey)), c1, w)
                 | Some s \<Rightarrow> (Inr (store_Id s), cache_Add K cacheKey (store_Id s) c1, w)))
      in (case r of
            Some s \<Rightarrow> if s \<noteq> [] then (Inr s, c1, snd st) else list ()
          | None \<Rightarrow> list ()))"

definition GetModelIDForTenant ::
  "'c string_cache \<Rightarrow> 'w fga_service \<Rightarrow> string \<Rightarrow> 'c \<times> 'w \<Rightarrow> (goerror + string) \<times> 'c \<times> 'w" where
  "GetModelIDForTenant K S tenantID st =
     (let cacheKey = ''model-'' @ tenantID;
          (r, c1) = cache_Get K cacheKey (fst st);
          ask = (\<lambda>_. case GetStoreIDForTenant K S tenantID (c1, snd st) of
              (Inl err, c2, w2) \<Rightarrow> (Inl err, c2, w2)
            | (Inr storeID, c2, w2) \<Rightarrow>
                (case ReadAuthorizationModels S storeID w2 of
                   (Inl err, w3) \<Rightarrow> (Inl err, c2, w3)
                 | (Inr models, w3) \<Rightarrow>
                     (case models of
                        [] \<Rightarrow> (Inl (ErrorString ''no authorization models in response. Cannot determine proper AuthorizationModelId''), c2, w3)
                      | m # _ \<Rightarrow> (Inr m, cache_Add K cacheKey m c2, w3))))
      in (case r of
            Some s \<Rightarrow> if s \<noteq> [] then (Inr s, c1, snd st) else ask ()
          | None \<Rightarrow> ask ()))"

text \<open>\<open>status.FromError\<close> gives the gRPC code of an error; the constant is OpenFGA's.\<close>

definition IsDuplicateWriteError :: "(goerror \<Rightarrow> int option) \<Rightarrow> int \<Rightarrow> goerror option \<Rightarrow> bool" where
  "IsDuplicateWriteError FromError write_failed_due_to_invalid_input err =
     (case err of
        None \<Rightarrow> False
      | Some e \<Rightarrow> (case FromError e of None \<Rightarrow> False | Some code \<Rightarrow> code = write_failed_due_to_invalid_input))"

record 'c tenant_store =
  ts_cache :: 'c
  ts_storePrefix :: string

definition New_tenant_store :: "'c \<Rightarrow> 'c tenant_store" where
  "New_tenant_store newLRU = \<lparr>ts_cache = newLRU, ts_storePrefix = ''tenant-''\<rparr>"

definition NewWithPrefix :: "'c \<Rightarrow> string \<Rightarrow> 'c tenant_store" where
  "NewWithPrefix newLRU prefix = \<lparr>ts_cache = newLRU, ts_storePrefix = prefix\<rparr>"

definition GetStoreIDForTenant_ts ::
  "'c string_cache \<Rightarrow> 'w fga_service \<Rightarrow> string \<Rightarrow> 'c tenant_store \<times> 'w \<Rightarrow> (goerror + string) \<times> 'c tenant_store \<times> 'w" where
  "GetStoreIDForTenant_ts K S tenantID st =
     (let t = fst st;
          cacheKey = ''tenant-'' @ tenantID;
          (r, c1) = cache_Get K cacheKey (ts_cache t);
          list = (\<lambda>_. case ListStores S (snd st) of
              (Inl err, w) \<Rightarrow> (Inl err, t\<lparr>ts_cache := c1\<rparr>, w)
            | (Inr stores, w) \<Rightarrow>
                let storeName = ts_storePrefix t @ tenantID in
                (case List.find (\<lambda>s. store_Name s = storeName) stores of
                   None \<Rightarrow> (Inl (ErrorString (''could not find store matching key '' @ storeName)), t\<lparr>ts_cache := c1\<rparr>, w)
                 | Some s \<Rightarrow> (Inr (store_Id s), t\<lparr>ts_cache := cache_Add K cacheKey (store_Id s) c1\<rparr>, w)))
      in (case r of
            Some s \<Rightarrow> if s \<noteq> [] then (Inr s, t\<lparr>ts_cache := c1\<rparr>, snd st) else list ()
          | None \<Rightarrow> list ()))"

definition GetModelIDForTenant_ts ::
  "'c string_cache \<Rightarrow> 'w fga_service \<Rightarrow> string \<Rightarrow> 'c tenant_store \<times> 'w \<Rightarrow> (goerror + string) \<times> 'c tenant_store \<times> 'w" where
  "GetModelIDForTenant_ts K S tenantID st =
     (let t = fst st;
          cacheKey = ''model-'' @ tenantID;
          (r, c1) = cache_Get K cacheKey (ts_cache t);
          ask = (\<lambda>_. case GetStoreIDForTenant_ts K S tenantID (t\<lparr>ts_cache := c1\<rparr>, snd st) of
              (Inl err, t2, w2) \<Rightarrow> (Inl err, t2, w2)
            | (Inr storeID, t2, w2) \<Rightarrow>
                (case ReadAuthorizationModels S storeID w2 of
                   (Inl err, w3) \<Rightarrow> (Inl err, t2, w3)
                 | (Inr models, w3) \<Rightarrow>
                     (case models of
                        [] \<Rightarrow> (Inl (ErrorString ''no authorization models in response. Cannot determine proper AuthorizationModelId''), t2, w3)
                      | m # _ \<Rightarrow> (Inr m, t2\<lparr>ts_cache := cache_Add K cacheKey m (ts_cache t2)\<rparr>, w3))))
      in (case r of
            Some s \<Rightarrow> if s \<noteq> [] then (Inr s, t\<lparr>ts_cache := c1\<rparr>, snd st) else ask ()
          | None \<Rightarrow> ask ()))"

text \<open>The method of \<open>FgaTenantStore\<close> has the text of the function.\<close>

definition IsDuplicateWriteError_ts :: "'c tenant_store \<Rightarrow> (goerror \<Rightarrow> int option) \<Rightarrow> int \<Rightarrow> goerror option \<Rightarrow> bool" where
  "IsDuplicateWriteError_ts c FromError write_failed_due_to_invalid_input err =
     (case err of
        None \<Rightarrow> False
      | Some e \<Rightarrow> (case FromError e of None \<Rightarrow> False | Some code \<Rightarrow> code = write_failed_due_to_invalid_input))"

definition GetCache :: "'c tenant_store \<Rightarrow> 'c" where
  "GetCache c = ts_cache c"

section \<open>The client\<close>

definition cacheKeyForModel :: "string \<Rightarrow> string" where
  "cacheKeyForModel tenantId = ''modelid-'' @ tenantId"

definition cacheKeyForStore :: "string \<Rightarrow> string" where
  "cacheKeyForStore tenantId = ''storeid-'' @ tenantId"

text \<open>The loop over the listed stores.\<close>

fun find_store :: "string \<Rightarrow> fga_store list \<Rightarrow> string option" where
  "find_store expectedStoreName [] = None"
| "find_store expectedStoreName (s # ss) =
     (if store_Name s = expectedStoreName then Some (store_Id s) else find_store expectedStoreName ss)"

definition StoreId ::
  "'c string_cache \<Rightarrow> 'w fga_service \<Rightarrow> string \<Rightarrow> 'c \<times> 'w \<Rightarrow> (goerror + string) \<times> 'c \<times> 'w" where
  "StoreId K S tenantId st =
     (case cache_Get K (cacheKeyForStore tenantId) (fst st) of
        (Some val, c1) \<Rightarrow> (Inr val, c1, snd st)
      | (None, c1) \<Rightarrow>
          let expectedStoreName = ''tenant-'' @ tenantId in
          (case ListStores S (snd st) of
             (Inl err, w) \<Rightarrow> (Inl err, c1, w)
           | (Inr stores, w) \<Rightarrow>
               (case find_store expectedStoreName stores of
                  Some sid \<Rightarrow> (Inr sid, cache_Add K (cacheKeyForStore tenantId) sid c1, w)
                | None \<Rightarrow> (Inl (ErrorString ''could not determine store. No stores found''), c1, w))))"

definition ModelId ::
  "'c string_cache \<Rightarrow> 'w fga_service \<Rightarrow> string \<Rightarrow> 'c \<times> 'w \<Rightarrow> (goerror + string) \<times> 'c \<times> 'w" where
  "ModelId K S tenantId st =
     (case cache_Get K (cacheKeyForModel tenantId) (fst st) of
        (Some val, c1) \<Rightarrow> (Inr val, c1, snd st)
      | (None, c1) \<Rightarrow>
          (case StoreId K S tenantId (c1, snd st) of
             (Inl err, c2, w2) \<Rightarrow> (Inl err, c2, w2)
           | (Inr storeId, c2, w2) \<Rightarrow>
               (case ReadAuthorizationModels S storeId w2 of
                  (Inl err, w3) \<Rightarrow> (Inl err, c2, w3)
                | (Inr models, w3) \<Rightarrow>
                    (case models of
                       m # _ \<Rightarrow> (Inr m, cache_Add K (cacheKeyForModel tenantId) m c2, w3)
                     | [] \<Rightarrow> (Inl (ErrorString ''could not determine model. No models found''), c2, w3)))))"

section \<open>The interface\<close>

text \<open>
  What the service lists: the pairs of store name and id, and the models of a store.  \<open>service_laws\<close>
  says that all answers come from one such directory.
\<close>

type_synonym directory = "(string \<times> string) set \<times> (string \<Rightarrow> string set)"

definition service_laws :: "'w fga_service \<Rightarrow> directory \<Rightarrow> bool" where
  "service_laws S d \<longleftrightarrow>
     (\<forall>w xs w'. ListStores S w = (Inr xs, w') \<longrightarrow> (\<forall>s \<in> set xs. (store_Name s, store_Id s) \<in> fst d)) \<and>
     (\<forall>sid w ms w'. ReadAuthorizationModels S sid w = (Inr ms, w') \<longrightarrow> set ms \<subseteq> snd d sid)"

definition store_valid :: "directory \<Rightarrow> string \<Rightarrow> string \<Rightarrow> bool" where
  "store_valid d name sid \<longleftrightarrow> (name, sid) \<in> fst d"

definition model_valid :: "directory \<Rightarrow> string \<Rightarrow> string \<Rightarrow> bool" where
  "model_valid d name mid \<longleftrightarrow> (\<exists>sid. (name, sid) \<in> fst d \<and> mid \<in> snd d sid)"

locale tenant_ids =
  fixes store_id :: "string \<Rightarrow> 's \<Rightarrow> (goerror + string) \<times> 's"
    and model_id :: "string \<Rightarrow> 's \<Rightarrow> (goerror + string) \<times> 's"
    and inv :: "'s \<Rightarrow> bool"
    and store_ok :: "string \<Rightarrow> string \<Rightarrow> bool"
    and model_ok :: "string \<Rightarrow> string \<Rightarrow> bool"
    and lawful :: bool
  assumes store_sound: "lawful \<Longrightarrow> inv s \<Longrightarrow> store_id t s = (r, s') \<Longrightarrow>
      inv s' \<and> (\<forall>i. r = Inr i \<longrightarrow> store_ok t i)"
    and model_sound: "lawful \<Longrightarrow> inv s \<Longrightarrow> model_id t s = (r, s') \<Longrightarrow>
      inv s' \<and> (\<forall>i. r = Inr i \<longrightarrow> model_ok t i)"
begin

text \<open>Any sequence of lookups, for any tenants, keeps the cache sound.\<close>

fun lookups :: "(bool \<times> string) list \<Rightarrow> 's \<Rightarrow> 's" where
  "lookups [] s = s"
| "lookups ((m, t) # qs) s = lookups qs (snd (if m then model_id t s else store_id t s))"

lemma lookups_inv: "lawful \<Longrightarrow> inv s \<Longrightarrow> inv (lookups qs s)"
proof (induction qs s rule: lookups.induct)
  case (2 m t qs s)
  then show ?case
    using store_sound [OF 2(2,3), of t] model_sound [OF 2(2,3), of t]
    by (cases "store_id t s"; cases "model_id t s") auto
qed simp

lemma lookups_sound:
  assumes "lawful" "inv s"
  shows "fst (store_id t (lookups qs s)) = Inr i \<Longrightarrow> store_ok t i"
    and "fst (model_id t (lookups qs s)) = Inr j \<Longrightarrow> model_ok t j"
  using store_sound [OF assms(1) lookups_inv [OF assms]] model_sound [OF assms(1) lookups_inv [OF assms]]
  by (metis prod.collapse)+

end

text \<open>The invariant of a cache: an entry under a key for stores (models) is the id of such a store (model).\<close>

definition entries_ok ::
  "directory \<Rightarrow> (string \<Rightarrow> string) \<Rightarrow> (string \<Rightarrow> string) \<Rightarrow> (string \<Rightarrow> string) \<Rightarrow> (string \<times> string) set \<Rightarrow> bool" where
  "entries_ok d skey mkey name es \<longleftrightarrow>
     (\<forall>t v. (skey t, v) \<in> es \<longrightarrow> store_valid d (name t) v) \<and>
     (\<forall>t v. (mkey t, v) \<in> es \<longrightarrow> model_valid d (name t) v)"

lemma entries_ok_mono: "entries_ok d sk mk n es \<Longrightarrow> fs \<subseteq> es \<Longrightarrow> entries_ok d sk mk n fs"
  by (auto simp: entries_ok_def)

lemma entries_ok_insert:
  assumes "entries_ok d sk mk n es" "fs \<subseteq> insert (k, v) es"
    and "\<And>t. k = sk t \<Longrightarrow> store_valid d (n t) v" "\<And>t. k = mk t \<Longrightarrow> model_valid d (n t) v"
  shows "entries_ok d sk mk n fs"
  using assms by (fastforce simp: entries_ok_def)

lemma find_store_listed:
  "find_store n ss = Some i \<Longrightarrow> \<exists>s \<in> set ss. store_Name s = n \<and> store_Id s = i"
  by (induction ss) (auto split: if_splits)

lemma list_find_listed: "List.find P ss = Some s \<Longrightarrow> s \<in> set ss \<and> P s"
  by (rule find_Some_set)

section \<open>The three providers are sound\<close>

abbreviation client_ok :: "'c string_cache \<Rightarrow> directory \<Rightarrow> 'c \<times> 'w \<Rightarrow> bool" where
  "client_ok K d st \<equiv> entries_ok d cacheKeyForStore cacheKeyForModel (\<lambda>t. ''tenant-'' @ t) (held K (fst st))"

abbreviation tenant_store_ok :: "'c string_cache \<Rightarrow> directory \<Rightarrow> string \<Rightarrow> 'c tenant_store \<times> 'w \<Rightarrow> bool" where
  "tenant_store_ok K d prefix st \<equiv> ts_storePrefix (fst st) = prefix \<and>
     entries_ok d (\<lambda>t. ''tenant-'' @ t) (\<lambda>t. ''model-'' @ t) (\<lambda>t. prefix @ t) (held K (ts_cache (fst st)))"

lemma cache_keys [simp]:
  "cacheKeyForStore t = cacheKeyForStore u \<longleftrightarrow> t = u" "cacheKeyForModel t = cacheKeyForModel u \<longleftrightarrow> t = u"
  "cacheKeyForStore t \<noteq> cacheKeyForModel u" "cacheKeyForModel u \<noteq> cacheKeyForStore t"
  by (simp_all add: cacheKeyForStore_def cacheKeyForModel_def)

lemma service_lawsD:
  assumes "service_laws S d"
  shows "ListStores S w = (Inr xs, w') \<Longrightarrow> s \<in> set xs \<Longrightarrow> store_valid d (store_Name s) (store_Id s)"
    "ReadAuthorizationModels S sid w = (Inr (m # ms), w') \<Longrightarrow> store_valid d n sid \<Longrightarrow> model_valid d n m"
  using assms by (fastforce simp: service_laws_def store_valid_def model_valid_def)+

lemma StoreId_sound:
  assumes K: "cache_laws K" and S: "service_laws S d" and ok: "client_ok K d st"
    and run: "StoreId K S t st = (r, st')"
  shows "client_ok K d st' \<and> (\<forall>i. r = Inr i \<longrightarrow> store_valid d (''tenant-'' @ t) i)"
proof -
  obtain q c1 where g: "cache_Get K (cacheKeyForStore t) (fst st) = (q, c1)" by fastforce
  have ok1: "client_ok K d (c1, w)" for w :: 'b
    using entries_ok_mono [OF ok cache_lawsD(1) [OF K g]] by simp
  show ?thesis
  proof (cases q)
    case (Some v)
    with g run ok1 cache_lawsD(2) [OF K] ok show ?thesis by (fastforce simp: StoreId_def entries_ok_def)
  next
    case None
    obtain x w where l: "ListStores S (snd st) = (x, w)" by fastforce
    show ?thesis
    proof (cases "\<exists>stores sid. x = Inr stores \<and> find_store (''tenant-'' @ t) stores = Some sid")
      case False
      with g run None l ok1 show ?thesis
        by (cases x) (auto simp: StoreId_def split: option.splits)
    next
      case True
      then obtain stores sid where x: "x = Inr stores" "find_store (''tenant-'' @ t) stores = Some sid" by blast
      with find_store_listed service_lawsD(1) [OF S l [unfolded x(1)]]
      have v: "store_valid d (''tenant-'' @ t) sid" by metis
      have "entries_ok d cacheKeyForStore cacheKeyForModel (\<lambda>t. ''tenant-'' @ t)
          (held K (cache_Add K (cacheKeyForStore t) sid c1))"
        by (rule entries_ok_insert [OF _ cache_lawsD(3) [OF K]]) (use ok1 v in auto)
      with g run None l x v show ?thesis by (auto simp: StoreId_def)
    qed
  qed
qed

lemma ModelId_sound:
  assumes K: "cache_laws K" and S: "service_laws S d" and ok: "client_ok K d st"
    and run: "ModelId K S t st = (r, st')"
  shows "client_ok K d st' \<and> (\<forall>i. r = Inr i \<longrightarrow> model_valid d (''tenant-'' @ t) i)"
proof -
  obtain q c1 where g: "cache_Get K (cacheKeyForModel t) (fst st) = (q, c1)" by fastforce
  have ok1: "client_ok K d (c1, w)" for w :: 'b
    using entries_ok_mono [OF ok cache_lawsD(1) [OF K g]] by simp
  obtain x c2 w2 where s: "StoreId K S t (c1, snd st) = (x, c2, w2)" by (metis surj_pair)
  note ss = StoreId_sound [OF K S ok1 s]
  show ?thesis
  proof (cases q)
    case (Some v)
    with g run ok1 cache_lawsD(2) [OF K] ok show ?thesis by (fastforce simp: ModelId_def entries_ok_def)
  next
    case None
    show ?thesis
    proof (cases "\<exists>sid m ms w3. x = Inr sid \<and> ReadAuthorizationModels S sid w2 = (Inr (m # ms), w3)")
      case False
      with g run None s ss show ?thesis
        by (cases x) (auto simp: ModelId_def split: prod.splits sum.splits list.splits)
    next
      case True
      then obtain sid m ms w3 where x: "x = Inr sid" "ReadAuthorizationModels S sid w2 = (Inr (m # ms), w3)" by blast
      from service_lawsD(2) [OF S x(2)] ss x(1) have v: "model_valid d (''tenant-'' @ t) m" by blast
      have "entries_ok d cacheKeyForStore cacheKeyForModel (\<lambda>t. ''tenant-'' @ t)
          (held K (cache_Add K (cacheKeyForModel t) m c2))"
        by (rule entries_ok_insert [OF _ cache_lawsD(3) [OF K]]) (use ss v in auto)
      with g run None s x v show ?thesis by (auto simp: ModelId_def)
    qed
  qed
qed

interpretation client_ids: tenant_ids "StoreId K S" "ModelId K S" "client_ok K d"
    "\<lambda>t. store_valid d (''tenant-'' @ t)" "\<lambda>t. model_valid d (''tenant-'' @ t)"
    "cache_laws K \<and> service_laws S d"
    for K :: "'c string_cache" and S :: "'w fga_service" and d
proof unfold_locales
  fix s s' :: "'c \<times> 'w" and t r
  assume l: "cache_laws K \<and> service_laws S d" and ok: "client_ok K d s"
  note c = StoreId_sound [OF conjunct1 [OF l] conjunct2 [OF l] ok] ModelId_sound [OF conjunct1 [OF l] conjunct2 [OF l] ok]
  show "StoreId K S t s = (r, s') \<Longrightarrow> client_ok K d s' \<and> (\<forall>i. r = Inr i \<longrightarrow> store_valid d (''tenant-'' @ t) i)"
    by (rule c(1))
  show "ModelId K S t s = (r, s') \<Longrightarrow> client_ok K d s' \<and> (\<forall>i. r = Inr i \<longrightarrow> model_valid d (''tenant-'' @ t) i)"
    by (rule c(2))
qed

lemma GetStoreIDForTenant_ts_sound:
  assumes K: "cache_laws K" and S: "service_laws S d" and ok: "tenant_store_ok K d p st"
    and run: "GetStoreIDForTenant_ts K S t st = (r, st')"
  shows "tenant_store_ok K d p st' \<and> (\<forall>i. r = Inr i \<longrightarrow> store_valid d (p @ t) i)"
proof -
  let ?es = "entries_ok d (\<lambda>t. ''tenant-'' @ t) (\<lambda>t. ''model-'' @ t) (\<lambda>t. p @ t)"
  obtain q c1 where g: "cache_Get K (''tenant-'' @ t) (ts_cache (fst st)) = (q, c1)" by fastforce
  have ok1: "?es (held K c1)"
    using entries_ok_mono [OF _ cache_lawsD(1) [OF K g]] ok by blast
  obtain x w where l: "ListStores S (snd st) = (x, w)" by fastforce
  show ?thesis
  proof (cases "\<exists>v. q = Some v \<and> v \<noteq> []")
    case True
    then obtain v where v: "q = Some v" "v \<noteq> []" by blast
    with ok cache_lawsD(2) [OF K g [unfolded v(1)]] have "store_valid d (p @ t) v" by (auto simp: entries_ok_def)
    with v g run ok1 ok show ?thesis by (auto simp: GetStoreIDForTenant_ts_def Let_def)
  next
    case no: False
    show ?thesis
    proof (cases "\<exists>stores s. x = Inr stores \<and> List.find (\<lambda>s. store_Name s = p @ t) stores = Some s")
      case False
      with g run no l ok ok1 show ?thesis
        by (cases x; cases q) (auto simp: GetStoreIDForTenant_ts_def Let_def split: option.splits)
    next
      case True
      then obtain stores s where x: "x = Inr stores" "List.find (\<lambda>s. store_Name s = p @ t) stores = Some s" by blast
      with list_find_listed [OF x(2)] service_lawsD(1) [OF S l [unfolded x(1)]]
      have v: "store_valid d (p @ t) (store_Id s)" by metis
      have "?es (held K (cache_Add K (''tenant-'' @ t) (store_Id s) c1))"
        by (rule entries_ok_insert [OF _ cache_lawsD(3) [OF K]]) (use ok1 v in auto)
      with g run no l x v ok show ?thesis by (cases q) (auto simp: GetStoreIDForTenant_ts_def Let_def)
    qed
  qed
qed

lemma GetModelIDForTenant_ts_sound:
  assumes K: "cache_laws K" and S: "service_laws S d" and ok: "tenant_store_ok K d p st"
    and run: "GetModelIDForTenant_ts K S t st = (r, st')"
  shows "tenant_store_ok K d p st' \<and> (\<forall>i. r = Inr i \<longrightarrow> model_valid d (p @ t) i)"
proof -
  let ?es = "entries_ok d (\<lambda>t. ''tenant-'' @ t) (\<lambda>t. ''model-'' @ t) (\<lambda>t. p @ t)"
  obtain q c1 where g: "cache_Get K (''model-'' @ t) (ts_cache (fst st)) = (q, c1)" by fastforce
  have ok1: "?es (held K c1)"
    using entries_ok_mono [OF _ cache_lawsD(1) [OF K g]] ok by blast
  obtain x t2 w2 where s: "GetStoreIDForTenant_ts K S t ((fst st)\<lparr>ts_cache := c1\<rparr>, snd st) = (x, t2, w2)"
    by (metis surj_pair)
  from ok ok1 have "tenant_store_ok K d p ((fst st)\<lparr>ts_cache := c1\<rparr>, snd st)" by simp
  note ss = GetStoreIDForTenant_ts_sound [OF K S this s]
  show ?thesis
  proof (cases "\<exists>v. q = Some v \<and> v \<noteq> []")
    case True
    then obtain v where v: "q = Some v" "v \<noteq> []" by blast
    with ok cache_lawsD(2) [OF K g [unfolded v(1)]] have "model_valid d (p @ t) v" by (auto simp: entries_ok_def)
    with v g run ok1 ok show ?thesis by (auto simp: GetModelIDForTenant_ts_def Let_def)
  next
    case no: False
    show ?thesis
    proof (cases "\<exists>sid m ms w3. x = Inr sid \<and> ReadAuthorizationModels S sid w2 = (Inr (m # ms), w3)")
      case False
      with g run no s ss show ?thesis
        by (cases x; cases q)
          (auto simp: GetModelIDForTenant_ts_def Let_def split: prod.splits sum.splits list.splits)
    next
      case True
      then obtain sid m ms w3 where x: "x = Inr sid" "ReadAuthorizationModels S sid w2 = (Inr (m # ms), w3)" by blast
      from service_lawsD(2) [OF S x(2)] ss x(1) have v: "model_valid d (p @ t) m" by blast
      have "?es (held K (cache_Add K (''model-'' @ t) m (ts_cache t2)))"
        by (rule entries_ok_insert [OF _ cache_lawsD(3) [OF K]]) (use ss v in auto)
      with g run no s x v ss show ?thesis by (cases q) (auto simp: GetModelIDForTenant_ts_def Let_def)
    qed
  qed
qed

interpretation store_ids: tenant_ids "GetStoreIDForTenant_ts K S" "GetModelIDForTenant_ts K S" "tenant_store_ok K d p"
    "\<lambda>t. store_valid d (p @ t)" "\<lambda>t. model_valid d (p @ t)" "cache_laws K \<and> service_laws S d"
    for K :: "'c string_cache" and S :: "'w fga_service" and d p
proof unfold_locales
  fix s s' :: "'c tenant_store \<times> 'w" and t r
  assume l: "cache_laws K \<and> service_laws S d" and ok: "tenant_store_ok K d p s"
  note c = GetStoreIDForTenant_ts_sound [OF conjunct1 [OF l] conjunct2 [OF l] ok]
    GetModelIDForTenant_ts_sound [OF conjunct1 [OF l] conjunct2 [OF l] ok]
  show "GetStoreIDForTenant_ts K S t s = (r, s') \<Longrightarrow>
      tenant_store_ok K d p s' \<and> (\<forall>i. r = Inr i \<longrightarrow> store_valid d (p @ t) i)"
    by (rule c(1))
  show "GetModelIDForTenant_ts K S t s = (r, s') \<Longrightarrow>
      tenant_store_ok K d p s' \<and> (\<forall>i. r = Inr i \<longrightarrow> model_valid d (p @ t) i)"
    by (rule c(2))
qed

section \<open>Properties\<close>

text \<open>A tenant store's state seen as the state of the package functions.\<close>

definition as_helper :: "'r \<times> 'c tenant_store \<times> 'w \<Rightarrow> 'r \<times> 'c \<times> 'w" where
  "as_helper x = (case x of (r, ts, w) \<Rightarrow> (r, ts_cache ts, w))"

lemma helper_store_eq:
  "GetStoreIDForTenant K S t (c, w) = as_helper (GetStoreIDForTenant_ts K S t (\<lparr>ts_cache = c, ts_storePrefix = ''tenant-''\<rparr>, w))"
  by (auto simp: GetStoreIDForTenant_def GetStoreIDForTenant_ts_def as_helper_def Let_def
      split: prod.split sum.split option.split)

lemma ts_prefix_kept:
  "GetStoreIDForTenant_ts K S t st = (r, ts, w) \<Longrightarrow> ts_storePrefix ts = ts_storePrefix (fst st)"
  by (auto simp: GetStoreIDForTenant_ts_def Let_def split: prod.splits sum.splits option.splits if_splits)

lemma helper_model_eq:
  "GetModelIDForTenant K S t (c, w) = as_helper (GetModelIDForTenant_ts K S t (\<lparr>ts_cache = c, ts_storePrefix = ''tenant-''\<rparr>, w))"
proof -
  obtain q c1 where g: "cache_Get K (''model-'' @ t) c = (q, c1)" by fastforce
  obtain x ts2 w2 where s: "GetStoreIDForTenant_ts K S t (\<lparr>ts_cache = c1, ts_storePrefix = ''tenant-''\<rparr>, w) = (x, ts2, w2)"
    by (metis surj_pair)
  from s have h: "GetStoreIDForTenant K S t (c1, w) = (x, ts_cache ts2, w2)"
    by (simp add: helper_store_eq as_helper_def)
  show ?thesis
    using g s h
    by (cases q) (auto simp: GetModelIDForTenant_def GetModelIDForTenant_ts_def as_helper_def Let_def
        split: prod.split sum.split list.split)
qed

abbreviation helper_ok :: "'c string_cache \<Rightarrow> directory \<Rightarrow> 'c \<times> 'w \<Rightarrow> bool" where
  "helper_ok K d st \<equiv> entries_ok d (\<lambda>t. ''tenant-'' @ t) (\<lambda>t. ''model-'' @ t) (\<lambda>t. ''tenant-'' @ t) (held K (fst st))"

lemma helpers_sound:
  assumes K: "cache_laws K" and S: "service_laws S d" and ok: "helper_ok K d st"
  shows "GetStoreIDForTenant K S t st = (r, st') \<Longrightarrow>
      helper_ok K d st' \<and> (\<forall>i. r = Inr i \<longrightarrow> store_valid d (''tenant-'' @ t) i)"
    and "GetModelIDForTenant K S t st = (r, st') \<Longrightarrow>
      helper_ok K d st' \<and> (\<forall>i. r = Inr i \<longrightarrow> model_valid d (''tenant-'' @ t) i)"
proof -
  obtain c w where st: "st = (c, w)" by fastforce
  let ?ts = "(\<lparr>ts_cache = c, ts_storePrefix = ''tenant-''\<rparr>, w)"
  have ts: "tenant_store_ok K d ''tenant-'' ?ts" using ok st by simp
  note s = GetStoreIDForTenant_ts_sound [OF K S ts, of t] and m = GetModelIDForTenant_ts_sound [OF K S ts, of t]
  show "GetStoreIDForTenant K S t st = (r, st') \<Longrightarrow>
      helper_ok K d st' \<and> (\<forall>i. r = Inr i \<longrightarrow> store_valid d (''tenant-'' @ t) i)"
    using s unfolding st helper_store_eq
    by (cases "GetStoreIDForTenant_ts K S t ?ts") (auto simp: as_helper_def)
  show "GetModelIDForTenant K S t st = (r, st') \<Longrightarrow>
      helper_ok K d st' \<and> (\<forall>i. r = Inr i \<longrightarrow> model_valid d (''tenant-'' @ t) i)"
    using m unfolding st helper_model_eq
    by (cases "GetModelIDForTenant_ts K S t ?ts") (auto simp: as_helper_def)
qed

interpretation helper_ids: tenant_ids "GetStoreIDForTenant K S" "GetModelIDForTenant K S" "helper_ok K d"
    "\<lambda>t. store_valid d (''tenant-'' @ t)" "\<lambda>t. model_valid d (''tenant-'' @ t)"
    "cache_laws K \<and> service_laws S d"
    for K :: "'c string_cache" and S :: "'w fga_service" and d
proof unfold_locales
  fix s s' :: "'c \<times> 'w" and t r
  assume l: "cache_laws K \<and> service_laws S d" and ok: "helper_ok K d s"
  note c = helpers_sound [OF conjunct1 [OF l] conjunct2 [OF l] ok]
  show "GetStoreIDForTenant K S t s = (r, s') \<Longrightarrow> helper_ok K d s' \<and> (\<forall>i. r = Inr i \<longrightarrow> store_valid d (''tenant-'' @ t) i)"
    by (rule c(1))
  show "GetModelIDForTenant K S t s = (r, s') \<Longrightarrow> helper_ok K d s' \<and> (\<forall>i. r = Inr i \<longrightarrow> model_valid d (''tenant-'' @ t) i)"
    by (rule c(2))
qed

text \<open>
  C34.  The package functions of \<open>helpers\<close> and the default \<open>FgaTenantStore\<close> are the same: on equal
  caches they return the same store and model, or the same error, and leave the same cache and the
  same calls to the service behind.
\<close>

theorem helpers_equal_tenant_store:
  "GetStoreIDForTenant K S t (c, w) = as_helper (GetStoreIDForTenant_ts K S t (New_tenant_store c, w)) \<and>
   GetModelIDForTenant K S t (c, w) = as_helper (GetModelIDForTenant_ts K S t (New_tenant_store c, w))"
  by (simp add: helper_store_eq helper_model_eq New_tenant_store_def)

text \<open>
  Tenants do not mix: from an empty cache, after any sequence of lookups of stores and models for
  any tenants, a store id that comes back for a tenant is the id of a store whose name is the prefix
  with this tenant, and a model id a model of such a store, however the cache evicts and expires.
\<close>

theorem tenant_lookups_sound:
  assumes "cache_laws K" and "service_laws S d" and "held K c = {}"
  shows "let st = store_ids.lookups K S qs (NewWithPrefix c prefix, w)
    in (fst (GetStoreIDForTenant_ts K S t st) = Inr i \<longrightarrow> store_valid d (prefix @ t) i) \<and>
       (fst (GetModelIDForTenant_ts K S t st) = Inr j \<longrightarrow> model_valid d (prefix @ t) j)"
proof -
  have "tenant_store_ok K d prefix (NewWithPrefix c prefix, w)"
    using assms(3) by (simp add: NewWithPrefix_def entries_ok_def)
  from store_ids.lookups_sound [OF conjI [OF assms(1,2)] this] show ?thesis unfolding Let_def by blast
qed

text \<open>A service with two tenants, as an instance of the parameter.\<close>

definition two_tenants :: "nat fga_service" where
  "two_tenants = \<lparr>ListStores = (\<lambda>w. (Inr [\<lparr>store_Id = ''s1'', store_Name = ''tenant-a''\<rparr>,
       \<lparr>store_Id = ''s2'', store_Name = ''tenant-b''\<rparr>], Suc w)),
     ReadAuthorizationModels = (\<lambda>sid w. (Inr [sid @ ''-m''], Suc w)),
     svc_Check = (\<lambda>r w. (Inr True, w)), svc_Read = (\<lambda>r w. (Inr [], w)), svc_Write = (\<lambda>r w. (None, w))\<rparr>"

definition two_directory :: directory where
  "two_directory = ({(''tenant-a'', ''s1''), (''tenant-b'', ''s2'')}, \<lambda>sid. {sid @ ''-m''})"

lemma two_tenants_laws: "service_laws two_tenants two_directory"
  by (auto simp: service_laws_def two_tenants_def two_directory_def)

lemmas store_defs = GetStoreIDForTenant_ts_def GetModelIDForTenant_ts_def StoreId_def ModelId_def
  cacheKeyForStore_def cacheKeyForModel_def NewWithPrefix_def map_cache_def two_tenants_def

theorem tenant_lookups_sound_witness:
  "model_valid two_directory ''tenant-b'' ''s2-m''"
proof -
  have "fst (GetModelIDForTenant_ts map_cache two_tenants ''b''
      (store_ids.lookups map_cache two_tenants [(True, ''a''), (False, ''b'')] (NewWithPrefix Map.empty ''tenant-'', 0))) = Inr ''s2-m''"
    by (simp add: store_defs)
  moreover have "held map_cache Map.empty = {}" by (simp add: map_cache_def)
  ultimately show ?thesis
    using tenant_lookups_sound [OF map_cache_laws two_tenants_laws, of Map.empty "[(True, ''a''), (False, ''b'')]"
      "''tenant-''" 0 "''b''" _ "''s2-m''"] by (simp add: Let_def)
qed

end
