(* ===== verification/Tenant_Concurrency.thy ===== *)
theory Tenant_Concurrency
  imports Fga_Store
begin

text \<open>
  Lookups of \<open>fga/store/store.go\<close> by several goroutines that share a \<open>FgaTenantStore\<close>.  A lookup is cut at
  its calls of the cache, which is safe for concurrent use, and of the service: between two of them other
  lookups may run.  A lookup without interruption is the function of the theory \<open>Fga_Store\<close>.
\<close>

section \<open>A lookup in steps\<close>

text \<open>
  Where a lookup stands; the flag of the store steps says that \<open>GetModelIDForTenant\<close> has called them.
\<close>

datatype lookup_pc =
    ModelGet
  | StoreGet bool
  | StoreList bool
  | StoreAdd bool string
  | ModelList string
  | ModelAdd string
  | Returned "goerror + string"

definition store_found :: "bool \<Rightarrow> string \<Rightarrow> lookup_pc" where
  "store_found for_model sid = (if for_model then ModelList sid else Returned (Inr sid))"

definition lookup_step ::
  "'c string_cache \<Rightarrow> 'w fga_service \<Rightarrow> string \<Rightarrow> string \<Rightarrow> lookup_pc \<Rightarrow> 'c \<times> 'w \<Rightarrow> lookup_pc \<times> 'c \<times> 'w" where
  "lookup_step K S prefix tenantID pc st = (case pc of
     ModelGet \<Rightarrow>
       (case cache_Get K (''model-'' @ tenantID) (fst st) of
          (Some s, c1) \<Rightarrow> (if s \<noteq> [] then Returned (Inr s) else StoreGet True, c1, snd st)
        | (None, c1) \<Rightarrow> (StoreGet True, c1, snd st))
   | StoreGet m \<Rightarrow>
       (case cache_Get K (''tenant-'' @ tenantID) (fst st) of
          (Some s, c1) \<Rightarrow> (if s \<noteq> [] then store_found m s else StoreList m, c1, snd st)
        | (None, c1) \<Rightarrow> (StoreList m, c1, snd st))
   | StoreList m \<Rightarrow>
       (case ListStores S (snd st) of
          (Inl err, w) \<Rightarrow> (Returned (Inl err), fst st, w)
        | (Inr stores, w) \<Rightarrow>
            let storeName = prefix @ tenantID in
            (case List.find (\<lambda>s. store_Name s = storeName) stores of
               None \<Rightarrow> (Returned (Inl (ErrorString (''could not find store matching key '' @ storeName))), fst st, w)
             | Some s \<Rightarrow> (StoreAdd m (store_Id s), fst st, w)))
   | StoreAdd m sid \<Rightarrow> (store_found m sid, cache_Add K (''tenant-'' @ tenantID) sid (fst st), snd st)
   | ModelList sid \<Rightarrow>
       (case ReadAuthorizationModels S sid (snd st) of
          (Inl err, w) \<Rightarrow> (Returned (Inl err), fst st, w)
        | (Inr [], w) \<Rightarrow>
            (Returned (Inl (ErrorString ''no authorization models in response. Cannot determine proper AuthorizationModelId'')), fst st, w)
        | (Inr (m # _), w) \<Rightarrow> (ModelAdd m, fst st, w))
   | ModelAdd mid \<Rightarrow> (Returned (Inr mid), cache_Add K (''model-'' @ tenantID) mid (fst st), snd st)
   | Returned r \<Rightarrow> (Returned r, st))"

text \<open>The steps a lookup takes at most.\<close>

fun steps_left :: "lookup_pc \<Rightarrow> nat" where
  "steps_left ModelGet = 6"
| "steps_left (StoreGet m) = (if m then 5 else 3)"
| "steps_left (StoreList m) = (if m then 4 else 2)"
| "steps_left (StoreAdd m _) = (if m then 3 else 1)"
| "steps_left (ModelList _) = 2"
| "steps_left (ModelAdd _) = 1"
| "steps_left (Returned _) = 0"

section \<open>Several lookups\<close>

text \<open>A lookup is its tenant, whether it asks for the model, and where it stands; a schedule is a list of lookups.\<close>

record 'c lookup_sys =
  sys_cache :: 'c
  sys_threads :: "(bool \<times> string \<times> lookup_pc) list"

definition start_pc :: "bool \<Rightarrow> lookup_pc" where
  "start_pc model = (if model then ModelGet else StoreGet False)"

definition start_lookups :: "'c tenant_store \<Rightarrow> (bool \<times> string) list \<Rightarrow> 'c lookup_sys" where
  "start_lookups t qs = \<lparr>sys_cache = ts_cache t, sys_threads = map (\<lambda>(m, tid). (m, tid, start_pc m)) qs\<rparr>"

definition sys_step_at ::
  "'c string_cache \<Rightarrow> 'w fga_service \<Rightarrow> string \<Rightarrow> nat \<Rightarrow> 'c lookup_sys \<times> 'w \<Rightarrow> 'c lookup_sys \<times> 'w" where
  "sys_step_at K S prefix i s =
     (if i < length (sys_threads (fst s)) then
        (let (m, tid, pc) = sys_threads (fst s) ! i;
             (pc1, c1, w1) = lookup_step K S prefix tid pc (sys_cache (fst s), snd s)
         in (\<lparr>sys_cache = c1, sys_threads = (sys_threads (fst s))[i := (m, tid, pc1)]\<rparr>, w1))
      else s)"

fun run_schedule ::
  "'c string_cache \<Rightarrow> 'w fga_service \<Rightarrow> string \<Rightarrow> nat list \<Rightarrow> 'c lookup_sys \<times> 'w \<Rightarrow> 'c lookup_sys \<times> 'w" where
  "run_schedule K S prefix [] s = s"
| "run_schedule K S prefix (i # sched) s = run_schedule K S prefix sched (sys_step_at K S prefix i s)"

section \<open>The steps are the functions of the code\<close>

fun uninterrupted ::
  "'c string_cache \<Rightarrow> 'w fga_service \<Rightarrow> string \<Rightarrow> string \<Rightarrow> nat \<Rightarrow> lookup_pc \<Rightarrow> 'c \<times> 'w \<Rightarrow> lookup_pc \<times> 'c \<times> 'w" where
  "uninterrupted K S prefix t 0 pc st = (pc, st)"
| "uninterrupted K S prefix t (Suc n) pc st =
     (let (pc1, st1) = lookup_step K S prefix t pc st in uninterrupted K S prefix t n pc1 st1)"

lemma uninterrupted_Returned [simp]: "uninterrupted K S prefix t n (Returned r) st = (Returned r, st)"
  by (induction n) (simp_all add: lookup_step_def)

definition ts_result :: "(goerror + string) \<times> 'c tenant_store \<times> 'w \<Rightarrow> lookup_pc \<times> 'c \<times> 'w" where
  "ts_result x = (case x of (r, t, w) \<Rightarrow> (Returned r, ts_cache t, w))"

lemma Suc_steps:
  "lookup_step K S prefix t pc st = (pc1, st1) \<Longrightarrow>
   uninterrupted K S prefix t (Suc n) pc st = uninterrupted K S prefix t n pc1 st1"
  by simp

text \<open>The three ways through the store steps: a cached store, no store, and a store that is listed.\<close>

lemma store_cases:
  obtains (cached) sid c1 where "cache_Get K (''tenant-'' @ tid) (ts_cache t) = (Some sid, c1)" "sid \<noteq> []"
  | (failed) q c1 err w1 where "cache_Get K (''tenant-'' @ tid) (ts_cache t) = (q, c1)" "\<forall>sid. q = Some sid \<longrightarrow> sid = []"
      "ListStores S w = (Inl err, w1)"
  | (missing) q c1 stores w1 where "cache_Get K (''tenant-'' @ tid) (ts_cache t) = (q, c1)" "\<forall>sid. q = Some sid \<longrightarrow> sid = []"
      "ListStores S w = (Inr stores, w1)" "List.find (\<lambda>s. store_Name s = ts_storePrefix t @ tid) stores = None"
  | (listed) q c1 stores w1 s where "cache_Get K (''tenant-'' @ tid) (ts_cache t) = (q, c1)" "\<forall>sid. q = Some sid \<longrightarrow> sid = []"
      "ListStores S w = (Inr stores, w1)" "List.find (\<lambda>s. store_Name s = ts_storePrefix t @ tid) stores = Some s"
proof -
  obtain q c1 where g: "cache_Get K (''tenant-'' @ tid) (ts_cache t) = (q, c1)" by fastforce
  obtain x w1 where l: "ListStores S w = (x, w1)" by fastforce
  show ?thesis
  proof (cases "\<exists>sid. q = Some sid \<and> sid \<noteq> []")
    case True
    with g cached show ?thesis by blast
  next
    case False
    with g l failed missing listed show ?thesis
      by (cases x; cases "List.find (\<lambda>s. store_Name s = ts_storePrefix t @ tid) (projr x)") auto
  qed
qed

text \<open>The store steps of a lookup end with the result of \<open>GetStoreIDForTenant\<close>, in at most three steps.\<close>

lemma store_steps_any:
  obtains n where "n \<le> 3"
    "\<And>k. uninterrupted K S (ts_storePrefix t) tid (n + k) (StoreGet m) (ts_cache t, w) =
      (case GetStoreIDForTenant_ts K S tid (t, w) of
         (Inl err, t1, w1) \<Rightarrow> (Returned (Inl err), ts_cache t1, w1)
       | (Inr sid, t1, w1) \<Rightarrow> uninterrupted K S (ts_storePrefix t) tid k (store_found m sid) (ts_cache t1, w1))"
proof (cases rule: store_cases [where K = K and tid = tid and t = t and S = S and w = w])
  case (cached sid c1)
  then show ?thesis by (intro that [of "Suc 0"]) (simp_all add: lookup_step_def GetStoreIDForTenant_ts_def Let_def)
next
  case (failed q c1 err w1)
  then show ?thesis
    by (cases q; intro that [of "Suc (Suc 0)"]) (simp_all add: lookup_step_def GetStoreIDForTenant_ts_def Let_def)
next
  case (missing q c1 stores w1)
  then show ?thesis
    by (cases q; intro that [of "Suc (Suc 0)"]) (simp_all add: lookup_step_def GetStoreIDForTenant_ts_def Let_def)
next
  case (listed q c1 stores w1 s)
  then show ?thesis
    by (cases q; intro that [of "Suc (Suc (Suc 0))"]) (simp_all add: lookup_step_def GetStoreIDForTenant_ts_def Let_def)
qed

lemma store_steps:
  "uninterrupted K S (ts_storePrefix t) tid 3 (StoreGet False) (ts_cache t, w) =
   ts_result (GetStoreIDForTenant_ts K S tid (t, w))"
proof -
  from store_steps_any [of K S t tid False w] obtain n where "n \<le> 3" and
    n: "\<And>k. uninterrupted K S (ts_storePrefix t) tid (n + k) (StoreGet False) (ts_cache t, w) =
      (case GetStoreIDForTenant_ts K S tid (t, w) of
         (Inl err, t1, w1) \<Rightarrow> (Returned (Inl err), ts_cache t1, w1)
       | (Inr sid, t1, w1) \<Rightarrow> uninterrupted K S (ts_storePrefix t) tid k (store_found False sid) (ts_cache t1, w1))"
    by blast
  then show ?thesis using n [of "3 - n"] by (simp add: ts_result_def store_found_def split: prod.split sum.split)
qed

text \<open>The rest of a lookup of the model, after a store has been found.\<close>

definition list_models ::
  "'c string_cache \<Rightarrow> 'w fga_service \<Rightarrow> string \<Rightarrow> string \<Rightarrow> 'c tenant_store \<Rightarrow> 'w \<Rightarrow> (goerror + string) \<times> 'c tenant_store \<times> 'w" where
  "list_models K S tid sid t w =
     (case ReadAuthorizationModels S sid w of
        (Inl err, w3) \<Rightarrow> (Inl err, t, w3)
      | (Inr models, w3) \<Rightarrow>
          (case models of
             [] \<Rightarrow> (Inl (ErrorString ''no authorization models in response. Cannot determine proper AuthorizationModelId''), t, w3)
           | m # _ \<Rightarrow> (Inr m, t\<lparr>ts_cache := cache_Add K (''model-'' @ tid) m (ts_cache t)\<rparr>, w3)))"

lemma list_models_steps:
  "uninterrupted K S p tid (Suc (Suc n)) (ModelList sid) (ts_cache t, w) = ts_result (list_models K S tid sid t w)"
proof -
  obtain y w2 where y: "ReadAuthorizationModels S sid w = (y, w2)" by fastforce
  show ?thesis
  proof (cases y)
    case (Inl err)
    with y show ?thesis by (simp add: lookup_step_def list_models_def ts_result_def)
  next
    case (Inr ms)
    with y show ?thesis by (cases ms) (simp_all add: lookup_step_def list_models_def ts_result_def)
  qed
qed

lemma model_cached:
  "cache_Get K (''model-'' @ tid) (ts_cache t) = (Some v, c1) \<Longrightarrow> v \<noteq> [] \<Longrightarrow>
   GetModelIDForTenant_ts K S tid (t, w) = (Inr v, t\<lparr>ts_cache := c1\<rparr>, w)"
  by (simp add: GetModelIDForTenant_ts_def Let_def)

lemma model_asked:
  "cache_Get K (''model-'' @ tid) (ts_cache t) = (q, c1) \<Longrightarrow> \<nexists>v. q = Some v \<and> v \<noteq> [] \<Longrightarrow>
   GetModelIDForTenant_ts K S tid (t, w) =
     (case GetStoreIDForTenant_ts K S tid (t\<lparr>ts_cache := c1\<rparr>, w) of
        (Inl err, t2, w2) \<Rightarrow> (Inl err, t2, w2)
      | (Inr sid, t2, w2) \<Rightarrow> list_models K S tid sid t2 w2)"
  unfolding GetModelIDForTenant_ts_def list_models_def Let_def by (cases q) (simp_all cong: if_cong)

lemma model_steps:
  "uninterrupted K S (ts_storePrefix t) tid (Suc 5) ModelGet (ts_cache t, w) =
   ts_result (GetModelIDForTenant_ts K S tid (t, w))"
proof -
  obtain q c1 where g: "cache_Get K (''model-'' @ tid) (ts_cache t) = (q, c1)" by fastforce
  show ?thesis
  proof (cases "\<exists>v. q = Some v \<and> v \<noteq> []")
    case True
    then obtain v where v: "q = Some v" "v \<noteq> []" by blast
    with g have "lookup_step K S (ts_storePrefix t) tid ModelGet (ts_cache t, w) = (Returned (Inr v), c1, w)"
      by (simp add: lookup_step_def)
    from Suc_steps [OF this, of 5] show ?thesis
      unfolding model_cached [OF g [unfolded v(1)] v(2)] uninterrupted_Returned by (simp add: ts_result_def)
  next
    case False
    with g have "lookup_step K S (ts_storePrefix t) tid ModelGet (ts_cache t, w) = (StoreGet True, c1, w)"
      by (cases q) (auto simp: lookup_step_def)
    note step = Suc_steps [OF this, of 5]
    let ?t = "t\<lparr>ts_cache := c1\<rparr>"
    from store_steps_any [of K S ?t tid True w] obtain n where "n \<le> 3" and
      n: "\<And>k. uninterrupted K S (ts_storePrefix ?t) tid (n + k) (StoreGet True) (ts_cache ?t, w) =
        (case GetStoreIDForTenant_ts K S tid (?t, w) of
           (Inl err, t1, w1) \<Rightarrow> (Returned (Inl err), ts_cache t1, w1)
         | (Inr sid, t1, w1) \<Rightarrow> uninterrupted K S (ts_storePrefix ?t) tid k (store_found True sid) (ts_cache t1, w1))"
      by blast
    have sels: "ts_storePrefix ?t = ts_storePrefix t" "ts_cache ?t = c1" by simp_all
    have "(5 :: nat) = n + Suc (Suc (3 - n))" using \<open>n \<le> 3\<close> by linarith
    with n [of "Suc (Suc (3 - n))"] step have
      "uninterrupted K S (ts_storePrefix t) tid (Suc 5) ModelGet (ts_cache t, w) =
        (case GetStoreIDForTenant_ts K S tid (?t, w) of
           (Inl err, t1, w1) \<Rightarrow> (Returned (Inl err), ts_cache t1, w1)
         | (Inr sid, t1, w1) \<Rightarrow> uninterrupted K S (ts_storePrefix t) tid (Suc (Suc (3 - n))) (ModelList sid) (ts_cache t1, w1))"
      by (simp only: store_found_def if_True sels)
    then show ?thesis unfolding list_models_steps model_asked [OF g False]
      by (simp add: ts_result_def split: prod.split sum.split)
  qed
qed

section \<open>The invariant\<close>

text \<open>What a lookup has found so far belongs to its tenant.\<close>

fun pc_ok :: "directory \<Rightarrow> string \<Rightarrow> bool \<Rightarrow> lookup_pc \<Rightarrow> bool" where
  "pc_ok d name model (StoreAdd m sid) \<longleftrightarrow> m = model \<and> store_valid d name sid"
| "pc_ok d name model (ModelList sid) \<longleftrightarrow> model \<and> store_valid d name sid"
| "pc_ok d name model (ModelAdd mid) \<longleftrightarrow> model \<and> model_valid d name mid"
| "pc_ok d name model (Returned r) \<longleftrightarrow>
     (case r of Inl _ \<Rightarrow> True | Inr i \<Rightarrow> if model then model_valid d name i else store_valid d name i)"
| "pc_ok d name model ModelGet \<longleftrightarrow> model"
| "pc_ok d name model (StoreGet m) \<longleftrightarrow> m = model"
| "pc_ok d name model (StoreList m) \<longleftrightarrow> m = model"

abbreviation cache_ok :: "'c string_cache \<Rightarrow> directory \<Rightarrow> string \<Rightarrow> 'c \<Rightarrow> bool" where
  "cache_ok K d prefix c \<equiv> entries_ok d (\<lambda>t. ''tenant-'' @ t) (\<lambda>t. ''model-'' @ t) (\<lambda>t. prefix @ t) (held K c)"

lemma store_found_ok: "store_valid d name sid \<Longrightarrow> m = model \<Longrightarrow> pc_ok d name model (store_found m sid)"
  by (simp add: store_found_def)

text \<open>Reading the cache keeps the invariant and finds a value of the tenant; adding such a value keeps it.\<close>

lemma cache_ok_Get:
  assumes "cache_laws K" "cache_ok K d p c" "cache_Get K k c = (r, c1)"
  shows "cache_ok K d p c1"
    and "r = Some v \<Longrightarrow> k = ''tenant-'' @ t \<Longrightarrow> store_valid d (p @ t) v"
    and "r = Some v \<Longrightarrow> k = ''model-'' @ t \<Longrightarrow> model_valid d (p @ t) v"
  using entries_ok_mono [OF assms(2) cache_lawsD(1) [OF assms(1,3)]] cache_lawsD(2) [OF assms(1)] assms(2,3)
  by (fastforce simp: entries_ok_def)+

lemma cache_ok_Add:
  assumes "cache_laws K" "cache_ok K d p c"
  shows "store_valid d (p @ t) v \<Longrightarrow> cache_ok K d p (cache_Add K (''tenant-'' @ t) v c)"
    and "model_valid d (p @ t) v \<Longrightarrow> cache_ok K d p (cache_Add K (''model-'' @ t) v c)"
  by (rule entries_ok_insert [OF assms(2) cache_lawsD(3) [OF assms(1)]]; auto)+

lemma lookup_step_ok:
  assumes K: "cache_laws K" and S: "service_laws S d" and ok: "cache_ok K d p c" "pc_ok d (p @ t) model pc"
    and run: "lookup_step K S p t pc (c, w) = (pc1, c1, w1)"
  shows "cache_ok K d p c1 \<and> pc_ok d (p @ t) model pc1"
proof (cases pc)
  case ModelGet
  obtain q c2 where g: "cache_Get K (''model-'' @ t) c = (q, c2)" by fastforce
  note cache_ok_Get [OF K ok(1) g]
  with ModelGet g run ok(2) show ?thesis by (auto simp: lookup_step_def split: option.splits if_splits)
next
  case (StoreGet m)
  obtain q c2 where g: "cache_Get K (''tenant-'' @ t) c = (q, c2)" by fastforce
  note cache_ok_Get [OF K ok(1) g]
  with StoreGet g run ok(2) show ?thesis
    by (auto simp: lookup_step_def store_found_ok split: option.splits if_splits)
next
  case (StoreList m)
  have listed: "store_valid d (p @ t) (store_Id s)"
    if "ListStores S w = (Inr xs, w')" "List.find (\<lambda>s. store_Name s = p @ t) xs = Some s" for xs w' s
    using service_lawsD(1) [OF S that(1)] list_find_listed [OF that(2)] by metis
  from StoreList run ok listed show ?thesis
    by (auto simp: lookup_step_def Let_def split: prod.splits sum.splits option.splits)
next
  case (StoreAdd m sid)
  with run ok cache_ok_Add(1) [OF K ok(1)] show ?thesis by (auto simp: lookup_step_def store_found_ok)
next
  case (ModelList sid)
  with run ok service_lawsD(2) [OF S] show ?thesis
    by (auto simp: lookup_step_def split: prod.splits sum.splits list.splits)
next
  case (ModelAdd mid)
  with run ok cache_ok_Add(2) [OF K ok(1)] show ?thesis by (auto simp: lookup_step_def)
next
  case (Returned r)
  with run ok show ?thesis by (auto simp: lookup_step_def)
qed

text \<open>Every step of a lookup that has not returned brings it closer to its end.\<close>

lemma lookup_step_left:
  "lookup_step K S p t pc st = (pc1, st1) \<Longrightarrow> steps_left pc1 \<le> steps_left pc - 1"
  by (cases pc) (auto simp: lookup_step_def store_found_def Let_def
      split: prod.splits option.splits sum.splits list.splits if_splits)

text \<open>What holds for all lookups between the steps of a schedule.\<close>

definition lookups_ok :: "'c string_cache \<Rightarrow> directory \<Rightarrow> string \<Rightarrow> 'c lookup_sys \<Rightarrow> bool" where
  "lookups_ok K d p s \<longleftrightarrow> cache_ok K d p (sys_cache s) \<and>
     (\<forall>(m, t, pc) \<in> set (sys_threads s). pc_ok d (p @ t) m pc)"

lemma sys_step_ok:
  assumes "cache_laws K" "service_laws S d" "lookups_ok K d p (fst s)"
  shows "lookups_ok K d p (fst (sys_step_at K S p i s))"
proof (cases "i < length (sys_threads (fst s))")
  case True
  obtain m t pc where th: "sys_threads (fst s) ! i = (m, t, pc)" by (metis surj_pair)
  obtain pc1 c1 w1 where st: "lookup_step K S p t pc (sys_cache (fst s), snd s) = (pc1, c1, w1)" by (metis surj_pair)
  have "(m, t, pc) \<in> set (sys_threads (fst s))" using True th by (metis nth_mem)
  with assms(3) have "cache_ok K d p (sys_cache (fst s))" "pc_ok d (p @ t) m pc" by (auto simp: lookups_ok_def)
  from lookup_step_ok [OF assms(1,2) this st] have "cache_ok K d p c1" "pc_ok d (p @ t) m pc1" by simp_all
  with True th st assms(3) show ?thesis
    by (fastforce simp: sys_step_at_def lookups_ok_def dest: set_update_subset_insert [THEN subsetD])
qed (use assms in \<open>simp add: sys_step_at_def\<close>)

lemma run_schedule_ok:
  "cache_laws K \<Longrightarrow> service_laws S d \<Longrightarrow> lookups_ok K d p (fst s) \<Longrightarrow> lookups_ok K d p (fst (run_schedule K S p sched s))"
  by (induction sched arbitrary: s) (simp_all add: sys_step_ok)

text \<open>A step changes one lookup only, and where it stands only.\<close>

definition lookup_at :: "'c lookup_sys \<Rightarrow> nat \<Rightarrow> bool \<times> string \<times> lookup_pc" where
  "lookup_at s i = sys_threads s ! i"

lemma sys_step_length [simp]:
  "length (sys_threads (fst (sys_step_at K S p j s))) = length (sys_threads (fst s))"
  by (simp add: sys_step_at_def Let_def split: prod.split)

lemma sys_step_frame:
  assumes "i < length (sys_threads (fst s))" "lookup_at (fst s) i = (m, t, pc)"
  shows "\<exists>pc1. lookup_at (fst (sys_step_at K S p j s)) i = (m, t, pc1) \<and>
    steps_left pc1 \<le> steps_left pc - (if i = j then 1 else 0)"
proof (cases "i = j")
  case True
  obtain pc1 c1 w1 where st: "lookup_step K S p t pc (sys_cache (fst s), snd s) = (pc1, c1, w1)" by (metis surj_pair)
  from True assms st lookup_step_left [OF st] show ?thesis by (simp add: sys_step_at_def lookup_at_def)
next
  case False
  with assms show ?thesis by (simp add: sys_step_at_def lookup_at_def Let_def split: prod.split)
qed

lemma run_schedule_frame:
  assumes "i < length (sys_threads (fst s))" "lookup_at (fst s) i = (m, t, pc)"
  shows "\<exists>pc1. lookup_at (fst (run_schedule K S p sched s)) i = (m, t, pc1) \<and>
      steps_left pc1 \<le> steps_left pc - count_list sched i \<and>
    length (sys_threads (fst (run_schedule K S p sched s))) = length (sys_threads (fst s))"
  using assms
proof (induction sched arbitrary: s pc)
  case (Cons j sched)
  from sys_step_frame [OF Cons.prems, of K S p j] obtain pc1 where
    1: "lookup_at (fst (sys_step_at K S p j s)) i = (m, t, pc1)" "steps_left pc1 \<le> steps_left pc - (if i = j then 1 else 0)"
    by blast
  from Cons.IH [OF _ 1(1)] Cons.prems(1) obtain pc2 where
    "lookup_at (fst (run_schedule K S p (j # sched) s)) i = (m, t, pc2)"
    "steps_left pc2 \<le> steps_left pc1 - count_list sched i"
    "length (sys_threads (fst (run_schedule K S p (j # sched) s))) = length (sys_threads (fst s))" by auto
  with 1(2) show ?case by (auto split: if_splits)
qed simp

lemma steps_left_0: "steps_left pc = 0 \<Longrightarrow> \<exists>r. pc = Returned r"
  by (cases pc) (auto split: if_splits)

section \<open>Properties\<close>

text \<open>
  C17.  Lookups in parallel: goroutines look up stores and models of any tenants through one \<open>FgaTenantStore\<close>
  with an empty cache, and their steps interleave in any order.  A lookup that has been given six steps has
  returned, whatever the others do; when it has returned an id, the id is of a store whose name is the prefix
  with its own tenant, or of a model of such a store.
\<close>

theorem concurrent_lookups_sound:
  assumes "cache_laws K" and "service_laws S d" and "held K c = {}" and "i < length qs"
  shows "let s = fst (run_schedule K S prefix sched (start_lookups (NewWithPrefix c prefix) qs, w));
      (model, t, pc) = lookup_at s i
    in (model, t) = qs ! i \<and> (6 \<le> count_list sched i \<longrightarrow> (\<exists>r. pc = Returned r)) \<and>
       (\<forall>v. pc = Returned (Inr v) \<longrightarrow> (if model then model_valid d (prefix @ t) v else store_valid d (prefix @ t) v))"
proof -
  let ?s0 = "(start_lookups (NewWithPrefix c prefix) qs, w)"
  let ?fin = "fst (run_schedule K S prefix sched ?s0)"
  obtain m t where q: "qs ! i = (m, t)" by fastforce
  have len: "i < length (sys_threads (fst ?s0))" using assms(4) by (simp add: start_lookups_def)
  have at0: "lookup_at (fst ?s0) i = (m, t, start_pc m)" using assms(4) q by (simp add: lookup_at_def start_lookups_def)
  from run_schedule_frame [OF len at0, where K = K and S = S and p = prefix and sched = sched] obtain pc where
    at: "lookup_at ?fin i = (m, t, pc)" "steps_left pc \<le> steps_left (start_pc m) - count_list sched i"
      "i < length (sys_threads ?fin)" using len by auto
  have "lookups_ok K d prefix (fst ?s0)" using assms(3)
    by (auto simp: lookups_ok_def start_lookups_def NewWithPrefix_def entries_ok_def start_pc_def)
  from run_schedule_ok [OF assms(1,2) this, of sched] have "pc_ok d (prefix @ t) m pc"
    using at(1) nth_mem [OF at(3)] by (auto simp: lookups_ok_def lookup_at_def)
  moreover have "\<exists>r. pc = Returned r" if "6 \<le> count_list sched i"
    using at(2) that by (intro steps_left_0) (auto simp: start_pc_def split: if_splits)
  ultimately show ?thesis unfolding Let_def at(1) prod.case q by auto
qed

text \<open>Two lookups that take turns: the model of tenant \<open>b\<close> and the store of tenant \<open>a\<close>.\<close>

definition two_lookups :: "(bool \<times> string) list" where
  "two_lookups = [(True, ''b''), (False, ''a'')]"

definition turns :: "nat list" where
  "turns = [0, 1, 0, 1, 0, 1, 0, 0, 0]"

lemma turns_run:
  "lookup_at (fst (run_schedule map_cache two_tenants ''tenant-'' turns
     (start_lookups (NewWithPrefix Map.empty ''tenant-'') two_lookups, 0))) 0 = (True, ''b'', Returned (Inr ''s2-m''))"
  by (simp add: turns_def two_lookups_def start_lookups_def start_pc_def lookup_at_def sys_step_at_def lookup_step_def
      store_found_def NewWithPrefix_def map_cache_def two_tenants_def)

theorem concurrent_lookups_sound_witness:
  "model_valid two_directory ''tenant-b'' ''s2-m'' \<and> 6 \<le> count_list turns 0"
proof -
  have "held map_cache Map.empty = {}" by (simp add: map_cache_def)
  note sound = concurrent_lookups_sound [OF map_cache_laws two_tenants_laws this,
      of 0 two_lookups "''tenant-''" turns 0, unfolded Let_def turns_run prod.case]
  have "0 < length two_lookups" "6 \<le> count_list turns 0" by (simp_all add: two_lookups_def turns_def)
  with sound show ?thesis by auto
qed

end
