(* ===== verification/Fga_Client.thy ===== *)
theory Fga_Client
  imports Fga_Store
begin

text \<open>
  The OpenFGA client, \<open>fga/client/check.go\<close>, \<open>read.go\<close> and \<open>write.go\<close>, on top of the store and model
  lookups of \<open>Fga_Store\<close>.  The locale \<open>tuple_client\<close> is the part of \<open>OpenFGAClientServicer\<close>
  (\<open>fga/interface.go\<close>) that the conditional writes rest on.
\<close>

section \<open>Operations\<close>

definition Check ::
  "'c string_cache \<Rightarrow> 'w fga_service \<Rightarrow> string \<Rightarrow> string \<Rightarrow> string \<Rightarrow> string \<Rightarrow> 'c \<times> 'w \<Rightarrow>
   (goerror + bool) \<times> 'c \<times> 'w" where
  "Check K S ob relation user tenantId st =
     (case StoreId K S tenantId st of
        (Inl err, st1) \<Rightarrow> (Inl err, st1)
      | (Inr storeId, st1) \<Rightarrow>
     (case ModelId K S tenantId st1 of
        (Inl err, st2) \<Rightarrow> (Inl err, st2)
      | (Inr modelId, c2, w2) \<Rightarrow>
          (let (r, w3) = svc_Check S \<lparr>cr_StoreId = storeId, cr_ModelId = modelId,
                 cr_TupleKey = \<lparr>tk_Object = ob, tk_Relation = relation, tk_User = user\<rparr>\<rparr> w2
           in (r, c2, w3))))"

text \<open>A field of the request that is not set is the empty string.\<close>

definition str_or_empty :: "string option \<Rightarrow> string" where
  "str_or_empty s = (case s of None \<Rightarrow> [] | Some x \<Rightarrow> x)"

definition Read ::
  "'c string_cache \<Rightarrow> 'w fga_service \<Rightarrow> string option \<Rightarrow> string option \<Rightarrow> string option \<Rightarrow> string \<Rightarrow> 'c \<times> 'w \<Rightarrow>
   (goerror + tuple_key list) \<times> 'c \<times> 'w" where
  "Read K S ob relation user tenantId st =
     (case StoreId K S tenantId st of
        (Inl err, st1) \<Rightarrow> (Inl err, st1)
      | (Inr storeId, c1, w1) \<Rightarrow>
          let tk = \<lparr>tk_Object = str_or_empty ob, tk_Relation = str_or_empty relation, tk_User = str_or_empty user\<rparr>;
              (r, w2) = svc_Read S \<lparr>rr_StoreId = storeId, rr_TupleKey = tk\<rparr> w1
          in (r, c1, w2))"

definition Exists ::
  "'c string_cache \<Rightarrow> 'w fga_service \<Rightarrow> tuple_key \<Rightarrow> string \<Rightarrow> 'c \<times> 'w \<Rightarrow> (goerror + bool) \<times> 'c \<times> 'w" where
  "Exists K S tuple tenantId st =
     (case Read K S (Some (tk_Object tuple)) (Some (tk_Relation tuple)) (Some (tk_User tuple)) tenantId st of
        (Inl err, st1) \<Rightarrow> (Inl err, st1)
      | (Inr tuples, st1) \<Rightarrow> if length tuples = 0 then (Inr False, st1) else (Inr True, st1))"

definition Writes ::
  "'c string_cache \<Rightarrow> 'w fga_service \<Rightarrow> tuple_key list option \<Rightarrow> tuple_key list option \<Rightarrow> string \<Rightarrow> 'c \<times> 'w \<Rightarrow>
   (bool \<times> goerror option) \<times> 'c \<times> 'w" where
  "Writes K S writes deletes tenantId st =
     (case StoreId K S tenantId st of
        (Inl err, st1) \<Rightarrow> ((False, Some err), st1)
      | (Inr storeId, st1) \<Rightarrow>
     (case ModelId K S tenantId st1 of
        (Inl err, st2) \<Rightarrow> ((False, Some err), st2)
      | (Inr modelId, c2, w2) \<Rightarrow>
          (case svc_Write S \<lparr>wr_StoreId = storeId, wr_ModelId = modelId, wr_Writes = writes, wr_Deletes = deletes\<rparr> w2 of
             (Some err, w3) \<Rightarrow> ((False, Some err), c2, w3)
           | (None, w3) \<Rightarrow> ((True, None), c2, w3))))"

definition Write where
  "Write K S ob relation user tenantId st =
     Writes K S (Some [\<lparr>tk_Object = ob, tk_Relation = relation, tk_User = user\<rparr>]) None tenantId st"

definition Delete where
  "Delete K S ob relation user tenantId st =
     Writes K S None (Some [\<lparr>tk_Object = ob, tk_Relation = relation, tk_User = user\<rparr>]) tenantId st"

text \<open>
  The loop of \<open>WriteIfNeeded\<close> (\<open>wanted\<close> false: collect what does not exist) and of \<open>DeleteIfNeeded\<close>
  (\<open>wanted\<close> true), over a function that says whether a tuple exists.
\<close>

fun collect_if :: "(tuple_key \<Rightarrow> 's \<Rightarrow> (goerror + bool) \<times> 's) \<Rightarrow> bool \<Rightarrow> tuple_key list \<Rightarrow> tuple_key list \<Rightarrow> 's \<Rightarrow>
    (goerror + tuple_key list) \<times> 's" where
  "collect_if ex wanted [] acc st = (Inr acc, st)"
| "collect_if ex wanted (t # ts) acc st =
     (case ex t st of
        (Inl err, st1) \<Rightarrow> (Inl err, st1)
      | (Inr e, st1) \<Rightarrow> collect_if ex wanted ts (if e = wanted then acc @ [t] else acc) st1)"

definition WriteIfNeeded ::
  "'c string_cache \<Rightarrow> 'w fga_service \<Rightarrow> tuple_key list \<Rightarrow> string \<Rightarrow> 'c \<times> 'w \<Rightarrow> goerror option \<times> 'c \<times> 'w" where
  "WriteIfNeeded K S tuples tenantId st =
     (case collect_if (\<lambda>t. Exists K S t tenantId) False tuples [] st of
        (Inl err, st1) \<Rightarrow> (Some err, st1)
      | (Inr tuplesToWrite, st1) \<Rightarrow>
          if length tuplesToWrite > 0 then
            (let ((_, err), st2) = Writes K S (Some tuplesToWrite) None tenantId st1 in (err, st2))
          else (None, st1))"

definition DeleteIfNeeded ::
  "'c string_cache \<Rightarrow> 'w fga_service \<Rightarrow> tuple_key list \<Rightarrow> string \<Rightarrow> 'c \<times> 'w \<Rightarrow> goerror option \<times> 'c \<times> 'w" where
  "DeleteIfNeeded K S tuples tenantId st =
     (case collect_if (\<lambda>t. Exists K S t tenantId) True tuples [] st of
        (Inl err, st1) \<Rightarrow> (Some err, st1)
      | (Inr tuplesToDelete, st1) \<Rightarrow>
          if length tuplesToDelete > 0 then
            (let ((_, err), st2) = Writes K S None (Some tuplesToDelete) tenantId st1 in (err, st2))
          else (None, st1))"

section \<open>The interface\<close>

text \<open>
  What the conditional writes rely on, in terms of the set of tuples of a tenant.  \<open>exists\<close> decides
  membership and changes nothing.  \<open>writes\<close> takes only a change that is \<open>acceptable\<close>: no tuple twice, no write of a
  tuple that is there, no delete of one that is not.  It makes the change as a whole or not at all; an
  error leaves open whether an acceptable change was made, because the answer may be lost.  \<open>avail\<close>
  says that the service can be reached, and then an acceptable change is made.
\<close>

definition given :: "'a list option \<Rightarrow> 'a list" where
  "given xs = (case xs of None \<Rightarrow> [] | Some ys \<Rightarrow> ys)"

lemma given_simps [simp]: "given None = []" "given (Some xs) = xs"
  by (simp_all add: given_def)

definition acceptable :: "tuple_key set \<Rightarrow> tuple_key list option \<Rightarrow> tuple_key list option \<Rightarrow> bool" where
  "acceptable present ws ds \<longleftrightarrow> distinct (given ws @ given ds) \<and> set (given ws) \<inter> present = {} \<and> set (given ds) \<subseteq> present"

definition changed :: "tuple_key set \<Rightarrow> tuple_key list option \<Rightarrow> tuple_key list option \<Rightarrow> tuple_key set" where
  "changed present ws ds = (present \<union> set (given ws)) - set (given ds)"

locale tuple_client =
  fixes exists :: "tuple_key \<Rightarrow> string \<Rightarrow> 's \<Rightarrow> (goerror + bool) \<times> 's"
    and writes :: "tuple_key list option \<Rightarrow> tuple_key list option \<Rightarrow> string \<Rightarrow> 's \<Rightarrow> (bool \<times> goerror option) \<times> 's"
    and tuples_of :: "'s \<Rightarrow> string \<Rightarrow> tuple_key set"
    and inv :: "'s \<Rightarrow> bool"
    and full :: "tuple_key \<Rightarrow> bool"
    and avail :: "string \<Rightarrow> 's \<Rightarrow> bool"
    and lawful :: bool
  assumes exists_spec: "lawful \<Longrightarrow> inv s \<Longrightarrow> full t \<Longrightarrow> exists t tenant s = (r, s') \<Longrightarrow>
      inv s' \<and> tuples_of s' tenant = tuples_of s tenant \<and> (\<forall>b. r = Inr b \<longrightarrow> b = (t \<in> tuples_of s tenant)) \<and>
      (avail tenant s \<longrightarrow> avail tenant s' \<and> (\<exists>b. r = Inr b))"
    and writes_spec: "lawful \<Longrightarrow> inv s \<Longrightarrow> writes ws ds tenant s = ((ok, err), s') \<Longrightarrow>
      (err = None \<longrightarrow> acceptable (tuples_of s tenant) ws ds \<and>
        tuples_of s' tenant = changed (tuples_of s tenant) ws ds) \<and>
      (err \<noteq> None \<longrightarrow> tuples_of s' tenant = tuples_of s tenant \<or>
        acceptable (tuples_of s tenant) ws ds \<and> tuples_of s' tenant = changed (tuples_of s tenant) ws ds) \<and>
      (avail tenant s \<and> acceptable (tuples_of s tenant) ws ds \<longrightarrow> err = None)"
begin

lemma collect_spec:
  "lawful \<Longrightarrow> inv s \<Longrightarrow> \<forall>t \<in> set ts. full t \<Longrightarrow>
   collect_if (\<lambda>t. exists t tenant) wanted ts acc s = (r, s') \<Longrightarrow>
   inv s' \<and> tuples_of s' tenant = tuples_of s tenant \<and>
   (\<forall>xs. r = Inr xs \<longrightarrow> xs = acc @ filter (\<lambda>t. (t \<in> tuples_of s tenant) = wanted) ts) \<and>
   (avail tenant s \<longrightarrow> avail tenant s' \<and> (\<exists>xs. r = Inr xs))"
proof (induction ts arbitrary: acc s)
  case (Cons t ts)
  obtain q s1 where e: "exists t tenant s = (q, s1)" by fastforce
  have f: "full t" using Cons.prems(3) by simp
  note x = exists_spec [OF Cons.prems(1,2) f e]
  show ?case
  proof (cases q)
    case (Inl err)
    with Cons.prems(4) e x show ?thesis by auto
  next
    case (Inr b)
    with Cons.prems(4) e have
      "collect_if (\<lambda>t. exists t tenant) wanted ts (if b = wanted then acc @ [t] else acc) s1 = (r, s')" by simp
    from Cons.IH [OF Cons.prems(1) _ _ this] x Cons.prems(3) Inr show ?thesis by (auto split: if_splits)
  qed
qed auto

text \<open>Collecting and then writing, for both directions; nothing is sent when nothing was collected.\<close>

lemma conditional_spec:
  assumes "lawful" "inv s" "\<forall>t \<in> set ts. full t"
    and c: "collect_if (\<lambda>t. exists t tenant) wanted ts [] s = (Inr xs, s1)"
    and w: "writes ws ds tenant s1 = ((ok, err), s')"
    and dir: "\<not> wanted \<and> ws = Some xs \<and> ds = None \<or> wanted \<and> ws = None \<and> ds = Some xs"
    and res: "res = (if wanted then tuples_of s tenant - set ts else tuples_of s tenant \<union> set ts)"
  shows "(err = None \<longrightarrow> tuples_of s' tenant = res) \<and>
    (err \<noteq> None \<longrightarrow> tuples_of s' tenant = tuples_of s tenant \<or> tuples_of s' tenant = res) \<and>
    (avail tenant s \<and> distinct ts \<longrightarrow> err = None) \<and> (xs = [] \<longrightarrow> tuples_of s1 tenant = res)"
proof -
  from collect_spec [OF assms(1-4)] have k: "inv s1" "tuples_of s1 tenant = tuples_of s tenant"
    "xs = filter (\<lambda>t. (t \<in> tuples_of s tenant) = wanted) ts" "avail tenant s \<longrightarrow> avail tenant s1" by auto
  have r: "changed (tuples_of s tenant) ws ds = res" using dir res k(3) by (auto simp: changed_def)
  have a: "acceptable (tuples_of s tenant) ws ds" if "distinct ts"
    using dir k(3) that by (auto simp: acceptable_def)
  have "changed (tuples_of s tenant) ws ds = tuples_of s tenant" if "xs = []"
    using dir that by (auto simp: changed_def)
  with writes_spec [OF assms(1) k(1) w] k r a show ?thesis by auto
qed

end

section \<open>The service as a set of tuples\<close>

text \<open>
  The documented behaviour of the service, on \<open>content\<close>, the tuples of a store: lookups change
  nothing; a read with all three fields set finds exactly the tuple itself; a write is a transaction.
\<close>

definition full_key :: "tuple_key \<Rightarrow> bool" where
  "full_key t \<longleftrightarrow> tk_Object t \<noteq> [] \<and> tk_Relation t \<noteq> [] \<and> tk_User t \<noteq> []"

definition tuple_laws :: "'w fga_service \<Rightarrow> ('w \<Rightarrow> string \<Rightarrow> tuple_key set) \<Rightarrow> bool" where
  "tuple_laws S content \<longleftrightarrow>
     (\<forall>w r w'. ListStores S w = (r, w') \<longrightarrow> content w' = content w) \<and>
     (\<forall>sid w r w'. ReadAuthorizationModels S sid w = (r, w') \<longrightarrow> content w' = content w) \<and>
     (\<forall>q w r w'. svc_Read S q w = (r, w') \<longrightarrow> content w' = content w \<and>
        (\<forall>xs. full_key (rr_TupleKey q) \<and> r = Inr xs \<longrightarrow> (xs \<noteq> []) = (rr_TupleKey q \<in> content w (rr_StoreId q)))) \<and>
     (\<forall>q w err w'. svc_Write S q w = (err, w') \<longrightarrow>
        (let present = content w (wr_StoreId q);
             committed = acceptable present (wr_Writes q) (wr_Deletes q) \<and>
               content w' = (content w)(wr_StoreId q := changed present (wr_Writes q) (wr_Deletes q))
         in if err = None then committed else content w' = content w \<or> committed))"

text \<open>
  The service can be reached for a tenant and stays so: it lists a store of the tenant's name and a model of
  the store, answers reads, and makes every acceptable change to this store.
\<close>

definition up_laws ::
  "'w fga_service \<Rightarrow> directory \<Rightarrow> ('w \<Rightarrow> string \<Rightarrow> tuple_key set) \<Rightarrow> (string \<Rightarrow> string) \<Rightarrow> (string \<Rightarrow> 'w \<Rightarrow> bool) \<Rightarrow> bool" where
  "up_laws S d content sid up \<longleftrightarrow> (\<forall>tenant w. up tenant w \<longrightarrow>
     (\<exists>ss w'. ListStores S w = (Inr ss, w') \<and> up tenant w' \<and> ''tenant-'' @ tenant \<in> store_Name ` set ss) \<and>
     (\<exists>m ms w'. ReadAuthorizationModels S (sid tenant) w = (Inr (m # ms), w') \<and> up tenant w') \<and>
     (\<forall>q. rr_StoreId q = sid tenant \<longrightarrow> (\<exists>xs w'. svc_Read S q w = (Inr xs, w') \<and> up tenant w')) \<and>
     (\<forall>q. wr_StoreId q = sid tenant \<and> wr_ModelId q \<in> snd d (sid tenant) \<and>
        acceptable (content w (sid tenant)) (wr_Writes q) (wr_Deletes q) \<longrightarrow> fst (svc_Write S q w) = None))"

text \<open>Every tenant has one store, \<open>sid\<close>.\<close>

definition one_store :: "directory \<Rightarrow> (string \<Rightarrow> string) \<Rightarrow> bool" where
  "one_store d sid \<longleftrightarrow> (\<forall>t i. store_valid d (''tenant-'' @ t) i \<longrightarrow> i = sid t)"

definition client_laws where
  "client_laws K S d content sid up \<longleftrightarrow>
     cache_laws K \<and> service_laws S d \<and> tuple_laws S content \<and> one_store d sid \<and> up_laws S d content sid up"

lemma tuple_lawsD:
  assumes "tuple_laws S content"
  shows "ListStores S w = (r, w') \<Longrightarrow> content w' = content w"
    "ReadAuthorizationModels S i w = (m, w') \<Longrightarrow> content w' = content w"
    "svc_Read S q w = (x, w') \<Longrightarrow> content w' = content w"
    "svc_Read S q w = (Inr xs, w') \<Longrightarrow> full_key (rr_TupleKey q) \<Longrightarrow> (xs \<noteq> []) = (rr_TupleKey q \<in> content w (rr_StoreId q))"
    "svc_Write S u w = (err, w') \<Longrightarrow> err \<noteq> None \<and> content w' = content w \<or>
      acceptable (content w (wr_StoreId u)) (wr_Writes u) (wr_Deletes u) \<and>
      content w' = (content w)(wr_StoreId u := changed (content w (wr_StoreId u)) (wr_Writes u) (wr_Deletes u))"
  using assms unfolding tuple_laws_def by (metis)+

lemma up_lawsD:
  assumes "up_laws S d content sid up" and "up tenant w"
  shows "\<exists>ss w'. ListStores S w = (Inr ss, w') \<and> up tenant w' \<and> ''tenant-'' @ tenant \<in> store_Name ` set ss"
    "\<exists>m ms w'. ReadAuthorizationModels S (sid tenant) w = (Inr (m # ms), w') \<and> up tenant w'"
    "rr_StoreId q = sid tenant \<Longrightarrow> \<exists>xs w'. svc_Read S q w = (Inr xs, w') \<and> up tenant w'"
    "wr_StoreId u = sid tenant \<Longrightarrow> wr_ModelId u \<in> snd d (sid tenant) \<Longrightarrow>
      acceptable (content w (sid tenant)) (wr_Writes u) (wr_Deletes u) \<Longrightarrow> fst (svc_Write S u w) = None"
  using assms unfolding up_laws_def by blast+

lemma find_store_found: "n \<in> store_Name ` set ss \<Longrightarrow> \<exists>i. find_store n ss = Some i"
  by (induction ss) auto

lemma StoreId_up:
  assumes "up_laws S d content sid up" and "up tenant (snd st)" and "StoreId K S tenant st = (r, st')"
  shows "up tenant (snd st') \<and> (\<exists>i. r = Inr i)"
proof -
  obtain ss w' where l: "ListStores S (snd st) = (Inr ss, w')" "up tenant w'" "''tenant-'' @ tenant \<in> store_Name ` set ss"
    using up_lawsD(1) [OF assms(1,2)] by blast
  from find_store_found [OF l(3)] obtain i where "find_store (''tenant-'' @ tenant) ss = Some i" by blast
  with assms(2,3) l(1,2) show ?thesis
    by (auto simp: StoreId_def Let_def split: prod.splits option.splits)
qed

lemma ModelId_up:
  assumes l: "cache_laws K" "service_laws S d" "one_store d sid" "up_laws S d content sid up" and ok: "client_ok K d st"
    and "up tenant (snd st)" and "ModelId K S tenant st = (r, st')"
  shows "up tenant (snd st') \<and> (\<exists>i. r = Inr i)"
proof -
  obtain q c1 where g: "cache_Get K (cacheKeyForModel tenant) (fst st) = (q, c1)" by fastforce
  show ?thesis
  proof (cases q)
    case None
    obtain x c2 w2 where s: "StoreId K S tenant (c1, snd st) = (x, c2, w2)" by (metis surj_pair)
    from StoreId_up [OF l(4) _ s] assms(6) obtain i where i: "x = Inr i" "up tenant w2" by auto
    have "client_ok K d (c1, snd st)" using cache_lawsD(1) [OF l(1) g] ok by (auto simp: entries_ok_def)
    from StoreId_sound [OF l(1,2) this s] i(1) l(3) have "i = sid tenant" by (auto simp: one_store_def)
    with up_lawsD(2) [OF l(4) i(2)] obtain m ms w' where
      "ReadAuthorizationModels S i w2 = (Inr (m # ms), w')" "up tenant w'" by blast
    with assms(7) g None s i(1) show ?thesis by (auto simp: ModelId_def)
  qed (use assms(6,7) g in \<open>auto simp: ModelId_def\<close>)
qed

lemma StoreId_content:
  assumes "tuple_laws S content" "StoreId K S t st = (r, st')"
  shows "content (snd st') = content (snd st)"
  using assms(2) tuple_lawsD(1) [OF assms(1)]
  by (auto simp: StoreId_def Let_def split: prod.splits sum.splits option.splits)

lemma ModelId_content:
  assumes "tuple_laws S content" "ModelId K S t st = (r, st')"
  shows "content (snd st') = content (snd st)"
proof -
  obtain q c1 where g: "cache_Get K (cacheKeyForModel t) (fst st) = (q, c1)" by fastforce
  obtain x c2 w2 where s: "StoreId K S t (c1, snd st) = (x, c2, w2)" by (metis surj_pair)
  from StoreId_content [OF assms(1) s] have "content w2 = content (snd st)" by simp
  with assms(2) g s tuple_lawsD(2) [OF assms(1)] show ?thesis
    by (cases q; cases x) (auto simp: ModelId_def split: prod.splits sum.splits list.splits)
qed

lemma tuple_eta: "\<lparr>tk_Object = tk_Object t, tk_Relation = tk_Relation t, tk_User = tk_User t\<rparr> = t"
  by (cases t) simp

lemma Exists_spec:
  assumes l: "client_laws K S d content sid up" and ok: "client_ok K d st" and f: "full_key t"
    and run: "Exists K S t tenant st = (r, st')"
  shows "client_ok K d st' \<and> content (snd st') = content (snd st) \<and>
    (\<forall>b. r = Inr b \<longrightarrow> b = (t \<in> content (snd st) (sid tenant))) \<and>
    (up tenant (snd st) \<longrightarrow> up tenant (snd st') \<and> (\<exists>b. r = Inr b))"
proof -
  from l have K: "cache_laws K" "service_laws S d" and T: "tuple_laws S content" and one: "one_store d sid"
    and U: "up_laws S d content sid up" by (auto simp: client_laws_def)
  obtain x c1 w1 where s: "StoreId K S tenant st = (x, c1, w1)" by (metis surj_pair)
  note ss = StoreId_sound [OF K ok s] and sc = StoreId_content [OF T s] and su = StoreId_up [OF U _ s]
  show ?thesis
  proof (cases x)
    case (Inl err)
    with run s ss sc su show ?thesis by (auto simp: Exists_def Read_def)
  next
    case (Inr i)
    with ss one have i: "i = sid tenant" by (auto simp: one_store_def)
    let ?q = "\<lparr>rr_StoreId = i, rr_TupleKey = t\<rparr>"
    obtain y w2 where q: "svc_Read S ?q w1 = (y, w2)" by fastforce
    have "Read K S (Some (tk_Object t)) (Some (tk_Relation t)) (Some (tk_User t)) tenant st = (y, c1, w2)"
      using s Inr q by (simp add: Read_def str_or_empty_def tuple_eta)
    with run have r: "r = map_sum id (\<lambda>xs. xs \<noteq> []) y" "st' = (c1, w2)"
      by (cases y; auto simp: Exists_def split: if_splits)+
    have "up tenant w2 \<and> (\<exists>xs. y = Inr xs)" if "up tenant (snd st)"
      using up_lawsD(3) [OF U, of tenant w1 ?q] su [OF that] q i by auto
    with r tuple_lawsD(3) [OF T q] tuple_lawsD(4) [OF T, of ?q w1 _ w2] q ss sc f i show ?thesis
      by (cases y) auto
  qed
qed

lemma Writes_spec:
  assumes l: "client_laws K S d content sid up" and ok: "client_ok K d st"
    and run: "Writes K S ws ds tenant st = ((b, err), st')"
  defines "present \<equiv> content (snd st) (sid tenant)"
  shows "(err \<noteq> None \<and> content (snd st') = content (snd st) \<or>
      acceptable present ws ds \<and> content (snd st') = (content (snd st))(sid tenant := changed present ws ds)) \<and>
    (up tenant (snd st) \<and> acceptable present ws ds \<longrightarrow> err = None)"
proof -
  from l have K: "cache_laws K" "service_laws S d" and T: "tuple_laws S content" and one: "one_store d sid"
    and U: "up_laws S d content sid up" by (auto simp: client_laws_def)
  obtain x c1 w1 where s: "StoreId K S tenant st = (x, c1, w1)" by (metis surj_pair)
  note ss = StoreId_sound [OF K ok s] and sc = StoreId_content [OF T s] and su = StoreId_up [OF U _ s]
  obtain y c2 w2 where m: "ModelId K S tenant (c1, w1) = (y, c2, w2)" by (metis surj_pair)
  have ok1: "client_ok K d (c1, w1)" using ss by simp
  note ms = ModelId_sound [OF K ok1 m] and mc = ModelId_content [OF T m] and mu = ModelId_up [OF K one U ok1 _ m]
  have upm: "up tenant w2 \<and> (\<exists>i. x = Inr i) \<and> (\<exists>j. y = Inr j)" if "up tenant (snd st)"
    using su [OF that] mu by simp
  show ?thesis
  proof (cases "\<exists>i j. x = Inr i \<and> y = Inr j")
    case False
    then have "\<not> up tenant (snd st)" using upm by blast
    with False run s m ss sc ms mc show ?thesis
      by (cases x; cases y) (auto simp: Writes_def)
  next
    case True
    then obtain i j where x: "x = Inr i" "y = Inr j" by blast
    with ss one have i: "i = sid tenant" by (auto simp: one_store_def)
    have j: "j \<in> snd d (sid tenant)" using ms x(2) one by (auto simp: model_valid_def one_store_def store_valid_def)
    let ?q = "\<lparr>wr_StoreId = i, wr_ModelId = j, wr_Writes = ws, wr_Deletes = ds\<rparr>"
    obtain e w3 where q: "svc_Write S ?q w2 = (e, w3)" by fastforce
    have e: "err = e \<and> st' = (c2, w3)"
      using run s m x q by (auto simp: Writes_def split: option.splits)
    have h: "content w2 = content (snd st)" using mc sc by simp
    have "e = None" if "up tenant (snd st)" "acceptable present ws ds"
      using up_lawsD(4) [OF U, of tenant w2 ?q] upm [OF that(1)] that(2) q i j h by (simp add: present_def)
    then show ?thesis
      using tuple_lawsD(5) [OF T q] e i h by (auto simp: present_def)
  qed
qed

interpretation fgac: tuple_client "Exists K S" "Writes K S" "\<lambda>st tenant. content (snd st) (sid tenant)"
    "client_ok K d" full_key "\<lambda>tenant st. up tenant (snd st)" "client_laws K S d content sid up"
    for K :: "'c string_cache" and S :: "'w fga_service" and d content sid up
proof unfold_locales
  fix s s' :: "'c \<times> 'w" and t r tenant
  assume l: "client_laws K S d content sid up" and ok: "client_ok K d s"
  show "client_ok K d s' \<and> content (snd s') (sid tenant) = content (snd s) (sid tenant) \<and>
      (\<forall>b. r = Inr b \<longrightarrow> b = (t \<in> content (snd s) (sid tenant))) \<and>
      (up tenant (snd s) \<longrightarrow> up tenant (snd s') \<and> (\<exists>b. r = Inr b))"
    if "full_key t" "Exists K S t tenant s = (r, s')"
    using Exists_spec [OF l ok that] by simp
next
  fix s s' :: "'c \<times> 'w" and ws ds tenant ok err
  let ?h = "content (snd s) (sid tenant)" and ?h' = "content (snd s') (sid tenant)"
  assume l: "client_laws K S d content sid up" and inv: "client_ok K d s" and w: "Writes K S ws ds tenant s = ((ok, err), s')"
  from Writes_spec [OF l inv w] show "(err = None \<longrightarrow> acceptable ?h ws ds \<and> ?h' = changed ?h ws ds) \<and>
      (err \<noteq> None \<longrightarrow> ?h' = ?h \<or> acceptable ?h ws ds \<and> ?h' = changed ?h ws ds) \<and>
      (up tenant (snd s) \<and> acceptable ?h ws ds \<longrightarrow> err = None)"
    by auto
qed

section \<open>Properties\<close>

text \<open>
  C21.  \<open>WriteIfNeeded\<close> of fully given tuples, against a service that refuses to write a tuple it has: without
  an error the tenant's store then holds what it held before and the given tuples; with an error that
  set or, unless the failed request was committed after all, what it held before.  When the service can be reached and no tuple is given
  twice there is no error, also when some of the tuples exist already.
\<close>

theorem WriteIfNeeded_spec:
  assumes "client_laws K S d content sid up" and "client_ok K d st" and "\<forall>t \<in> set ts. full_key t"
    and "WriteIfNeeded K S ts tenant st = (err, st')"
  shows "(err = None \<longrightarrow> content (snd st') (sid tenant) = content (snd st) (sid tenant) \<union> set ts) \<and>
    (err \<noteq> None \<longrightarrow> content (snd st') (sid tenant) = content (snd st) (sid tenant) \<or>
      content (snd st') (sid tenant) = content (snd st) (sid tenant) \<union> set ts) \<and>
    (up tenant (snd st) \<and> distinct ts \<longrightarrow> err = None)"
proof -
  obtain r s1 where c: "collect_if (\<lambda>t. Exists K S t tenant) False ts [] st = (r, s1)" by (metis surj_pair)
  note k = fgac.collect_spec [OF assms(1-3) c]
  show ?thesis
  proof (cases r)
    case (Inl e)
    with assms(4) c k show ?thesis by (auto simp: WriteIfNeeded_def)
  next
    case (Inr xs)
    obtain ok e s2 where w: "Writes K S (Some xs) None tenant s1 = ((ok, e), s2)" by (metis surj_pair)
    note f = fgac.conditional_spec [OF assms(1-3) c [unfolded Inr] w _ refl]
    from assms(4) c Inr w have "if xs = [] then err = None \<and> st' = s1 else err = e \<and> st' = s2"
      by (auto simp: WriteIfNeeded_def)
    with f show ?thesis by (auto split: if_splits)
  qed
qed

text \<open>
  C22.  \<open>DeleteIfNeeded\<close> of fully given tuples, against a service that refuses to delete a tuple it does not
  have: without an error the tenant's store then holds what it held before but the given tuples; with an
  error that set or, unless the failed request was committed after all, what it held before.  When the service can be reached
  and no tuple is given twice there is no error, also when some of the tuples do not exist.
\<close>

theorem DeleteIfNeeded_spec:
  assumes "client_laws K S d content sid up" and "client_ok K d st" and "\<forall>t \<in> set ts. full_key t"
    and "DeleteIfNeeded K S ts tenant st = (err, st')"
  shows "(err = None \<longrightarrow> content (snd st') (sid tenant) = content (snd st) (sid tenant) - set ts) \<and>
    (err \<noteq> None \<longrightarrow> content (snd st') (sid tenant) = content (snd st) (sid tenant) \<or>
      content (snd st') (sid tenant) = content (snd st) (sid tenant) - set ts) \<and>
    (up tenant (snd st) \<and> distinct ts \<longrightarrow> err = None)"
proof -
  obtain r s1 where c: "collect_if (\<lambda>t. Exists K S t tenant) True ts [] st = (r, s1)" by (metis surj_pair)
  note k = fgac.collect_spec [OF assms(1-3) c]
  show ?thesis
  proof (cases r)
    case (Inl e)
    with assms(4) c k show ?thesis by (auto simp: DeleteIfNeeded_def)
  next
    case (Inr xs)
    obtain ok e s2 where w: "Writes K S None (Some xs) tenant s1 = ((ok, e), s2)" by (metis surj_pair)
    note f = fgac.conditional_spec [OF assms(1-3) c [unfolded Inr] w _ refl]
    from assms(4) c Inr w have "if xs = [] then err = None \<and> st' = s1 else err = e \<and> st' = s2"
      by (auto simp: DeleteIfNeeded_def)
    with f show ?thesis by (auto split: if_splits)
  qed
qed

text \<open>
  A check asks for the caller's tenant: the request that \<open>Check\<close> sends carries a store of this
  tenant and a model of such a store, and exactly the object, relation and user it was given; when
  the store or the model cannot be found there is no request and the result is an error.
\<close>

theorem Check_request:
  assumes "cache_laws K" and "service_laws S d" and "client_ok K d st"
    and "Check K S ob relation user tenant st = (r, st')"
  shows "(\<exists>e. r = Inl e) \<or>
    (\<exists>i j w. store_valid d (''tenant-'' @ tenant) i \<and> model_valid d (''tenant-'' @ tenant) j \<and>
       r = fst (svc_Check S \<lparr>cr_StoreId = i, cr_ModelId = j,
         cr_TupleKey = \<lparr>tk_Object = ob, tk_Relation = relation, tk_User = user\<rparr>\<rparr> w))"
proof -
  obtain x c1 w1 where s: "StoreId K S tenant st = (x, c1, w1)" by (metis surj_pair)
  note ss = StoreId_sound [OF assms(1-3) s]
  obtain y c2 w2 where m: "ModelId K S tenant (c1, w1) = (y, c2, w2)" by (metis surj_pair)
  have "client_ok K d (c1, w1)" using ss by simp
  note ms = ModelId_sound [OF assms(1,2) this m]
  show ?thesis
  proof (cases "\<exists>i j. x = Inr i \<and> y = Inr j")
    case False
    with assms(4) s m show ?thesis by (cases x; cases y) (auto simp: Check_def)
  next
    case True
    then obtain i j where x: "x = Inr i" "y = Inr j" by blast
    with assms(4) s m have "r = fst (svc_Check S \<lparr>cr_StoreId = i, cr_ModelId = j,
         cr_TupleKey = \<lparr>tk_Object = ob, tk_Relation = relation, tk_User = user\<rparr>\<rparr> w2)"
      by (auto simp: Check_def split: prod.splits)
    with x ss ms show ?thesis by blast
  qed
qed

section \<open>A concrete service\<close>

text \<open>One tenant \<open>a\<close> with store \<open>s1\<close>; the world is the list of its tuples.\<close>

definition list_service :: "tuple_key list fga_service" where
  "list_service = \<lparr>ListStores = (\<lambda>w. (Inr [\<lparr>store_Id = ''s1'', store_Name = ''tenant-a''\<rparr>], w)),
     ReadAuthorizationModels = (\<lambda>sid w. (Inr [''m1''], w)),
     svc_Check = (\<lambda>q w. (Inr (cr_TupleKey q \<in> set w), w)),
     svc_Read = (\<lambda>q w. (Inr (if rr_StoreId q = ''s1'' then filter (\<lambda>t. t = rr_TupleKey q) w else []), w)),
     svc_Write = (\<lambda>q w. if wr_StoreId q \<noteq> ''s1'' then (Some (ErrorString ''no such store''), w)
       else if \<not> acceptable (set w) (wr_Writes q) (wr_Deletes q) then (Some (ErrorString ''invalid write''), w)
       else (None, filter (\<lambda>t. t \<notin> set (given (wr_Deletes q))) (w @ given (wr_Writes q))))\<rparr>"

definition list_content :: "tuple_key list \<Rightarrow> string \<Rightarrow> tuple_key set" where
  "list_content w i = (if i = ''s1'' then set w else {})"

definition list_directory :: directory where
  "list_directory = ({(''tenant-a'', ''s1'')}, \<lambda>_. {''m1''})"

lemma list_laws: "client_laws map_cache list_service list_directory list_content (\<lambda>_. ''s1'') (\<lambda>tenant w. tenant = ''a'')"
proof -
  have "service_laws list_service list_directory"
    by (auto simp: service_laws_def list_service_def list_directory_def)
  moreover have "one_store list_directory (\<lambda>_. ''s1'')"
    by (simp add: one_store_def store_valid_def list_directory_def)
  moreover have "tuple_laws list_service list_content"
    unfolding tuple_laws_def
    by (intro conjI allI impI)
      (auto simp: list_service_def list_content_def changed_def filter_empty_conv fun_eq_iff Let_def split: if_splits)
  moreover have "up_laws list_service list_directory list_content (\<lambda>_. ''s1'') (\<lambda>tenant w. tenant = ''a'')"
    by (auto simp: up_laws_def list_service_def list_content_def)
  ultimately show ?thesis using map_cache_laws by (simp add: client_laws_def)
qed

lemma empty_ok: "client_ok map_cache d (Map.empty, w)"
  by (simp add: entries_ok_def map_cache_def)

definition tup :: "string \<Rightarrow> tuple_key" where
  "tup u = \<lparr>tk_Object = ''doc:1'', tk_Relation = ''owner'', tk_User = u\<rparr>"

lemmas client_defs = WriteIfNeeded_def DeleteIfNeeded_def Exists_def Read_def Writes_def Check_def str_or_empty_def
  list_service_def acceptable_def tup_def store_defs

theorem WriteIfNeeded_spec_witness:
  "list_content (snd (snd (WriteIfNeeded map_cache list_service [tup ''u'', tup ''v''] ''a'' (Map.empty, [tup ''u''])))) ''s1'' =
     {tup ''u'', tup ''v''}"
proof -
  let ?r = "WriteIfNeeded map_cache list_service [tup ''u'', tup ''v''] ''a'' (Map.empty, [tup ''u''])"
  have "fst ?r = None" by (simp add: client_defs)
  then have r: "?r = (None, snd ?r)" by (metis prod.collapse)
  have "\<forall>t \<in> set [tup ''u'', tup ''v'']. full_key t" by (simp add: full_key_def tup_def)
  from WriteIfNeeded_spec [OF list_laws empty_ok this r] show ?thesis by (auto simp: list_content_def)
qed

theorem DeleteIfNeeded_spec_witness:
  "list_content (snd (snd (DeleteIfNeeded map_cache list_service [tup ''u'', tup ''v''] ''a'' (Map.empty, [tup ''u'', tup ''x''])))) ''s1'' =
     {tup ''x''}"
proof -
  let ?r = "DeleteIfNeeded map_cache list_service [tup ''u'', tup ''v''] ''a'' (Map.empty, [tup ''u'', tup ''x''])"
  have "fst ?r = None" by (simp add: client_defs)
  then have r: "?r = (None, snd ?r)" by (metis prod.collapse)
  have "\<forall>t \<in> set [tup ''u'', tup ''v'']. full_key t" by (simp add: full_key_def tup_def)
  from DeleteIfNeeded_spec [OF list_laws empty_ok this r] show ?thesis by (auto simp: list_content_def tup_def)
qed

theorem Check_request_witness:
  "\<exists>i j w. store_valid list_directory ''tenant-a'' i \<and> model_valid list_directory ''tenant-a'' j \<and>
     Inr True = fst (svc_Check list_service \<lparr>cr_StoreId = i, cr_ModelId = j, cr_TupleKey = tup ''u''\<rparr> w)"
proof -
  let ?r = "Check map_cache list_service ''doc:1'' ''owner'' ''u'' ''a'' (Map.empty, [tup ''u''])"
  have f: "fst ?r = Inr True" by (simp add: client_defs)
  obtain st' where "?r = (Inr True, st')" using f by (metis prod.collapse)
  from list_laws have "service_laws list_service list_directory" by (simp add: client_laws_def)
  from Check_request [OF map_cache_laws this empty_ok \<open>?r = (Inr True, st')\<close>] show ?thesis
    by (auto simp: tup_def)
qed

end
