(* ===== verification/Fga_Test_Server.thy ===== *)
theory Fga_Test_Server
  imports Fga_Client
begin

text \<open>
  Setting up the OpenFGA server for tests, \<open>test/openfga.go\<close>.  The server itself, with its store in memory,
  and the parser of the model language are parameters; \<open>Start\<close> and \<open>Stop\<close> are in the theory
  \<open>Fga_Test_Run\<close>.
\<close>

section \<open>Configuration\<close>

record server_config =
  sc_storeName :: string
  sc_tuples :: "tuple_key list"
  sc_authorizationModel :: string

type_synonym TestServerOption = "server_config \<Rightarrow> server_config"

definition WithStoreName :: "string \<Rightarrow> TestServerOption" where
  "WithStoreName storeName c = c\<lparr>sc_storeName := storeName\<rparr>"

definition WithAuthorizationModel :: "string \<Rightarrow> TestServerOption" where
  "WithAuthorizationModel authorizationModel c = c\<lparr>sc_authorizationModel := authorizationModel\<rparr>"

definition WithTuples :: "tuple_key list \<Rightarrow> TestServerOption" where
  "WithTuples tuples c = c\<lparr>sc_tuples := tuples\<rparr>"

section \<open>Setting up\<close>

text \<open>
  The last two fields are \<open>status.FromError\<close> and OpenFGA's code for a write that fails because of its
  input.
\<close>

record ('m, 'w) fga_server =
  CreateStore :: "string \<Rightarrow> 'w \<Rightarrow> (goerror + string) \<times> 'w"
  TransformDSL :: "string \<Rightarrow> goerror + 'm"
  WriteAuthorizationModel :: "string \<Rightarrow> 'm \<Rightarrow> 'w \<Rightarrow> (goerror + string) \<times> 'w"
  srv_Write :: "write_request \<Rightarrow> 'w \<Rightarrow> goerror option \<times> 'w"
  srv_FromError :: "goerror \<Rightarrow> int option"
  srv_write_failed :: int

definition tuple_write :: "string \<Rightarrow> string \<Rightarrow> tuple_key \<Rightarrow> write_request" where
  "tuple_write sid mid t = \<lparr>wr_StoreId = sid, wr_ModelId = mid, wr_Writes = Some [t], wr_Deletes = None\<rparr>"

text \<open>The loop over the tuples: a duplicate is passed over.\<close>

fun write_tuples :: "('m, 'w) fga_server \<Rightarrow> string \<Rightarrow> string \<Rightarrow> tuple_key list \<Rightarrow> 'w \<Rightarrow> goerror option \<times> 'w" where
  "write_tuples V sid mid [] w = (None, w)"
| "write_tuples V sid mid (t # ts) w =
     (let (err, w1) = srv_Write V (tuple_write sid mid t) w
      in if IsDuplicateWriteError (srv_FromError V) (srv_write_failed V) err then write_tuples V sid mid ts w1
         else if err \<noteq> None then (err, w1)
         else write_tuples V sid mid ts w1)"

text \<open>The new server is given by the ids of its store and model.\<close>

definition NewOpenFGATestServer ::
  "('m, 'w) fga_server \<Rightarrow> TestServerOption list \<Rightarrow> 'w \<Rightarrow> (goerror + string \<times> string) \<times> 'w" where
  "NewOpenFGATestServer V opts w =
     (let cfg = fold (\<lambda>opt c. opt c) opts
            \<lparr>sc_storeName = ''test'', sc_tuples = [], sc_authorizationModel = ''type user''\<rparr>
      in
     (case CreateStore V (sc_storeName cfg) w of
        (Inl err, w1) \<Rightarrow> (Inl err, w1)
      | (Inr store, w1) \<Rightarrow>
     (case TransformDSL V (sc_authorizationModel cfg) of
        Inl err \<Rightarrow> (Inl err, w1)
      | Inr parsedModel \<Rightarrow>
     (case WriteAuthorizationModel V store parsedModel w1 of
        (Inl err, w2) \<Rightarrow> (Inl err, w2)
      | (Inr authzModel, w2) \<Rightarrow>
     (case write_tuples V store authzModel (sc_tuples cfg) w2 of
        (Some err, w3) \<Rightarrow> (Inl err, w3)
      | (None, w3) \<Rightarrow> (Inr (store, authzModel), w3))))))"

section \<open>Properties\<close>

text \<open>
  The documented behaviour of the server: a new store is empty, a model leaves the tuples alone, a write
  is a transaction; \<open>content\<close> gives the tuples of a store.
\<close>

definition server_laws :: "('m, 'w) fga_server \<Rightarrow> ('w \<Rightarrow> string \<Rightarrow> tuple_key set) \<Rightarrow> bool" where
  "server_laws V content \<longleftrightarrow>
     (\<forall>n w i w1. CreateStore V n w = (Inr i, w1) \<longrightarrow> content w1 i = {}) \<and>
     (\<forall>i m w r w1. WriteAuthorizationModel V i m w = (r, w1) \<longrightarrow> content w1 = content w) \<and>
     (\<forall>i m t w w1. srv_Write V (tuple_write i m t) w = (None, w1) \<longrightarrow>
        content w1 i = insert t (content w i)) \<and>
     (\<forall>q w e w1. srv_Write V q w = (Some e, w1) \<longrightarrow> content w1 = content w)"

text \<open>A tuple whose write the server refuses with the code that is taken for a duplicate.\<close>

definition refused :: "('m, 'w) fga_server \<Rightarrow> string \<Rightarrow> string \<Rightarrow> tuple_key \<Rightarrow> bool" where
  "refused V i m t \<longleftrightarrow> (\<exists>w. IsDuplicateWriteError (srv_FromError V) (srv_write_failed V) (fst (srv_Write V (tuple_write i m t) w)))"

lemma write_tuples_content:
  assumes "server_laws V content"
  shows "write_tuples V i m ts w = (None, w1) \<Longrightarrow>
    content w i \<subseteq> content w1 i \<and> content w1 i \<subseteq> content w i \<union> set ts \<and> (\<forall>t \<in> set ts. t \<in> content w1 i \<or> refused V i m t)"
proof (induction ts arbitrary: w)
  case (Cons t ts)
  obtain err w2 where s: "srv_Write V (tuple_write i m t) w = (err, w2)" by fastforce
  show ?case
  proof (cases "IsDuplicateWriteError (srv_FromError V) (srv_write_failed V) err")
    case True
    then have "refused V i m t" using s unfolding refused_def by (metis fst_conv)
    moreover have "content w2 = content w" using True s assms
      by (cases err) (auto simp: IsDuplicateWriteError_def server_laws_def)
    ultimately show ?thesis using Cons.IH [of w2] Cons.prems s True by auto
  next
    case False
    with Cons.prems s have "err = None" "write_tuples V i m ts w2 = (None, w1)" by (auto split: if_splits)
    moreover from this s assms have "content w2 i = insert t (content w i)" by (simp add: server_laws_def)
    ultimately show ?thesis using Cons.IH [of w2] by auto
  qed
qed simp

text \<open>
  What the test server holds: when it is set up without an error, its store has none but the given
  tuples, and each of them unless the server has refused it with the code for invalid input.  That code is
  not kept for duplicates: a tuple that does not fit the model is left out without an error.
\<close>

theorem NewOpenFGATestServer_content:
  assumes "server_laws V content"
    and "NewOpenFGATestServer V (opts @ [WithTuples ts]) w = (Inr (i, m), w1)"
  shows "content w1 i \<subseteq> set ts \<and> (\<forall>t \<in> set ts. t \<in> content w1 i \<or> refused V i m t)"
proof -
  have cfg: "sc_tuples (fold (\<lambda>opt c. opt c) (opts @ [WithTuples ts]) c) = ts" for c
    by (simp add: WithTuples_def)
  from assms(2) obtain n w2 p w3 where
    c: "CreateStore V n w = (Inr i, w2)" "WriteAuthorizationModel V i p w2 = (Inr m, w3)"
      "write_tuples V i m ts w3 = (None, w1)"
    by (auto simp: NewOpenFGATestServer_def cfg Let_def split: prod.splits sum.splits option.splits
        simp del: fold_append)
  then have "content w3 i = {}" using assms(1) unfolding server_laws_def by metis
  with write_tuples_content [OF assms(1) c(3)] show ?thesis by auto
qed

definition memory_server :: "(string, (string \<times> tuple_key) list) fga_server" where
  "memory_server = \<lparr>CreateStore = (\<lambda>n w. (Inr ''s1'', filter (\<lambda>p. fst p \<noteq> ''s1'') w)),
     TransformDSL = Inr, WriteAuthorizationModel = (\<lambda>i m w. (Inr ''m1'', w)),
     srv_Write = (\<lambda>q w. case wr_Writes q of
        Some [t] \<Rightarrow> if (wr_StoreId q, t) \<in> set w then (Some (Foreign 2017 ''write failed''), w)
                    else (None, (wr_StoreId q, t) # w)
      | _ \<Rightarrow> (Some (Foreign 1 ''unsupported''), w)),
     srv_FromError = (\<lambda>e. case e of Foreign c _ \<Rightarrow> Some (int c) | _ \<Rightarrow> None), srv_write_failed = 2017\<rparr>"

lemma memory_server_laws: "server_laws memory_server (\<lambda>w i. {t. (i, t) \<in> set w})"
  by (auto simp: server_laws_def memory_server_def tuple_write_def split: option.splits list.splits if_splits)

theorem NewOpenFGATestServer_content_witness:
  "NewOpenFGATestServer memory_server [WithStoreName ''x'', WithTuples [tup ''u'', tup ''u'']] [] =
     (Inr (''s1'', ''m1''), [(''s1'', tup ''u'')]) \<and> {tup ''u''} \<subseteq> set [tup ''u'', tup ''u'']"
proof -
  have r: "NewOpenFGATestServer memory_server ([WithStoreName ''x''] @ [WithTuples [tup ''u'', tup ''u'']]) [] =
      (Inr (''s1'', ''m1''), [(''s1'', tup ''u'')])"
    by (simp add: NewOpenFGATestServer_def memory_server_def WithStoreName_def WithTuples_def tuple_write_def
        IsDuplicateWriteError_def tup_def)
  show ?thesis using NewOpenFGATestServer_content [OF memory_server_laws r] r by auto
qed

end
