(* ===== verification/Fga_Test_Run.thy ===== *)
theory Fga_Test_Run
  imports Fga_Test_Server
begin

text \<open>
  Starting and stopping the OpenFGA server for tests, \<open>Start\<close> and \<open>Stop\<close> of \<open>test/openfga.go\<close>.  \<open>Start\<close>
  leaves the call of \<open>Serve\<close> to a goroutine, so the calls are cut into the steps between which the scheduler
  may run other goroutines.  The gRPC server, its client and the OpenFGA server are parameters.
\<close>

section \<open>The server\<close>

text \<open>
  The libraries: \<open>grpc_Serve\<close> returns \<open>None\<close> when it goes on serving the listener, otherwise the error it
  returns.
\<close>

record 'g grpc_lib =
  grpc_Serve :: "nat \<Rightarrow> 'g \<Rightarrow> goerror option option \<times> 'g"
  grpc_Stop :: "'g \<Rightarrow> 'g"
  grpc_NewClient :: "'g \<Rightarrow> goerror option"
  fga_Close :: "'g \<Rightarrow> 'g"

text \<open>
  The listener of the server, the listeners made so far, the goroutines of \<open>Start\<close> that have not run yet,
  the results of \<open>Start\<close>, and whether \<open>Stop\<close> still has to close the OpenFGA server.
\<close>

record 'g test_server =
  ts_lis :: "nat option"
  ts_listeners :: nat
  ts_pending :: nat
  ts_serving :: "nat list"
  ts_results :: "goerror option list"
  ts_closing :: bool
  ts_panic :: "goerror option"
  ts_grpc :: 'g

text \<open>\<open>Start\<close>; a scheduled goroutine of it; the two calls of \<open>Stop\<close>.\<close>

datatype server_event = StartCall | Scheduled | StopCall | CloseCall

definition Start_step :: "'g grpc_lib \<Rightarrow> 'g test_server \<Rightarrow> 'g test_server" where
  "Start_step G s =
     s\<lparr>ts_lis := Some (ts_listeners s), ts_listeners := Suc (ts_listeners s), ts_pending := Suc (ts_pending s),
       ts_results := ts_results s @ [grpc_NewClient G (ts_grpc s)]\<rparr>"

text \<open>The goroutine reads the listener when it runs; an error of \<open>Serve\<close> is a panic.\<close>

definition Serve_step :: "'g grpc_lib \<Rightarrow> 'g test_server \<Rightarrow> 'g test_server option" where
  "Serve_step G s =
     (if ts_pending s = 0 then None
      else (case ts_lis s of
        None \<Rightarrow> None
      | Some lis \<Rightarrow>
          let (r, g) = grpc_Serve G lis (ts_grpc s);
              s1 = s\<lparr>ts_pending := ts_pending s - 1, ts_grpc := g\<rparr>
          in Some (case r of
               None \<Rightarrow> s1\<lparr>ts_serving := lis # ts_serving s1\<rparr>
             | Some None \<Rightarrow> s1
             | Some (Some err) \<Rightarrow> s1\<lparr>ts_panic := Some err\<rparr>)))"

definition Stop_step :: "'g grpc_lib \<Rightarrow> 'g test_server \<Rightarrow> 'g test_server" where
  "Stop_step G s = s\<lparr>ts_grpc := grpc_Stop G (ts_grpc s), ts_serving := [], ts_closing := True\<rparr>"

definition Close_step :: "'g grpc_lib \<Rightarrow> 'g test_server \<Rightarrow> 'g test_server option" where
  "Close_step G s = (if ts_closing s then Some (s\<lparr>ts_grpc := fga_Close G (ts_grpc s), ts_closing := False\<rparr>) else None)"

text \<open>Nothing happens after a panic: it ends the process.\<close>

fun server_step :: "'g grpc_lib \<Rightarrow> server_event \<Rightarrow> 'g test_server \<Rightarrow> 'g test_server option" where
  "server_step G ev s =
     (if ts_panic s \<noteq> None then None
      else (case ev of
        StartCall \<Rightarrow> Some (Start_step G s)
      | Scheduled \<Rightarrow> Serve_step G s
      | StopCall \<Rightarrow> Some (Stop_step G s)
      | CloseCall \<Rightarrow> Close_step G s))"

inductive server_run :: "'g grpc_lib \<Rightarrow> 'g test_server \<Rightarrow> server_event list \<Rightarrow> 'g test_server \<Rightarrow> bool" for G where
  run_Nil: "server_run G s [] s"
| run_snoc: "server_run G s evs s1 \<Longrightarrow> server_step G ev s1 = Some s2 \<Longrightarrow> server_run G s (evs @ [ev]) s2"

definition new_test_server :: "'g \<Rightarrow> 'g test_server" where
  "new_test_server g = \<lparr>ts_lis = None, ts_listeners = 0, ts_pending = 0, ts_serving = [], ts_results = [],
     ts_closing = False, ts_panic = None, ts_grpc = g\<rparr>"

section \<open>Properties\<close>

text \<open>
  gRPC's documented behaviour: a server that has not been stopped goes on serving an open listener, a
  stopped one returns an error, and a stopped server stays stopped.
\<close>

definition grpc_laws :: "'g grpc_lib \<Rightarrow> ('g \<Rightarrow> bool) \<Rightarrow> bool" where
  "grpc_laws G stopped \<longleftrightarrow> (\<forall>g lis.
     (\<not> stopped g \<longrightarrow> fst (grpc_Serve G lis g) = None) \<and>
     (stopped g \<longrightarrow> (\<exists>err. fst (grpc_Serve G lis g) = Some (Some err))) \<and>
     stopped (snd (grpc_Serve G lis g)) = stopped g \<and> stopped (grpc_Stop G g) \<and>
     stopped (fga_Close G g) = stopped g)"

text \<open>What every run keeps: whether the server has been stopped, who serves, and when there is a panic.\<close>

definition run_ok :: "('g \<Rightarrow> bool) \<Rightarrow> server_event list \<Rightarrow> 'g test_server \<Rightarrow> bool" where
  "run_ok stopped evs s \<longleftrightarrow>
     (stopped (ts_grpc s) \<longleftrightarrow> StopCall \<in> set evs) \<and>
     (ts_panic s \<noteq> None \<longleftrightarrow> (\<exists>pre. evs = pre @ [Scheduled] \<and> StopCall \<in> set pre)) \<and>
     ts_listeners s = count_list evs StartCall \<and>
     ts_pending s + count_list evs Scheduled = count_list evs StartCall \<and>
     length (ts_serving s) = (if StopCall \<in> set evs then 0 else count_list evs Scheduled)"

lemma run_ok_step:
  assumes "grpc_laws G stopped" "run_ok stopped evs s" "server_step G ev s = Some s1"
  shows "run_ok stopped (evs @ [ev]) s1"
proof (cases ev)
  case Scheduled
  with assms(3) obtain lis r g where lis: "ts_pending s \<noteq> 0" "ts_panic s = None" "ts_lis s = Some lis"
    and g: "grpc_Serve G lis (ts_grpc s) = (r, g)"
    by (cases "grpc_Serve G (the (ts_lis s)) (ts_grpc s)") (auto simp: Serve_step_def split: if_splits option.splits)
  show ?thesis
  proof (cases "StopCall \<in> set evs")
    case True
    with assms(1,2) have "stopped (ts_grpc s)" by (simp add: run_ok_def)
    with assms(1) g obtain err where "r = Some (Some err)" "stopped g" unfolding grpc_laws_def by (metis fst_conv snd_conv)
    with True assms(2,3) lis g Scheduled show ?thesis by (auto simp: Serve_step_def run_ok_def)
  next
    case False
    with assms(1,2) have "\<not> stopped (ts_grpc s)" by (simp add: run_ok_def)
    with assms(1) g have "r = None" "\<not> stopped g" unfolding grpc_laws_def by (metis fst_conv snd_conv)+
    with False assms(2,3) lis g Scheduled show ?thesis by (auto simp: Serve_step_def run_ok_def)
  qed
qed (use assms in \<open>auto simp: run_ok_def Start_step_def Stop_step_def Close_step_def grpc_laws_def split: if_splits\<close>)

lemma run_ok_runs: "server_run G s0 evs s \<Longrightarrow> grpc_laws G stopped \<Longrightarrow> run_ok stopped [] s0 \<Longrightarrow> run_ok stopped evs s"
  by (induction rule: server_run.induct) (auto intro: run_ok_step)

text \<open>
  C39.  When the test server takes the process down: in any interleaving of \<open>Start\<close>, \<open>Stop\<close> and the goroutines
  of \<open>Start\<close>, there is a panic exactly when a goroutine gets to call \<open>Serve\<close> only after a \<open>Stop\<close>, and then it
  is the last step.  Without a panic every goroutine that has run is serving until the first \<open>Stop\<close>.
\<close>

theorem Start_Stop_panics:
  assumes "grpc_laws G stopped" and "\<not> stopped g" and "server_run G (new_test_server g) evs s"
  shows "(ts_panic s \<noteq> None \<longleftrightarrow> (\<exists>pre. evs = pre @ [Scheduled] \<and> StopCall \<in> set pre)) \<and>
    length (ts_serving s) = (if StopCall \<in> set evs then 0 else count_list evs Scheduled) \<and>
    ts_pending s + count_list evs Scheduled = count_list evs StartCall"
proof -
  have "run_ok stopped [] (new_test_server g)" using assms(2) by (simp add: run_ok_def new_test_server_def)
  from run_ok_runs [OF assms(3,1) this] show ?thesis unfolding run_ok_def by (elim conjE) (intro conjI)
qed

definition flag_grpc :: "bool grpc_lib" where
  "flag_grpc = \<lparr>grpc_Serve = (\<lambda>lis g. (if g then Some (Some (ErrorString ''grpc: the server has been stopped'')) else None, g)),
     grpc_Stop = (\<lambda>_. True), grpc_NewClient = (\<lambda>_. None), fga_Close = (\<lambda>g. g)\<rparr>"

lemma flag_grpc_laws: "grpc_laws flag_grpc (\<lambda>g. g)"
  by (simp add: grpc_laws_def flag_grpc_def)

theorem Start_Stop_panics_witness:
  "\<exists>s. server_run flag_grpc (new_test_server False) [StartCall, StopCall, Scheduled] s \<and> ts_panic s \<noteq> None"
proof -
  let ?s1 = "Start_step flag_grpc (new_test_server False)"
  obtain s where s: "server_step flag_grpc Scheduled (Stop_step flag_grpc ?s1) = Some s"
    by (auto simp: Serve_step_def Start_step_def Stop_step_def new_test_server_def flag_grpc_def)
  have "ts_panic ?s1 = None" "ts_panic (new_test_server False) = None" by (simp_all add: Start_step_def new_test_server_def)
  then have steps: "server_step flag_grpc StartCall (new_test_server False) = Some ?s1"
    "server_step flag_grpc StopCall ?s1 = Some (Stop_step flag_grpc ?s1)" by simp_all
  have "server_run flag_grpc (new_test_server False) ((([] @ [StartCall]) @ [StopCall]) @ [Scheduled]) s"
    by (rule run_snoc [OF run_snoc [OF run_snoc [OF run_Nil steps(1)] steps(2)] s])
  moreover from Start_Stop_panics [OF flag_grpc_laws _ this] have "ts_panic s \<noteq> None" by simp
  ultimately show ?thesis by auto
qed

end
