(* ===== verification/Middleware.thy ===== *)
theory Middleware
  imports Context
begin

text \<open>
  The HTTP middlewares of the package \<open>middleware\<close>.  A handler takes a request and the state of the
  connection and either returns or panics; a middleware maps handlers to handlers.  The OpenTelemetry
  propagator, the UUID source and the token library of \<open>jwt.New\<close> are parameters (\<open>web_env\<close>).
\<close>

section \<open>Requests, handlers\<close>

record http_request =
  req_Header :: header
  req_ctx :: ctx

datatype panic_value = ErrAbortHandler | PanicValue nat

text \<open>The runtime error of an access through a nil pointer.\<close>

abbreviation nil_panic :: panic_value where "nil_panic \<equiv> PanicValue 0"

text \<open>The status codes written and the panics reported to Sentry, the newest last.\<close>

record 'w http_state =
  written :: "int list"
  recovered :: "panic_value list"
  hworld :: 'w

type_synonym 'w handler = "http_request \<Rightarrow> 'w http_state \<Rightarrow> panic_value option \<times> 'w http_state"
type_synonym 'w middleware = "'w handler \<Rightarrow> 'w handler"

definition WithContext :: "http_request \<Rightarrow> ctx \<Rightarrow> http_request" where
  "WithContext r c = r\<lparr>req_ctx := c\<rparr>"

record 'w web_env =
  we_extract :: "ctx \<Rightarrow> header \<Rightarrow> ctx"
  we_uuid :: "'w \<Rightarrow> string \<times> 'w"
  we_ParseSigned :: "string \<Rightarrow> string list \<Rightarrow> goerror + string"
  we_Claims :: "string \<Rightarrow> goerror + raw_web_token option"
  we_std_logger :: logger

text \<open>\<open>jwt.New\<close> on this library, whose parsed tokens are their payloads.\<close>

abbreviation new_token :: "'w web_env \<Rightarrow> string \<Rightarrow> string list \<Rightarrow> (goerror + web_token) option" where
  "new_token E \<equiv> New_token (we_ParseSigned E) (we_Claims E)"

section \<open>The middlewares\<close>

definition AuthorizationHeader :: string where "AuthorizationHeader = ''Authorization''"

definition StoreAuthHeader :: "'w middleware" where
  "StoreAuthHeader next_handler request s =
     (let auth = header_get (req_Header request) AuthorizationHeader;
          c = req_ctx request;
          c1 = (if auth \<noteq> [] then AddAuthHeaderToContext c auth else c)
      in next_handler (WithContext request c1) s)"

definition tokenAuthPrefix :: string where "tokenAuthPrefix = ''BEARER''"
definition signatureAlgorithms :: "string list" where "signatureAlgorithms = [''RS256'']"

definition StoreWebToken :: "'w web_env \<Rightarrow> 'w middleware" where
  "StoreWebToken E next_handler request s =
     (let c = req_ctx request;
          tokens = str_fields (header_get (req_Header request) AuthorizationHeader);
          c1 = (if length tokens = 2 \<and> equalFold (tokens ! 0) tokenAuthPrefix
                then AddWebTokenToContext (new_token E) c (tokens ! 1) signatureAlgorithms
                else Some c)
      in case c1 of
           None \<Rightarrow> (Some nil_panic, s)
         | Some c2 \<Rightarrow> next_handler (WithContext request c2) s)"

definition StoreSpiffeHeader :: "'w middleware" where
  "StoreSpiffeHeader next_handler request s =
     (let c = req_ctx request;
          uriVal = GetSpiffeUrlValue (req_Header request);
          c1 = (case uriVal of Some u \<Rightarrow> AddSpiffeToContext c u | None \<Rightarrow> c)
      in next_handler (WithContext request c1) s)"

definition requestIdHeader :: string where "requestIdHeader = ''X-Request-Id''"

definition SetRequestId :: "'w web_env \<Rightarrow> 'w middleware" where
  "SetRequestId E next_handler request s =
     (let c = req_ctx request;
          (requestId, s1) =
            (case req_Header request requestIdHeader of
               [one] \<Rightarrow> (one, s)
             | _ \<Rightarrow> (let (u, w1) = we_uuid E (hworld s) in (u, s\<lparr>hworld := w1\<rparr>)))
      in next_handler (WithContext request (WithValue c RequestIdCtxKey (VString requestId))) s1)"

definition SetRequestIdInLogger :: "'w web_env \<Rightarrow> 'w middleware" where
  "SetRequestIdInLogger E next_handler request s =
     (let c = req_ctx request;
          log = LoadLoggerFromContext (we_std_logger E) c;
          log1 = NewRequestLoggerFromZerolog c log
      in next_handler (WithContext request (SetLoggerInContext c log1)) s)"

definition GetRequestId :: "ctx \<Rightarrow> string" where
  "GetRequestId c = (case c RequestIdCtxKey of Some (VString v) \<Rightarrow> v | _ \<Rightarrow> [])"

text \<open>A nil logger is replaced by the standard logger when the middleware is made.\<close>

definition StoreLoggerMiddleware :: "'w web_env \<Rightarrow> logger option \<Rightarrow> 'w middleware" where
  "StoreLoggerMiddleware E log next_handler request s =
     (let log1 = (case log of None \<Rightarrow> we_std_logger E | Some l \<Rightarrow> l)
      in next_handler (WithContext request (SetLoggerInContext (req_ctx request) log1)) s)"

definition SetOtelTracingContext :: "'w web_env \<Rightarrow> 'w middleware" where
  "SetOtelTracingContext E next_handler request s =
     next_handler (WithContext request (we_extract E (req_ctx request) (req_Header request))) s"

text \<open>
  The deferred function of \<open>SentryRecoverer\<close> runs after the handler.  \<open>recover\<close> ends the panic
  whatever the condition then says about its value.
\<close>

definition SentryRecoverer :: "'w middleware" where
  "SentryRecoverer next_handler request s =
     (case next_handler request s of
        (None, s1) \<Rightarrow> (None, s1)
      | (Some err, s1) \<Rightarrow>
          if err \<noteq> ErrAbortHandler
          then (None, s1\<lparr>recovered := recovered s1 @ [err], written := written s1 @ [500]\<rparr>)
          else (None, s1))"

definition CreateAuthMiddleware :: "'w web_env \<Rightarrow> 'w middleware list" where
  "CreateAuthMiddleware E = [StoreWebToken E, StoreAuthHeader, StoreSpiffeHeader]"

definition CreateMiddleware :: "'w web_env \<Rightarrow> logger option \<Rightarrow> bool \<Rightarrow> 'w middleware list" where
  "CreateMiddleware E log auth =
     (let mws = [SetOtelTracingContext E, SentryRecoverer, StoreLoggerMiddleware E log, SetRequestId E,
                 SetRequestIdInLogger E]
      in if auth then mws @ CreateAuthMiddleware E else mws)"

text \<open>How a router applies the slice: the first middleware is the outermost.\<close>

definition chain :: "'w middleware list \<Rightarrow> 'w handler \<Rightarrow> 'w handler" where
  "chain mws h = foldr (\<lambda>m next_handler. m next_handler) mws h"

text \<open>The middleware for local runs: \<open>sign\<close> makes the unsigned token for a subject.\<close>

definition LocalMiddleware :: "'w web_env \<Rightarrow> (string \<Rightarrow> panic_value + string) \<Rightarrow> string \<Rightarrow> string \<Rightarrow> 'w middleware" where
  "LocalMiddleware E sign tenantId userId next_handler request s =
     (case sign userId of
        Inl err \<Rightarrow> (Some err, s)
      | Inr token \<Rightarrow>
          (case AddWebTokenToContext (new_token E) (req_ctx request) token [''none''] of
             None \<Rightarrow> (Some nil_panic, s)
           | Some c1 \<Rightarrow> next_handler (WithContext request (AddTenantToContext c1 tenantId)) s))"

section \<open>Properties\<close>

text \<open>
  The recoverer lets no panic out: the wrapped handler always returns; a panic other than
  \<open>http.ErrAbortHandler\<close> is reported once and answered with status 500 after whatever the handler has
  written; without one nothing is added.  \<open>ErrAbortHandler\<close> is swallowed too, so the server does not
  learn that the handler asked for the connection to be aborted.
\<close>

theorem SentryRecoverer_spec:
  "fst (SentryRecoverer h r s) = None \<and>
   (case h r s of
      (Some (PanicValue v), s1) \<Rightarrow> snd (SentryRecoverer h r s) =
        s1\<lparr>recovered := recovered s1 @ [PanicValue v], written := written s1 @ [500]\<rparr>
    | (_, s1) \<Rightarrow> snd (SentryRecoverer h r s) = s1)"
  by (auto simp: SentryRecoverer_def split: prod.split option.split panic_value.split)

text \<open>OpenTelemetry keeps its values under keys of its own.\<close>

definition extract_frame :: "'w web_env \<Rightarrow> bool" where
  "extract_frame E \<longleftrightarrow> (\<forall>c h k. k \<notin> range ForeignKey \<longrightarrow> we_extract E c h k = c k)"

text \<open>The request id of a request and the state after it has been chosen.\<close>

definition request_id :: "'w web_env \<Rightarrow> http_request \<Rightarrow> 'w http_state \<Rightarrow> string \<times> 'w http_state" where
  "request_id E r s =
     (case req_Header r requestIdHeader of
        [one] \<Rightarrow> (one, s)
      | _ \<Rightarrow> (let (u, w1) = we_uuid E (hworld s) in (u, s\<lparr>hworld := w1\<rparr>)))"

text \<open>The bearer token of a request, parsed: what \<open>StoreWebToken\<close> stores.\<close>

definition bearer_token :: "'w web_env \<Rightarrow> http_request \<Rightarrow> web_token option" where
  "bearer_token E r =
     (case str_fields (header_get (req_Header r) AuthorizationHeader) of
        [scheme, tok] \<Rightarrow>
          if equalFold scheme tokenAuthPrefix
          then (case new_token E tok signatureAlgorithms of Some (Inr t) \<Rightarrow> Some t | _ \<Rightarrow> None)
          else None
      | _ \<Rightarrow> None)"

text \<open>A request whose bearer token can be parsed and carries the claims \<open>null\<close>.\<close>

definition null_token :: "'w web_env \<Rightarrow> http_request \<Rightarrow> bool" where
  "null_token E r =
     (case str_fields (header_get (req_Header r) AuthorizationHeader) of
        [scheme, tok] \<Rightarrow> equalFold scheme tokenAuthPrefix \<and>
          (case we_ParseSigned E tok signatureAlgorithms of Inr payload \<Rightarrow> we_Claims E payload = Inr None | Inl _ \<Rightarrow> False)
      | _ \<Rightarrow> False)"

lemma StoreWebToken_eq:
  "StoreWebToken E h r s =
     (if null_token E r then (Some nil_panic, s)
      else h (WithContext r (case bearer_token E r of None \<Rightarrow> req_ctx r
        | Some t \<Rightarrow> WithValue (req_ctx r) WebTokenCtxKey (VToken t))) s)"
proof -
  let ?ts = "str_fields (header_get (req_Header r) AuthorizationHeader)"
  consider "length ?ts \<noteq> 2" | a b where "?ts = [a, b]"
    by (metis (no_types, opaque_lifting) length_0_conv length_Suc_conv numeral_2_eq_2)
  then show ?thesis
  proof cases
    case 1
    then have "bearer_token E r = None" "\<not> null_token E r"
      by (auto simp: bearer_token_def null_token_def split: list.split)
    with 1 show ?thesis by (simp add: StoreWebToken_def Let_def)
  next
    case 2
    then show ?thesis
      by (auto simp: StoreWebToken_def bearer_token_def null_token_def AddWebTokenToContext_def New_token_def
          split: sum.split option.split)
  qed
qed

definition enriched :: "'w web_env \<Rightarrow> logger option \<Rightarrow> bool \<Rightarrow> http_request \<Rightarrow> string \<Rightarrow> ctx" where
  "enriched E log auth r rid =
     (let base = (case log of None \<Rightarrow> we_std_logger E | Some l \<Rightarrow> l);
          c0 = (we_extract E (req_ctx r) (req_Header r))
             (RequestIdCtxKey \<mapsto> VString rid,
              LoggerCtxKey \<mapsto> VLogger (base\<lparr>log_fields := log_fields base @ [(''rid'', rid)]\<rparr>));
          c1 = (case bearer_token E r of Some t \<Rightarrow> c0(WebTokenCtxKey \<mapsto> VToken t) | None \<Rightarrow> c0);
          auth_value = header_get (req_Header r) AuthorizationHeader;
          c2 = (if auth_value \<noteq> [] then c1(AuthHeaderCtxKey \<mapsto> VString auth_value) else c1);
          c3 = (case GetSpiffeUrlValue (req_Header r) of Some u \<Rightarrow> c2(SpiffeCtxKey \<mapsto> VString u) | None \<Rightarrow> c2)
      in if auth then c3 else c0)"

lemma chain_simps [simp]: "chain [] h = h" "chain (m # ms) h = m (chain ms h)"
  by (simp_all add: chain_def)

lemma bearer_WithContext [simp]:
  "bearer_token E (WithContext r c) = bearer_token E r" "null_token E (WithContext r c) = null_token E r"
  by (simp_all add: bearer_token_def null_token_def WithContext_def)

lemma WithContext_sel [simp]:
  "req_ctx (WithContext r c) = c" "req_Header (WithContext r c) = req_Header r"
  "WithContext (WithContext r c) d = WithContext r d"
  by (simp_all add: WithContext_def)

lemma auth_chain:
  "chain (CreateAuthMiddleware E) h r s = (if null_token E r then (Some nil_panic, s) else h (WithContext r
     (let c1 = (case bearer_token E r of Some t \<Rightarrow> (req_ctx r)(WebTokenCtxKey \<mapsto> VToken t) | None \<Rightarrow> req_ctx r);
          a = header_get (req_Header r) AuthorizationHeader;
          c2 = (if a \<noteq> [] then c1(AuthHeaderCtxKey \<mapsto> VString a) else c1)
      in (case GetSpiffeUrlValue (req_Header r) of Some u \<Rightarrow> c2(SpiffeCtxKey \<mapsto> VString u) | None \<Rightarrow> c2))) s)"
  by (simp add: CreateAuthMiddleware_def StoreWebToken_eq StoreAuthHeader_def StoreSpiffeHeader_def Let_def
      AddAuthHeaderToContext_def AddSpiffeToContext_def WithValue_def cong: option.case_cong if_cong)

lemma log_chain:
  "chain [StoreLoggerMiddleware E log, SetRequestId E, SetRequestIdInLogger E] h r s =
   (let (rid, s1) = request_id E r s; base = (case log of None \<Rightarrow> we_std_logger E | Some l \<Rightarrow> l)
    in h (WithContext r ((req_ctx r)(RequestIdCtxKey \<mapsto> VString rid,
              LoggerCtxKey \<mapsto> VLogger (base\<lparr>log_fields := log_fields base @ [(''rid'', rid)]\<rparr>)))) s1)"
  by (cases "request_id E r s")
    (simp add: StoreLoggerMiddleware_def SetRequestId_def SetRequestIdInLogger_def request_id_def Let_def
      SetLoggerInContext_def LoadLoggerFromContext_def NewRequestLoggerFromZerolog_def WithValue_def
      LoggerCtxKey_def RequestIdCtxKey_def fun_upd_twist)

lemma chain_append: "chain (ms @ ns) h = chain ms (chain ns h)"
  by (simp add: chain_def)

text \<open>
  What the recoverer of the chain wraps: the inner handler in the enriched context, or, with
  authentication, the panic of a token whose claims are \<open>null\<close>.
\<close>

definition guarded :: "'w web_env \<Rightarrow> logger option \<Rightarrow> bool \<Rightarrow> 'w handler \<Rightarrow> http_request \<Rightarrow> string \<Rightarrow> 'w http_state \<Rightarrow>
    panic_value option \<times> 'w http_state" where
  "guarded E log auth h r rid s1 =
     (if auth \<and> null_token E r then (Some nil_panic, s1) else h (WithContext r (enriched E log auth r rid)) s1)"

lemma chain_enriched:
  "chain (CreateMiddleware E log auth) h r s =
   (let (rid, s1) = request_id E r s in SentryRecoverer (\<lambda>r' s'. guarded E log auth h r rid s1) r s)"
proof -
  let ?r = "WithContext r (we_extract E (req_ctx r) (req_Header r))"
  obtain rid s1 where id: "request_id E r s = (rid, s1)" by fastforce
  then have id': "request_id E ?r s = (rid, s1)" by (simp add: request_id_def)
  have parts: "CreateMiddleware E log auth = SetOtelTracingContext E # SentryRecoverer #
      [StoreLoggerMiddleware E log, SetRequestId E, SetRequestIdInLogger E] @
      (if auth then CreateAuthMiddleware E else [])"
    by (simp add: CreateMiddleware_def)
  have "chain ([StoreLoggerMiddleware E log, SetRequestId E, SetRequestIdInLogger E] @
      (if auth then CreateAuthMiddleware E else [])) h ?r s = guarded E log auth h r rid s1"
    unfolding chain_append log_chain id' guarded_def
    by (cases "bearer_token E r"; cases "GetSpiffeUrlValue (req_Header r)")
      (simp_all add: auth_chain enriched_def Let_def)
  then show ?thesis
    unfolding parts by (simp only: chain_simps SetOtelTracingContext_def SentryRecoverer_def id Let_def prod.case)
qed

text \<open>A token with the claims \<open>null\<close>: one report, status 500, and the inner handler has not run.\<close>

lemma null_token_answered:
  assumes "null_token E r"
  shows "chain (CreateMiddleware E log True) h r s =
    (let s1 = snd (request_id E r s)
     in (None, s1\<lparr>recovered := recovered s1 @ [nil_panic], written := written s1 @ [500]\<rparr>))"
  using assms unfolding chain_enriched
  by (simp add: guarded_def SentryRecoverer_def Let_def split: prod.split)

lemma chain_unguarded:
  assumes "\<not> (auth \<and> null_token E r)" "request_id E r s = (rid, s1)"
  shows "chain (CreateMiddleware E log auth) h r s =
    SentryRecoverer (\<lambda>r' s'. h (WithContext r (enriched E log auth r rid)) s1) r s"
  using assms(1) unfolding chain_enriched assms(2) guarded_def by (cases auth) simp_all

text \<open>
  The whole chain: the inner handler runs at most once, under the recoverer, with the
  original headers and a context in which the request id is the single \<open>X-Request-Id\<close> value or a fresh
  one, the logger is the given one with this id, and, with authentication, the token is the parsed
  bearer token, the header value the non-empty \<open>Authorization\<close> header and the SPIFFE value the one of
  the certificate header, each of them left alone when absent.
\<close>

theorem CreateMiddleware_spec:
  "chain (CreateMiddleware E log auth) h r s =
   (let (rid, s1) = request_id E r s
    in SentryRecoverer (\<lambda>r' s'.
         if auth \<and> null_token E r then (Some nil_panic, s1)
         else h (WithContext r (enriched E log auth r rid)) s1) r s)"
  unfolding chain_enriched guarded_def by (rule refl)

text \<open>
  C31.  What the middlewares do not own stays: for a request that, with authentication, does not come with a
  bearer token whose claims are the JSON value \<open>null\<close>, the handler runs under the recoverer with the
  original headers, and in a context with the logger and the request id of the request in which, apart from the request id, the logger,
  the token, the header value, the SPIFFE value and the tracing library's own keys, there is what was there
  before; in particular no tenant and no technical-user flag can be set from a header.
\<close>

theorem CreateMiddleware_context_frame:
  assumes "extract_frame E" and "auth \<longrightarrow> \<not> null_token E r" and "request_id E r s = (rid, s1)"
  shows "\<exists>c. chain (CreateMiddleware E log auth) h r s = SentryRecoverer (\<lambda>r' s'. h (WithContext r c) s1) r s \<and>
    c RequestIdCtxKey = Some (VString rid) \<and> (\<exists>l. c LoggerCtxKey = Some (VLogger l) \<and> (''rid'', rid) \<in> set (log_fields l)) \<and>
    (\<not> auth \<longrightarrow> (\<forall>k \<in> {WebTokenCtxKey, AuthHeaderCtxKey, SpiffeCtxKey}. c k = req_ctx r k)) \<and>
    (\<forall>k. k \<notin> {RequestIdCtxKey, LoggerCtxKey, WebTokenCtxKey, AuthHeaderCtxKey, SpiffeCtxKey} \<union> range ForeignKey \<longrightarrow>
       c k = req_ctx r k)"
proof -
  let ?c = "enriched E log auth r rid"
  have frame: "?c k = req_ctx r k"
    if "k \<notin> {RequestIdCtxKey, LoggerCtxKey, WebTokenCtxKey, AuthHeaderCtxKey, SpiffeCtxKey} \<union> range ForeignKey" for k
    using that assms(1) by (auto simp: enriched_def extract_frame_def Let_def split: option.split)
  have own: "?c RequestIdCtxKey = Some (VString rid)"
    "\<exists>l. ?c LoggerCtxKey = Some (VLogger l) \<and> (''rid'', rid) \<in> set (log_fields l)"
    by (auto simp: enriched_def Let_def ctx_key_defs split: option.split)
  have plain: "\<forall>k \<in> {WebTokenCtxKey, AuthHeaderCtxKey, SpiffeCtxKey}. ?c k = req_ctx r k" if "\<not> auth"
    using that assms(1) by (auto simp: enriched_def extract_frame_def Let_def ctx_key_defs)
  have run: "chain (CreateMiddleware E log auth) h r s = SentryRecoverer (\<lambda>r' s'. h (WithContext r ?c) s1) r s"
    by (rule chain_unguarded [OF _ assms(3)]) (use assms(2) in blast)
  show ?thesis
    by (intro exI [of _ ?c] conjI allI impI) (rule run own frame plain | assumption)+
qed

text \<open>A library that reads the token \<open>null\<close> as one with the claims \<open>null\<close> and refuses any other.\<close>

definition plain_env :: "nat web_env" where
  "plain_env = \<lparr>we_extract = (\<lambda>c h. c), we_uuid = (\<lambda>w. (''u'', Suc w)),
     we_ParseSigned = (\<lambda>t a. if t = ''null'' then Inr t else Inl (ErrorString ''bad'')), we_Claims = (\<lambda>p. Inr None),
     we_std_logger = \<lparr>log_level = 0, log_fields = []\<rparr>\<rparr>"

definition context_seen :: "ctx_key \<Rightarrow> nat handler" where
  "context_seen k r s = (None, s\<lparr>hworld := (if req_ctx r k = Some (VString ''t'') then 1 else 0)\<rparr>)"

definition tenant_request :: http_request where
  "tenant_request = \<lparr>req_Header = (\<lambda>_. [''x'']), req_ctx = [TenantIdCtxKey \<mapsto> VString ''t'']\<rparr>"

definition null_request :: http_request where
  "null_request = \<lparr>req_Header = (\<lambda>k. if k = ''Authorization'' then [''Bearer null''] else []), req_ctx = Map.empty\<rparr>"

lemma null_request_token: "null_token plain_env null_request" "\<not> null_token plain_env tenant_request"
  by code_simp+

theorem CreateMiddleware_context_frame_witness:
  "hworld (snd (chain (CreateMiddleware plain_env None True) (context_seen TenantIdCtxKey) tenant_request
     \<lparr>written = [], recovered = [], hworld = 0\<rparr>)) = 1"
proof -
  let ?s = "\<lparr>written = [], recovered = [], hworld = 0\<rparr> :: nat http_state"
  have lib: "extract_frame plain_env" by (simp add: extract_frame_def plain_env_def)
  obtain rid s1 where id: "request_id plain_env tenant_request ?s = (rid, s1)" by fastforce
  from CreateMiddleware_context_frame [OF lib _ id, of True None "context_seen TenantIdCtxKey"] null_request_token(2)
  obtain c where r: "chain (CreateMiddleware plain_env None True) (context_seen TenantIdCtxKey) tenant_request ?s =
      SentryRecoverer (\<lambda>r' s'. context_seen TenantIdCtxKey (WithContext tenant_request c) s1) tenant_request ?s"
    and frame: "\<forall>k. k \<notin> {RequestIdCtxKey, LoggerCtxKey, WebTokenCtxKey, AuthHeaderCtxKey, SpiffeCtxKey} \<union> range ForeignKey \<longrightarrow>
         c k = req_ctx tenant_request k" by auto
  have "TenantIdCtxKey \<notin> {RequestIdCtxKey, LoggerCtxKey, WebTokenCtxKey, AuthHeaderCtxKey, SpiffeCtxKey} \<union> range ForeignKey"
    by (auto simp: ctx_key_defs)
  with frame have "c TenantIdCtxKey = Some (VString ''t'')" by (simp add: tenant_request_def)
  then show ?thesis unfolding r by (simp add: SentryRecoverer_def context_seen_def)
qed

text \<open>The token \<open>null\<close>, in contrast, makes the chain panic and answer with status 500.\<close>

lemma null_token_run:
  "written (snd (chain (CreateMiddleware plain_env None True) (context_seen TenantIdCtxKey) null_request
     \<lparr>written = [], recovered = [], hworld = 0\<rparr>)) = [500]"
proof -
  have "written (snd (request_id plain_env null_request \<lparr>written = [], recovered = [], hworld = 0\<rparr>)) = []"
    by (auto simp: request_id_def Let_def plain_env_def split: list.split)
  then show ?thesis by (simp add: null_token_answered [OF null_request_token(1)] Let_def)
qed

end
