(* ===== verification/Directive.thy ===== *)
theory Directive
  imports Middleware Fga_Store
begin

text \<open>
  The GraphQL directive \<open>@authorized\<close>: \<open>directive/authorized.go\<close>, \<open>tenant.go\<close>, \<open>config.go\<close>.  gqlgen's field
  context, the JSON normalisation of the arguments and gRPC's outgoing metadata are parameters; the
  store and model ids are those of \<open>helpers\<close> with its process-wide cache.
\<close>

section \<open>Arguments\<close>

text \<open>
  The arguments of a field as Go values, as far as the code asserts their types, and as the JSON object
  that marshalling and unmarshalling makes of them (or the error).
\<close>

datatype arg_value = ArgString string | ArgStringPtr "string option" | ArgOther

record field_context =
  fc_Args :: "string \<Rightarrow> arg_value option"
  fc_normalized :: "goerror + (string \<times> json) list"

definition cannot_extract :: "string \<Rightarrow> goerror" where
  "cannot_extract paramName =
     ErrorString (''unable to extract param from request for given paramName '' @ paramName)"

definition wrong_param_type :: "string \<Rightarrow> goerror" where
  "wrong_param_type paramName =
     ErrorString (''unable to extract param from request for given paramName '' @ paramName @ '', param is of wrong type'')"

text \<open>The loop over the parts of the name; at the last one the value has to be a non-empty string.\<close>

fun extract_parts :: "string \<Rightarrow> (string \<times> json) list \<Rightarrow> string list \<Rightarrow> goerror + string" where
  "extract_parts paramName args [] = Inr []"
| "extract_parts paramName args (key # keys) =
     (case map_of args key of
        None \<Rightarrow> Inl (cannot_extract paramName)
      | Some val \<Rightarrow>
          if keys = [] then
            (case val of JStr s \<Rightarrow> if s = [] then Inl (wrong_param_type paramName) else Inr s
             | _ \<Rightarrow> Inl (wrong_param_type paramName))
          else (case val of JObj o1 \<Rightarrow> extract_parts paramName o1 keys | _ \<Rightarrow> Inl (wrong_param_type paramName)))"

definition extractNestedKeyFromArgs :: "goerror + (string \<times> json) list \<Rightarrow> string \<Rightarrow> goerror + string" where
  "extractNestedKeyFromArgs args paramName =
     (case args of
        Inl err \<Rightarrow> Inl err
      | Inr normalizedArgs \<Rightarrow> extract_parts paramName normalizedArgs (splitOn CHR ''.'' paramName))"

section \<open>The directive\<close>

record 'w directive_env =
  de_field_context :: "ctx \<Rightarrow> field_context option"
  de_append_metadata :: "ctx \<Rightarrow> string \<Rightarrow> string \<Rightarrow> ctx"
  de_service :: "'w fga_service option"
  de_enabled :: bool

text \<open>\<open>None\<close>: without a field context the access to its arguments panics.\<close>

definition setTenantToContextForTechnicalUsers :: "'w directive_env \<Rightarrow> ctx \<Rightarrow> (goerror + ctx) option" where
  "setTenantToContextForTechnicalUsers D c =
     (let hasSpiffe = (case GetSpiffeFromContext c of Inr s \<Rightarrow> s \<noteq> [] | Inl _ \<Rightarrow> False)
      in if \<not> GetIsTechnicalIssuerFromContext c \<and> \<not> hasSpiffe then Some (Inr c)
         else (case de_field_context D c of
           None \<Rightarrow> None
         | Some fieldContext \<Rightarrow>
             (case fc_Args fieldContext ''tenantId'' of
                Some (ArgString tid) \<Rightarrow> Some (Inr (if tid = [] then c else AddTenantToContext c tid))
              | Some (ArgStringPtr None) \<Rightarrow> Some (Inl (ErrorString ''tenantId parameter is nil - bad request''))
              | Some (ArgStringPtr (Some tid)) \<Rightarrow> Some (Inr (if tid = [] then c else AddTenantToContext c tid))
              | _ \<Rightarrow> Some (Inr c))))"

definition entity_type_of ::
  "field_context \<Rightarrow> string option \<Rightarrow> string option \<Rightarrow> goerror + string" where
  "entity_type_of fctx entityType entityTypeParamName =
     (case (case entityTypeParamName of
              Some p \<Rightarrow> extractNestedKeyFromArgs (fc_normalized fctx) p
            | None \<Rightarrow> (case entityType of Some t \<Rightarrow> Inr t | None \<Rightarrow> Inr [])) of
        Inl err \<Rightarrow> Inl err
      | Inr t \<Rightarrow> if t = [] then Inl (ErrorString ''make sure to either provide entityType or entityTypeParamName'')
                 else Inr t)"

text \<open>The user: the subject of the token when there is an authorization header, the SPIFFE id otherwise.\<close>

definition user_of :: "ctx \<Rightarrow> bool \<Rightarrow> goerror + string" where
  "user_of c hasToken =
     (if hasToken then
        (case GetWebTokenFromContext c of Inl err \<Rightarrow> Inl err | Inr user \<Rightarrow> Inr (Subject user))
      else
        (case GetSpiffeFromContext c of
           Inl err \<Rightarrow> Inl (ErrorString ''authorized was invoked without a user token or a spiffe header'')
         | Inr spiffe \<Rightarrow> Inr (trimPrefix spiffe ''spiffe://'')))"

definition has_token :: "ctx \<Rightarrow> bool" where
  "has_token c = (case GetAuthHeaderFromContext c of Inl _ \<Rightarrow> False | Inr _ \<Rightarrow> True)"

definition outgoing :: "'w directive_env \<Rightarrow> ctx \<Rightarrow> ctx" where
  "outgoing D c = (case GetAuthHeaderFromContext c of
     Inl _ \<Rightarrow> c | Inr token \<Rightarrow> de_append_metadata D c ''authorization'' token)"

definition unauthorized :: goerror where "unauthorized = ErrorString ''unauthorized''"

type_synonym ('s, 'r) resolver = "ctx \<Rightarrow> 's \<Rightarrow> (goerror + 'r) \<times> 's"

definition Authorized ::
  "'w directive_env \<Rightarrow> 'c string_cache \<Rightarrow> ('c \<times> 'w, 'r) resolver \<Rightarrow> string \<Rightarrow> string option \<Rightarrow> string option \<Rightarrow> string \<Rightarrow>
   ctx \<Rightarrow> 'c \<times> 'w \<Rightarrow> ((goerror + 'r) \<times> 'c \<times> 'w) option" where
  "Authorized D K nextr relation entityType entityTypeParamName entityParamName c0 st =
     (if \<not> de_enabled D then Some (nextr c0 st)
      else
     (case de_service D of
        None \<Rightarrow> Some (Inl (ErrorString ''OpenFGAServiceClient is nil. Cannot process request''), st)
      | Some S \<Rightarrow>
     (case setTenantToContextForTechnicalUsers D c0 of
        None \<Rightarrow> None
      | Some (Inl err) \<Rightarrow> Some (Inl err, st)
      | Some (Inr c1) \<Rightarrow>
          let hasToken = has_token c1; c2 = outgoing D c1 in
     (case de_field_context D c2 of
        None \<Rightarrow> None
      | Some fctx \<Rightarrow>
     (case extractNestedKeyFromArgs (fc_normalized fctx) entityParamName of
        Inl err \<Rightarrow> Some (Inl err, st)
      | Inr entityID \<Rightarrow>
     (case GetTenantFromContext c2 of
        Inl err \<Rightarrow> Some (Inl err, st)
      | Inr tenantID \<Rightarrow>
     (case entity_type_of fctx entityType entityTypeParamName of
        Inl err \<Rightarrow> Some (Inl err, st)
      | Inr evaluatedEntityType \<Rightarrow>
     (case GetStoreIDForTenant K S tenantID st of
        (Inl err, st1) \<Rightarrow> Some (Inl err, st1)
      | (Inr storeID, st1) \<Rightarrow>
     (case GetModelIDForTenant K S tenantID st1 of
        (Inl err, st2) \<Rightarrow> Some (Inl err, st2)
      | (Inr modelID, st2) \<Rightarrow>
     (case user_of c2 hasToken of
        Inl err \<Rightarrow> Some (Inl err, st2)
      | Inr userID \<Rightarrow>
          let req = \<lparr>cr_StoreId = storeID, cr_ModelId = modelID, cr_TupleKey =
                \<lparr>tk_Object = evaluatedEntityType @ '':'' @ entityID, tk_Relation = relation,
                 tk_User = ''user:'' @ SanitizeUserID userID\<rparr>\<rparr>
          in
     (case svc_Check S req (snd st2) of
        (Inl err, w3) \<Rightarrow> Some (Inl err, fst st2, w3)
      | (Inr allowed, w3) \<Rightarrow>
          if \<not> allowed then Some (Inl unauthorized, fst st2, w3)
          else Some (nextr c2 (fst st2, w3)))))))))))))"

section \<open>Properties\<close>

text \<open>What a dotted name denotes in a JSON object.\<close>

fun json_at :: "json \<Rightarrow> string list \<Rightarrow> json option" where
  "json_at j [] = Some j"
| "json_at (JObj kvs) (k # ks) = (case map_of kvs k of None \<Rightarrow> None | Some j \<Rightarrow> json_at j ks)"
| "json_at j (k # ks) = None"

lemma extract_parts_iff:
  "ks \<noteq> [] \<Longrightarrow> extract_parts p args ks = Inr v \<longleftrightarrow> v \<noteq> [] \<and> json_at (JObj args) ks = Some (JStr v)"
proof (induction ks arbitrary: args)
  case (Cons k ks)
  show ?case
  proof (cases "map_of args k")
    case (Some val)
    show ?thesis
    proof (cases "ks = []")
      case True
      with Some show ?thesis by (cases val) auto
    next
      case False
      with Some Cons.IH show ?thesis by (cases val; cases ks) auto
    qed
  qed simp
qed simp

text \<open>
  Nested arguments: a value is extracted exactly when the dotted name leads through objects to a
  non-empty string, and then it is that string; in every other case there is an error.
\<close>

theorem extractNestedKeyFromArgs_spec:
  "extractNestedKeyFromArgs args p = Inr v \<longleftrightarrow>
     (\<exists>o1. args = Inr o1 \<and> v \<noteq> [] \<and> json_at (JObj o1) (splitOn CHR ''.'' p) = Some (JStr v))"
  by (cases args) (simp_all add: extractNestedKeyFromArgs_def extract_parts_iff)

text \<open>The library functions leave the repository's own context keys alone.\<close>

definition metadata_frame :: "'w directive_env \<Rightarrow> bool" where
  "metadata_frame D \<longleftrightarrow> (\<forall>c k v n. de_append_metadata D c k v (ContextKey n) = c (ContextKey n))"

text \<open>An allowed check: the service was asked for this request, at some state, and said yes.\<close>

definition allowed_check :: "'w fga_service \<Rightarrow> check_request \<Rightarrow> bool" where
  "allowed_check S req \<longleftrightarrow> (\<exists>w w'. svc_Check S req w = (Inr True, w'))"

text \<open>The request the directive has to ask, for a context \<open>c\<close> with the tenant already in it.\<close>

definition authorizing ::
  "'w directive_env \<Rightarrow> directory \<Rightarrow> string \<Rightarrow> string option \<Rightarrow> string option \<Rightarrow> string \<Rightarrow> ctx \<Rightarrow> check_request \<Rightarrow> bool" where
  "authorizing D d relation entityType entityTypeParamName entityParamName c req \<longleftrightarrow>
     (\<exists>fctx eid ty tenant user.
        de_field_context D c = Some fctx \<and>
        extractNestedKeyFromArgs (fc_normalized fctx) entityParamName = Inr eid \<and>
        entity_type_of fctx entityType entityTypeParamName = Inr ty \<and>
        GetTenantFromContext c = Inr tenant \<and> user_of c (has_token c) = Inr user \<and>
        store_valid d (''tenant-'' @ tenant) (cr_StoreId req) \<and> model_valid d (''tenant-'' @ tenant) (cr_ModelId req) \<and>
        cr_TupleKey req = \<lparr>tk_Object = ty @ '':'' @ eid, tk_Relation = relation, tk_User = ''user:'' @ SanitizeUserID user\<rparr>)"

text \<open>
  The decision of the directive: what it does before and instead of calling the resolver, obtained with a
  resolver that only returns the context it is called with.
\<close>

definition decision ::
  "'w directive_env \<Rightarrow> 'c string_cache \<Rightarrow> string \<Rightarrow> string option \<Rightarrow> string option \<Rightarrow> string \<Rightarrow>
   ctx \<Rightarrow> 'c \<times> 'w \<Rightarrow> ((goerror + ctx) \<times> 'c \<times> 'w) option" where
  "decision D K = Authorized D K (\<lambda>c s. (Inr c, s))"

lemma Authorized_decision:
  "Authorized D K nextr rel ety etp ep c0 st =
     (case decision D K rel ety etp ep c0 st of
        None \<Rightarrow> None
      | Some (Inl err, st1) \<Rightarrow> Some (Inl err, st1)
      | Some (Inr c1, st1) \<Rightarrow> Some (nextr c1 st1))"
  by (simp add: decision_def Authorized_def Let_def split: option.split sum.split prod.split)

lemma decision_passes:
  assumes "decision D K rel ety etp ep c0 st = Some (Inr c, st1)" and "de_enabled D" and "metadata_frame D"
  obtains S fctx eid ty tenant user sid mid st2 st3 w where "de_service D = Some S"
    "de_field_context D c = Some fctx" "extractNestedKeyFromArgs (fc_normalized fctx) ep = Inr eid"
    "entity_type_of fctx ety etp = Inr ty" "GetTenantFromContext c = Inr tenant" "user_of c (has_token c) = Inr user"
    "GetStoreIDForTenant K S tenant st = (Inr sid, st2)" "GetModelIDForTenant K S tenant st2 = (Inr mid, st3)"
    "svc_Check S \<lparr>cr_StoreId = sid, cr_ModelId = mid, cr_TupleKey =
       \<lparr>tk_Object = ty @ '':'' @ eid, tk_Relation = rel, tk_User = ''user:'' @ SanitizeUserID user\<rparr>\<rparr> (snd st3) = (Inr True, w)"
proof -
  have tok: "has_token (outgoing D c1) = has_token c1" for c1
    using assms(3) by (auto simp: has_token_def outgoing_def metadata_frame_def GetAuthHeaderFromContext_def
        AuthHeaderCtxKey_def split: sum.split)
  show ?thesis
    using assms(1,2) that
    by (auto simp: decision_def Authorized_def Let_def tok split: option.splits sum.splits prod.splits if_splits)
qed

text \<open>
  C19.  Fail closed: when the directive is enabled and does not panic, either it returns an error that
  does not depend on the resolver, which therefore is not called, or it returns what the resolver
  returns, after the service has allowed a check for the entity, the relation, the user and a store
  and model of the tenant of the context.
\<close>

theorem Authorized_fail_closed:
  assumes "de_enabled D" and "metadata_frame D" and "cache_laws K" and "\<forall>S. de_service D = Some S \<longrightarrow> service_laws S d" and "helper_ok K d st"
  shows "(\<forall>nextr :: ('c \<times> 'w, 'r) resolver.
       Authorized D K nextr relation entityType entityTypeParamName entityParamName c0 st = None) \<or>
    (\<exists>err st1. \<forall>nextr :: ('c \<times> 'w, 'r) resolver.
       Authorized D K nextr relation entityType entityTypeParamName entityParamName c0 st = Some (Inl err, st1)) \<or>
    (\<exists>c1 st1 S req. de_service D = Some S \<and> allowed_check S req \<and>
       authorizing D d relation entityType entityTypeParamName entityParamName c1 req \<and>
       (\<forall>nextr :: ('c \<times> 'w, 'r) resolver.
          Authorized D K nextr relation entityType entityTypeParamName entityParamName c0 st = Some (nextr c1 st1)))"
    (is "?panic \<or> ?error \<or> ?ok")
proof (cases "decision D K relation entityType entityTypeParamName entityParamName c0 st")
  case None
  then show ?thesis by (simp add: Authorized_decision)
next
  case (Some r)
  obtain x st1 where r: "r = (x, st1)" by (metis surj_pair)
  show ?thesis
  proof (cases x)
    case (Inl err)
    with Some r show ?thesis by (auto simp: Authorized_decision)
  next
    case (Inr c)
    with Some r have d: "decision D K relation entityType entityTypeParamName entityParamName c0 st = Some (Inr c, st1)"
      by simp
    from decision_passes [OF d assms(1,2)] obtain S fctx eid ty tenant user sid mid st2 st3 w where S: "de_service D = Some S"
      and f: "de_field_context D c = Some fctx" "extractNestedKeyFromArgs (fc_normalized fctx) entityParamName = Inr eid"
        "entity_type_of fctx entityType entityTypeParamName = Inr ty" "GetTenantFromContext c = Inr tenant"
        "user_of c (has_token c) = Inr user"
      and g: "GetStoreIDForTenant K S tenant st = (Inr sid, st2)" and h: "GetModelIDForTenant K S tenant st2 = (Inr mid, st3)"
      and a: "svc_Check S \<lparr>cr_StoreId = sid, cr_ModelId = mid, cr_TupleKey =
         \<lparr>tk_Object = ty @ '':'' @ eid, tk_Relation = relation, tk_User = ''user:'' @ SanitizeUserID user\<rparr>\<rparr> (snd st3) = (Inr True, w)"
      (is "svc_Check S ?req _ = _") .
    note s1 = helpers_sound(1) [OF assms(3) assms(4) [rule_format, OF S] assms(5) g]
    then have "helper_ok K d st2" by blast
    note s2 = helpers_sound(2) [OF assms(3) assms(4) [rule_format, OF S] this h]
    have "authorizing D d relation entityType entityTypeParamName entityParamName c ?req"
      unfolding authorizing_def using f s1 s2 by fastforce
    moreover have "allowed_check S ?req" using a unfolding allowed_check_def by blast
    moreover have "\<forall>nextr :: ('c \<times> 'w, 'r) resolver.
        Authorized D K nextr relation entityType entityTypeParamName entityParamName c0 st = Some (nextr c st1)"
      by (simp add: Authorized_decision d)
    ultimately show ?thesis using S by blast
  qed
qed

text \<open>A user of tenant \<open>a\<close> asking for entity 7, and a resolver that returns a value.\<close>

definition demo_directive :: "nat directive_env" where
  "demo_directive = \<lparr>de_field_context = (\<lambda>c. Some \<lparr>fc_Args = Map.empty,
       fc_normalized = Inr [(''input'', JObj [(''id'', JStr ''7'')])]\<rparr>),
     de_append_metadata = (\<lambda>c k v. c), de_service = Some two_tenants, de_enabled = True\<rparr>"

definition demo_ctx :: ctx where
  "demo_ctx = [TenantIdCtxKey \<mapsto> VString ''a'', AuthHeaderCtxKey \<mapsto> VString ''Bearer x'',
     WebTokenCtxKey \<mapsto> VToken \<lparr>Issuer = ''i'', Subject = ''system:u'', FirstName = [], LastName = [], Audiences = [], Mail = []\<rparr>]"

lemma demo_run:
  "Authorized demo_directive map_cache (\<lambda>c s. (Inr True, s)) ''read'' (Some ''doc'') None ''input.id'' demo_ctx (Map.empty, 0) =
   Some (Inr True, [''tenant-a'' \<mapsto> ''s1'', ''model-a'' \<mapsto> ''s1-m''], 2)"
  by (simp add: Authorized_def demo_directive_def demo_ctx_def setTenantToContextForTechnicalUsers_def
      GetIsTechnicalIssuerFromContext_def GetSpiffeFromContext_def get_string_def has_token_def outgoing_def
      GetAuthHeaderFromContext_def extractNestedKeyFromArgs_def GetTenantFromContext_def entity_type_of_def
      GetStoreIDForTenant_def GetModelIDForTenant_def user_of_def GetWebTokenFromContext_def store_defs ctx_key_defs Let_def)

theorem Authorized_fail_closed_witness:
  "\<exists>c req. allowed_check two_tenants req \<and>
     authorizing demo_directive two_directory ''read'' (Some ''doc'') None ''input.id'' c req"
proof -
  let ?A = "\<lambda>nextr. Authorized demo_directive map_cache nextr ''read'' (Some ''doc'') None ''input.id'' demo_ctx (Map.empty, 0)"
  have "de_enabled demo_directive" "metadata_frame demo_directive"
    "\<forall>S. de_service demo_directive = Some S \<longrightarrow> service_laws S two_directory" "helper_ok map_cache two_directory (Map.empty, 0)"
    using two_tenants_laws by (auto simp: demo_directive_def metadata_frame_def entries_ok_def map_cache_def)
  note F = Authorized_fail_closed [where 'r = bool, OF this(1,2) map_cache_laws this(3,4), of "''read''" "Some ''doc''" None "''input.id''" demo_ctx]
  from F show ?thesis
  proof (elim disjE exE conjE)
    assume "\<forall>nextr. ?A nextr = (None :: ((goerror + bool) \<times> _) option)"
    from this [rule_format, of "\<lambda>c s. (Inr True, s)"] show ?thesis by (simp add: demo_run)
  next
    fix err st1
    assume "\<forall>nextr. ?A nextr = Some (Inl err :: goerror + bool, st1)"
    from this [rule_format, of "\<lambda>c s. (Inr True, s)"] show ?thesis by (simp add: demo_run)
  next
    fix c1 S req
    assume "de_service demo_directive = Some S" "allowed_check S req"
      "authorizing demo_directive two_directory ''read'' (Some ''doc'') None ''input.id'' c1 req"
    then show ?thesis by (auto simp: demo_directive_def)
  qed
qed

text \<open>
  Choosing the tenant: the directive leaves the context alone for a request that has neither the
  technical-issuer flag nor a SPIFFE value; for the others a non-empty string argument \<open>tenantId\<close> becomes
  the tenant, a nil pointer is an error, and nothing else changes the context.
\<close>

theorem setTenantToContext_spec:
  "setTenantToContextForTechnicalUsers D c =
    (if \<not> GetIsTechnicalIssuerFromContext c \<and> (case GetSpiffeFromContext c of Inl _ \<Rightarrow> True | Inr s \<Rightarrow> s = []) then Some (Inr c)
     else map_option (\<lambda>f.
       (case fc_Args f ''tenantId'' of
          Some (ArgStringPtr None) \<Rightarrow> Inl (ErrorString ''tenantId parameter is nil - bad request'')
        | Some (ArgString t) \<Rightarrow> Inr (if t = [] then c else c(TenantIdCtxKey \<mapsto> VString t))
        | Some (ArgStringPtr (Some t)) \<Rightarrow> Inr (if t = [] then c else c(TenantIdCtxKey \<mapsto> VString t))
        | _ \<Rightarrow> Inr c)) (de_field_context D c))"
proof -
  have s: "(case GetSpiffeFromContext c of Inr s \<Rightarrow> s \<noteq> [] | Inl _ \<Rightarrow> False) \<longleftrightarrow>
      \<not> (case GetSpiffeFromContext c of Inl _ \<Rightarrow> True | Inr s \<Rightarrow> s = [])" by (auto split: sum.split)
  show ?thesis
    unfolding setTenantToContextForTechnicalUsers_def Let_def s AddTenantToContext_def WithValue_def
    by (auto split: option.split arg_value.split)
qed

end
