(* ===== verification/Request_Path.thy ===== *)
theory Request_Path
  imports Directive
begin

text \<open>
  A request on its way through the middlewares to a field with the directive \<open>@authorized\<close>: whose
  permissions are checked, and in which tenant, from the headers of the request.
\<close>

section \<open>The handler\<close>

text \<open>
  A service's handler that resolves one such field: a panic of the directive is a panic of the handler;
  the result of the field is not part of the state of the connection.
\<close>

definition field_handler ::
  "'w directive_env \<Rightarrow> 'c string_cache \<Rightarrow> string \<Rightarrow> string option \<Rightarrow> string option \<Rightarrow> string \<Rightarrow>
   ('c \<times> 'w, 'r) resolver \<Rightarrow> ('c \<times> 'w) handler" where
  "field_handler D K relation ety etp ep nextr r s =
     (case Authorized D K nextr relation ety etp ep (req_ctx r) (hworld s) of
        None \<Rightarrow> (Some (PanicValue 0), s)
      | Some (res, st1) \<Rightarrow> (None, s\<lparr>hworld := st1\<rparr>))"

text \<open>A decision against the request does not depend on the resolver.\<close>

lemma undecided:
  assumes "\<nexists>c st1. decision D K relation ety etp ep (req_ctx r) (hworld s) = Some (Inr c, st1)"
  shows "field_handler D K relation ety etp ep nextr r s =
    (case decision D K relation ety etp ep (req_ctx r) (hworld s) of
       Some (_, st1) \<Rightarrow> (None, s\<lparr>hworld := st1\<rparr>) | None \<Rightarrow> (Some (PanicValue 0), s))"
  using assms unfolding field_handler_def Authorized_decision
  by (auto split: option.split sum.split prod.split)

lemma decided:
  assumes "decision D K relation ety etp ep (req_ctx r) (hworld s) = Some (Inr c, st1)"
  shows "field_handler D K relation ety etp ep nextr r s = (None, s\<lparr>hworld := snd (nextr c st1)\<rparr>)"
  using assms unfolding field_handler_def Authorized_decision by (simp split: prod.split)

section \<open>The context\<close>

text \<open>The context the directive passes on differs from its own only in the tenant and the metadata.\<close>

lemma setTenant_frame:
  assumes "setTenantToContextForTechnicalUsers D c = Some (Inr c1)"
  shows "k \<noteq> TenantIdCtxKey \<Longrightarrow> c1 k = c k"
    and "\<not> GetIsTechnicalIssuerFromContext c \<Longrightarrow> GetSpiffeFromContext c = Inl e \<or> GetSpiffeFromContext c = Inr [] \<Longrightarrow> c1 = c"
  using assms
  by (auto simp: setTenantToContextForTechnicalUsers_def AddTenantToContext_def WithValue_def Let_def
      split: if_splits option.splits arg_value.splits)

lemma decision_context:
  assumes "decision D K rel ety etp ep c0 st = Some (Inr c, st1)" and "de_enabled D"
  obtains c1 where "setTenantToContextForTechnicalUsers D c0 = Some (Inr c1)" "c = outgoing D c1"
  using assms that
  by (auto simp: decision_def Authorized_def Let_def split: option.splits sum.splits prod.splits if_splits)

lemma outgoing_frame: "metadata_frame D \<Longrightarrow> outgoing D c (ContextKey n) = c (ContextKey n)"
  by (simp add: outgoing_def metadata_frame_def split: sum.split)

text \<open>The request whose context is new: nothing in it speaks for a user.\<close>

definition fresh_context :: "ctx \<Rightarrow> bool" where
  "fresh_context c \<longleftrightarrow> c WebTokenCtxKey = None \<and> c AuthHeaderCtxKey = None \<and> c SpiffeCtxKey = None \<and>
     c TechnicalUserCtxKey = None"

lemma enriched_keys:
  assumes "extract_frame E" and "fresh_context (req_ctx r)"
  shows "enriched E log True r rid WebTokenCtxKey = map_option VToken (bearer_token E r)"
    and "enriched E log True r rid AuthHeaderCtxKey =
      (let a = header_get (req_Header r) AuthorizationHeader in if a = [] then None else Some (VString a))"
    and "enriched E log True r rid SpiffeCtxKey = map_option VString (GetSpiffeUrlValue (req_Header r))"
    and "enriched E log True r rid TechnicalUserCtxKey = None"
    and "enriched E log True r rid TenantIdCtxKey = req_ctx r TenantIdCtxKey"
proof -
  have "we_extract E c h (ContextKey n) = c (ContextKey n)" for c h n
    using assms(1) unfolding extract_frame_def by blast
  note keys = this ctx_key_defs assms(2) [unfolded fresh_context_def ctx_key_defs]
  show "enriched E log True r rid WebTokenCtxKey = map_option VToken (bearer_token E r)"
    "enriched E log True r rid AuthHeaderCtxKey =
      (let a = header_get (req_Header r) AuthorizationHeader in if a = [] then None else Some (VString a))"
    "enriched E log True r rid SpiffeCtxKey = map_option VString (GetSpiffeUrlValue (req_Header r))"
    "enriched E log True r rid TechnicalUserCtxKey = None"
    "enriched E log True r rid TenantIdCtxKey = req_ctx r TenantIdCtxKey"
    by (simp_all add: enriched_def keys Let_def split: option.split)
qed

section \<open>Whose request\<close>

text \<open>
  The user a request speaks for: the subject of its bearer token when it has an \<open>Authorization\<close> header, else
  the SPIFFE identity of its client certificate.
\<close>

definition sender :: "'w web_env \<Rightarrow> http_request \<Rightarrow> string option" where
  "sender E r =
     (if header_get (req_Header r) AuthorizationHeader \<noteq> [] then map_option Subject (bearer_token E r)
      else map_option (\<lambda>u. trimPrefix u ''spiffe://'') (GetSpiffeUrlValue (req_Header r)))"

lemma user_of_sender:
  assumes "extract_frame E" "metadata_frame D" "fresh_context (req_ctx r)"
    and "setTenantToContextForTechnicalUsers D (enriched E log True r rid) = Some (Inr c1)"
    and "user_of (outgoing D c1) (has_token (outgoing D c1)) = Inr user"
  shows "sender E r = Some user"
proof -
  have k: "outgoing D c1 (ContextKey n) = enriched E log True r rid (ContextKey n)" if "ContextKey n \<noteq> TenantIdCtxKey" for n
    using outgoing_frame [OF assms(2)] setTenant_frame(1) [OF assms(4)] that by simp
  have v: "outgoing D c1 WebTokenCtxKey = map_option VToken (bearer_token E r)"
    "outgoing D c1 AuthHeaderCtxKey =
      (let a = header_get (req_Header r) AuthorizationHeader in if a = [] then None else Some (VString a))"
    "outgoing D c1 SpiffeCtxKey = map_option VString (GetSpiffeUrlValue (req_Header r))"
    using k [of "''webToken''"] k [of "''authHeader''"] k [of "''spiffe''"] enriched_keys(1-3) [OF assms(1,3), of log rid]
    by (simp_all add: ctx_key_defs)
  then show ?thesis using assms(5)
    by (auto simp: sender_def user_of_def has_token_def GetAuthHeaderFromContext_def GetWebTokenFromContext_def
        GetSpiffeFromContext_def get_string_def Let_def split: option.splits if_splits sum.splits)
qed

lemma tenant_of_context:
  assumes "extract_frame E" "metadata_frame D" "fresh_context (req_ctx r)"
    and "setTenantToContextForTechnicalUsers D (enriched E log True r rid) = Some (Inr c1)"
    and "GetSpiffeUrlValue (req_Header r) = None"
  shows "outgoing D c1 TenantIdCtxKey = req_ctx r TenantIdCtxKey"
proof -
  note e = enriched_keys [OF assms(1,3), of log rid]
  have "c1 = enriched E log True r rid"
    using setTenant_frame(2) [OF assms(4), of "wrong_value ''spiffe'' None ''string''"] e(3,4) assms(5)
    by (simp add: GetIsTechnicalIssuerFromContext_def GetSpiffeFromContext_def get_string_def)
  then show ?thesis using e(5) outgoing_frame [OF assms(2)] by (simp add: TenantIdCtxKey_def)
qed

text \<open>A request that the directive lets through has been checked: for whom and in which store.\<close>

lemma enriched_checked:
  assumes "extract_frame E" "metadata_frame D" "fresh_context (req_ctx r)" "de_enabled D"
    and "decision D K relation ety etp ep (enriched E log True r rid) st = Some (Inr c, st1)"
  obtains S tenant req user w w1 st2 where "de_service D = Some S" "svc_Check S req w = (Inr True, w1)"
    "sender E r = Some user" "tk_User (cr_TupleKey req) = ''user:'' @ SanitizeUserID user"
    "GetStoreIDForTenant K S tenant st = (Inr (cr_StoreId req), st2)"
    "GetSpiffeUrlValue (req_Header r) = None \<longrightarrow> GetTenantFromContext (req_ctx r) = Inr tenant"
proof -
  from decision_context [OF assms(5,4)] obtain c1 where
    c1: "setTenantToContextForTechnicalUsers D (enriched E log True r rid) = Some (Inr c1)" "c = outgoing D c1" .
  from decision_passes [OF assms(5,4,2)] obtain S fctx eid ty tenant user sid mid st2 st3 w where S: "de_service D = Some S"
    and "de_field_context D c = Some fctx" "extractNestedKeyFromArgs (fc_normalized fctx) ep = Inr eid"
      "entity_type_of fctx ety etp = Inr ty"
    and t: "GetTenantFromContext c = Inr tenant" and u: "user_of c (has_token c) = Inr user"
    and sid: "GetStoreIDForTenant K S tenant st = (Inr sid, st2)"
    and "GetModelIDForTenant K S tenant st2 = (Inr mid, st3)"
    and a: "svc_Check S \<lparr>cr_StoreId = sid, cr_ModelId = mid, cr_TupleKey =
       \<lparr>tk_Object = ty @ '':'' @ eid, tk_Relation = relation, tk_User = ''user:'' @ SanitizeUserID user\<rparr>\<rparr> (snd st3) = (Inr True, w)"
    (is "svc_Check S ?req _ = _") .
  have "sender E r = Some user" using user_of_sender [OF assms(1-3) c1(1)] u c1(2) by simp
  moreover have "GetSpiffeUrlValue (req_Header r) = None \<longrightarrow> GetTenantFromContext (req_ctx r) = Inr tenant"
    using tenant_of_context [OF assms(1-3) c1(1)] c1(2) t by (auto simp: GetTenantFromContext_def get_string_def)
  ultimately show ?thesis using that [of S ?req "snd st3" w user tenant st2] S a sid by simp
qed

text \<open>The handler behind the middlewares.\<close>

lemma chain_field_handler:
  assumes "request_id E r s = (rid, s1)" "\<not> null_token E r"
  shows "chain (CreateMiddleware E log True) (field_handler D K relation ety etp ep nextr) r s =
      SentryRecoverer (\<lambda>r' s'. field_handler D K relation ety etp ep nextr (WithContext r (enriched E log True r rid)) s1) r s"
  using chain_unguarded [OF _ assms(1)] assms(2) by simp

lemma chain_null_token:
  assumes "null_token E r"
  shows "\<exists>x. \<forall>nextr. chain (CreateMiddleware E log True) (field_handler D K relation ety etp ep nextr) r s = x"
  unfolding null_token_answered [OF assms] by simp

lemma chain_undecided:
  assumes "request_id E r s = (rid, s1)" "\<not> null_token E r"
    and "\<nexists>c st1. decision D K relation ety etp ep (enriched E log True r rid) (hworld s1) = Some (Inr c, st1)"
  shows "\<exists>x. \<forall>nextr. chain (CreateMiddleware E log True) (field_handler D K relation ety etp ep nextr) r s = x"
proof -
  have "\<nexists>c st1. decision D K relation ety etp ep (req_ctx (WithContext r (enriched E log True r rid))) (hworld s1) = Some (Inr c, st1)"
    using assms(3) by simp
  note no = undecided [OF this]
  show ?thesis unfolding chain_field_handler [OF assms(1,2)] no by simp
qed

lemma chain_decided:
  assumes "request_id E r s = (rid, s1)" "\<not> null_token E r"
    and "decision D K relation ety etp ep (enriched E log True r rid) (hworld s1) = Some (Inr c, st1)"
  shows "chain (CreateMiddleware E log True) (field_handler D K relation ety etp ep nextr) r s =
      (None, s1\<lparr>hworld := snd (nextr c st1)\<rparr>)"
proof -
  have d: "decision D K relation ety etp ep (req_ctx (WithContext r (enriched E log True r rid))) (hworld s1) = Some (Inr c, st1)"
    using assms(3) by simp
  show ?thesis unfolding chain_field_handler [OF assms(1,2)] SentryRecoverer_def decided [OF d] by simp
qed

text \<open>
  C20.  From the headers to the check: a request that reaches, through the middlewares, a field protected by
  the directive either has an outcome that does not depend on the resolver, or the resolver is called once,
  after the service has allowed a check for the request's own sender: the subject of its bearer token when
  it has an \<open>Authorization\<close> header, whatever else it sends, and the identity of its certificate only when it
  has none.  The check is made in the store of one tenant, and without a SPIFFE header that tenant is the one
  the context came with: the headers and the arguments of such a request cannot choose it.
\<close>

theorem request_checked_for_sender:
  assumes "extract_frame E" "metadata_frame D" "fresh_context (req_ctx r)" "de_enabled D"
  shows "(\<exists>x. \<forall>nextr :: ('c \<times> 'w, 'r) resolver.
       chain (CreateMiddleware E log True) (field_handler D K relation ety etp ep nextr) r s = x) \<or>
    (\<exists>c st1 s1 S tenant req user w w1 st2. de_service D = Some S \<and> svc_Check S req w = (Inr True, w1) \<and>
       sender E r = Some user \<and> tk_User (cr_TupleKey req) = ''user:'' @ SanitizeUserID user \<and>
       GetStoreIDForTenant K S tenant (hworld s1) = (Inr (cr_StoreId req), st2) \<and>
       (GetSpiffeUrlValue (req_Header r) = None \<longrightarrow> GetTenantFromContext (req_ctx r) = Inr tenant) \<and>
       (\<forall>nextr :: ('c \<times> 'w, 'r) resolver.
          chain (CreateMiddleware E log True) (field_handler D K relation ety etp ep nextr) r s =
            (None, s1\<lparr>hworld := snd (nextr c st1)\<rparr>)))"
proof -
  obtain rid s1 where id: "request_id E r s = (rid, s1)" by fastforce
  let ?d = "decision D K relation ety etp ep (enriched E log True r rid) (hworld s1)"
  consider "null_token E r" | "\<not> null_token E r" "\<nexists>c st1. ?d = Some (Inr c, st1)"
    | c st1 where "\<not> null_token E r" "?d = Some (Inr c, st1)" by blast
  then show ?thesis
  proof cases
    case 1
    from chain_null_token [OF this] show ?thesis by (rule disjI1)
  next
    case 2
    from chain_undecided [OF id this] show ?thesis by (rule disjI1)
  next
    case (3 c st1)
    note d = 3(2)
    note reached = allI [OF chain_decided [OF id 3]]
    from enriched_checked [OF assms d] obtain S tenant req user w w1 st2 where
      checked: "de_service D = Some S" "svc_Check S req w = (Inr True, w1)" "sender E r = Some user"
      "tk_User (cr_TupleKey req) = ''user:'' @ SanitizeUserID user"
      "GetStoreIDForTenant K S tenant (hworld s1) = (Inr (cr_StoreId req), st2)"
      "GetSpiffeUrlValue (req_Header r) = None \<longrightarrow> GetTenantFromContext (req_ctx r) = Inr tenant" .
    show ?thesis by (intro disjI2 exI conjI) (rule checked reached)+
  qed
qed

text \<open>A request of tenant \<open>a\<close> with a bearer token, and a token parser that reads any token as the user \<open>u\<close>.\<close>

definition token_env :: "((string \<rightharpoonup> string) \<times> nat) web_env" where
  "token_env = \<lparr>we_extract = (\<lambda>c h. c), we_uuid = (\<lambda>w. (''rid'', w)),
     we_ParseSigned = (\<lambda>t a. Inr t),
     we_Claims = (\<lambda>p. Inr (Some \<lparr>Issuer = ''i'', Subject = ''u'', RawAudiences = JNull, RawEmail = [], RawMail = [],
       RawGivenName = [], RawFamilyName = [], RawFirstName = [], RawLastName = []\<rparr>)),
     we_std_logger = \<lparr>log_level = 0, log_fields = []\<rparr>\<rparr>"

definition bearer_request :: http_request where
  "bearer_request = \<lparr>req_Header = (\<lambda>k. if k = ''Authorization'' then [''Bearer x''] else []),
     req_ctx = [TenantIdCtxKey \<mapsto> VString ''a'']\<rparr>"

abbreviation bearer_context :: ctx where "bearer_context \<equiv> enriched token_env None True bearer_request ''rid''"

lemma bearer_id: "request_id token_env bearer_request s = (''rid'', s)"
  by (simp add: request_id_def bearer_request_def token_env_def requestIdHeader_def)

lemma bearer_scheme: "equalFold ''Bearer'' tokenAuthPrefix" "str_fields ''Bearer x'' = [''Bearer'', ''x'']"
  by code_simp+

lemma bearer_keys:
  "extract_frame token_env" "fresh_context (req_ctx bearer_request)" "GetSpiffeUrlValue (req_Header bearer_request) = None"
  "bearer_token token_env bearer_request =
    Some \<lparr>Issuer = ''i'', Subject = ''u'', FirstName = [], LastName = [], Audiences = [], Mail = []\<rparr>"
  "\<not> null_token token_env bearer_request"
  by (simp_all add: null_token_def New_token_def getFirstName_def getLastName_def getMail_def getAudiences_def
      trimSpace_def Let_def extract_frame_def token_env_def fresh_context_def bearer_request_def ctx_key_defs
      GetSpiffeUrlValue_def header_get_def HeaderSpiffeValue_def GetURIValue_def bearer_token_def
      AuthorizationHeader_def bearer_scheme)

lemma bearer_decision:
  "decision demo_directive map_cache ''read'' (Some ''doc'') None ''input.id'' bearer_context (Map.empty, 0) =
   Some (Inr bearer_context, [''tenant-a'' \<mapsto> ''s1'', ''model-a'' \<mapsto> ''s1-m''], 2)"
proof -
  note e = enriched_keys [OF bearer_keys(1,2), of None "''rid''"] bearer_keys(3,4)
  have "header_get (req_Header bearer_request) AuthorizationHeader = ''Bearer x''"
    "req_ctx bearer_request TenantIdCtxKey = Some (VString ''a'')"
    by (simp_all add: bearer_request_def header_get_def AuthorizationHeader_def)
  note e = e this
  show ?thesis
    by (simp add: e decision_def Authorized_def demo_directive_def setTenantToContextForTechnicalUsers_def
        GetIsTechnicalIssuerFromContext_def GetSpiffeFromContext_def get_string_def has_token_def outgoing_def
        GetAuthHeaderFromContext_def extractNestedKeyFromArgs_def GetTenantFromContext_def entity_type_of_def
        GetStoreIDForTenant_def GetModelIDForTenant_def user_of_def GetWebTokenFromContext_def store_defs Let_def)
qed

theorem request_checked_for_sender_witness:
  "\<exists>req w w1. svc_Check two_tenants req w = (Inr True, w1) \<and> sender token_env bearer_request = Some ''u'' \<and>
     tk_User (cr_TupleKey req) = ''user:'' @ SanitizeUserID ''u''"
proof -
  let ?s = "\<lparr>written = [], recovered = [], hworld = (Map.empty :: string \<rightharpoonup> string, 0 :: nat)\<rparr>"
  let ?run = "\<lambda>nextr. chain (CreateMiddleware token_env None True)
    (field_handler demo_directive map_cache ''read'' (Some ''doc'') None ''input.id'' nextr) bearer_request ?s"
  let ?R = "\<lambda>n (c :: ctx) (st :: (string \<rightharpoonup> string) \<times> nat). (Inr True :: goerror + bool, (fst st, n))"
  have d: "decision demo_directive map_cache ''read'' (Some ''doc'') None ''input.id''
      (req_ctx (WithContext bearer_request bearer_context)) (hworld ?s) =
    Some (Inr bearer_context, [''tenant-a'' \<mapsto> ''s1'', ''model-a'' \<mapsto> ''s1-m''], 2)"
    using bearer_decision by simp
  have run: "snd (hworld (snd (?run (?R n)))) = n" for n
    unfolding chain_unguarded [OF _ bearer_id, of True, simplified, OF bearer_keys(5)] SentryRecoverer_def
    by (simp add: decided [OF d])
  have "metadata_frame demo_directive" "de_enabled demo_directive"
    by (simp_all add: metadata_frame_def demo_directive_def)
  from request_checked_for_sender [where 'r = bool, OF bearer_keys(1) this(1) bearer_keys(2) this(2),
      of None map_cache "''read''" "Some ''doc''" None "''input.id''" ?s]
  show ?thesis
  proof (elim disjE exE conjE)
    fix x
    assume "\<forall>nextr :: ((string \<rightharpoonup> string) \<times> nat, bool) resolver. ?run nextr = x"
    then have "?run (?R 0) = x" "?run (?R 1) = x" by blast+
    with run [of 0] run [of 1] show ?thesis by simp
  next
    fix S tenant req user w w1 c st1 st2 and s1 :: "((string \<rightharpoonup> string) \<times> nat) http_state"
    assume "de_service demo_directive = Some S" "svc_Check S req w = (Inr True, w1)"
      "sender token_env bearer_request = Some user" "tk_User (cr_TupleKey req) = ''user:'' @ SanitizeUserID user"
      "GetStoreIDForTenant map_cache S tenant (hworld s1) = (Inr (cr_StoreId req), st2)"
      "GetSpiffeUrlValue (req_Header bearer_request) = None \<longrightarrow> GetTenantFromContext (req_ctx bearer_request) = Inr tenant"
    moreover have "sender token_env bearer_request = Some ''u''"
      using bearer_keys(4) by (simp add: sender_def bearer_request_def header_get_def AuthorizationHeader_def)
    ultimately show ?thesis by (auto simp: demo_directive_def)
  qed
qed

end
