(* ===== verification/Oauth.thy ===== *)
theory Oauth
  imports Prelude
begin

text \<open>
  The Kubernetes token source, \<open>oauth/kubernetes_source.go\<close>.  The HTTP client is a parameter: building it
  from the rest configuration may fail, and a post returns the decoded response or an error.
\<close>

record token_source_config =
  Audiences_of :: "string list"
  ServiceAccount_Namespace :: string
  ServiceAccount_Name :: string
  TokenExpiration :: duration

definition ErrTokenExpirationOutOfRange :: goerror where
  "ErrTokenExpirationOutOfRange =
     ErrorString ''the KubernetesTokenSourceConfig.TokenExpiration needs to be at least 10m''"

definition ErrServiceAccountMissing :: goerror where
  "ErrServiceAccountMissing = ErrorString ''make sure the ServiceAccount property is set''"

text \<open>A posted token request, and the status of the answer.\<close>

record token_request =
  tr_Audiences :: "string list"
  tr_ExpirationSeconds :: int

record token_status =
  st_Token :: string
  st_ExpirationTimestamp :: gotime

type_synonym 'w http_post = "string \<Rightarrow> string \<Rightarrow> token_request \<Rightarrow> 'w \<Rightarrow> (goerror + token_status) \<times> 'w"

record 'w kubernetesTokenSource =
  k8s :: "'w http_post"
  ks_audiences :: "string list"
  ks_namespace :: string
  ks_serviceAccountName :: string
  ks_host :: string
  ks_tokenExpiration :: int

text \<open>
  \<open>int64(d.Seconds())\<close>: whole seconds, towards zero (a \<open>float64\<close> holds them exactly for the first half
  year; beyond it the last nanosecond of a second may be rounded up).  The options are changed through the pointer; they
  are returned beside the result.
\<close>

definition NewKubernetesTokenSource ::
  "(goerror + 'w http_post) \<Rightarrow> string \<Rightarrow> token_source_config \<Rightarrow>
   (goerror + 'w kubernetesTokenSource) \<times> token_source_config" where
  "NewKubernetesTokenSource clientFor host opts =
     (if ServiceAccount_Name opts = [] \<or> ServiceAccount_Namespace opts = [] then (Inl ErrServiceAccountMissing, opts)
      else
        let opts1 = (if TokenExpiration opts = 0 then opts\<lparr>TokenExpiration := 1 * Hour\<rparr> else opts)
        in if TokenExpiration opts1 < 10 * Minute then (Inl ErrTokenExpirationOutOfRange, opts1)
           else (case clientFor of
             Inl err \<Rightarrow> (Inl err, opts1)
           | Inr client \<Rightarrow> (Inr \<lparr>k8s = client, ks_audiences = Audiences_of opts1,
               ks_namespace = ServiceAccount_Namespace opts1, ks_serviceAccountName = ServiceAccount_Name opts1,
               ks_host = host, ks_tokenExpiration = go_quot (TokenExpiration opts1) Second\<rparr>, opts1)))"

record oauth_token =
  AccessToken :: string
  Expiry :: gotime

definition Token :: "'w kubernetesTokenSource \<Rightarrow> 'w \<Rightarrow> (goerror + oauth_token) \<times> 'w" where
  "Token k w =
     (case k8s k (ks_host k @ ''/api/v1/namespaces/'' @ ks_namespace k @ ''/serviceaccounts/'' @
          ks_serviceAccountName k @ ''/token'') ''application/json''
        \<lparr>tr_Audiences = ks_audiences k, tr_ExpirationSeconds = ks_tokenExpiration k\<rparr> w of
        (Inl err, w1) \<Rightarrow> (Inl err, w1)
      | (Inr token, w1) \<Rightarrow> (Inr \<lparr>AccessToken = st_Token token, Expiry = st_ExpirationTimestamp token\<rparr>, w1))"

text \<open>
  Token source: it is made exactly when the service account has a namespace and a name, the
  expiration is 0 or at least ten minutes, and the client can be built; then every token it requests
  is for this service account, these audiences and at least 600 seconds, 3600 by default.
\<close>

theorem NewKubernetesTokenSource_spec:
  "case fst (NewKubernetesTokenSource clientFor host opts) of
     Inl err \<Rightarrow> ServiceAccount_Name opts = [] \<or> ServiceAccount_Namespace opts = [] \<or>
       TokenExpiration opts \<in> {..< 10 * Minute} - {0} \<or> clientFor = Inl err
   | Inr k \<Rightarrow> ServiceAccount_Name opts \<noteq> [] \<and> ServiceAccount_Namespace opts \<noteq> [] \<and>
       (TokenExpiration opts = 0 \<or> 10 * Minute \<le> TokenExpiration opts) \<and>
       (\<exists>post. clientFor = Inr post \<and>
         (\<forall>w. Token k w = (let (r, w1) = post (host @ ''/api/v1/namespaces/'' @ ServiceAccount_Namespace opts @
               ''/serviceaccounts/'' @ ServiceAccount_Name opts @ ''/token'') ''application/json''
             \<lparr>tr_Audiences = Audiences_of opts, tr_ExpirationSeconds = ks_tokenExpiration k\<rparr> w
           in (map_sum id (\<lambda>t. \<lparr>AccessToken = st_Token t, Expiry = st_ExpirationTimestamp t\<rparr>) r, w1)))) \<and>
       600 \<le> ks_tokenExpiration k \<and>
       ks_tokenExpiration k = (if TokenExpiration opts = 0 then 3600 else TokenExpiration opts div Second)"
proof (cases "fst (NewKubernetesTokenSource clientFor host opts)")
  case (Inl err)
  then show ?thesis by (auto simp: NewKubernetesTokenSource_def Let_def split: if_splits sum.splits)
next
  case (Inr k)
  then obtain post where p: "clientFor = Inr post"
    by (auto simp: NewKubernetesTokenSource_def Let_def split: if_splits sum.splits)
  have q: "10 * Minute \<le> d \<Longrightarrow> 600 \<le> d div Second" for d :: int by simp
  have tok: "Token k w = (let (r, w1) = k8s k (ks_host k @ ''/api/v1/namespaces/'' @ ks_namespace k @ ''/serviceaccounts/'' @
          ks_serviceAccountName k @ ''/token'') ''application/json''
        \<lparr>tr_Audiences = ks_audiences k, tr_ExpirationSeconds = ks_tokenExpiration k\<rparr> w
      in (map_sum id (\<lambda>t. \<lparr>AccessToken = st_Token t, Expiry = st_ExpirationTimestamp t\<rparr>) r, w1))" for w
    by (auto simp: Token_def split: prod.split sum.split)
  from Inr p q show ?thesis
    by (auto simp: NewKubernetesTokenSource_def Let_def tok go_quot_nonneg split: if_splits)
qed

end
