(* ===== verification/Retry.thy ===== *)
theory Retry
  imports Api
begin

text \<open>
  Retrying API calls: the classification of errors (\<open>controller/errors/retry.go\<close>) and the read-adjust-write
  loops (\<open>controller/client/retry.go\<close>).  client-go's \<open>RetryOnConflict\<close> and apimachinery's predicates
  are parameters.
\<close>

section \<open>Classification\<close>

record error_classes =
  SuggestsClientDelay :: "goerror option \<Rightarrow> int \<times> bool"
  IsInternalError :: "goerror option \<Rightarrow> bool"
  IsServiceUnavailable :: "goerror option \<Rightarrow> bool"
  IsConflict_err :: "goerror option \<Rightarrow> bool"

text \<open>The product of the delay is a 64-bit one; the delay is a small number of seconds.\<close>

definition IsRetriable :: "error_classes \<Rightarrow> goerror option \<Rightarrow> bool \<times> ctrl_result" where
  "IsRetriable C err =
     (let (delay, ok) = SuggestsClientDelay C err
      in if ok then (True, \<lparr>RequeueAfter = delay * Second\<rparr>)
         else if IsInternalError C err \<or> IsServiceUnavailable C err \<or> IsConflict_err C err
         then (True, \<lparr>RequeueAfter = 0\<rparr>)
         else (False, \<lparr>RequeueAfter = 0\<rparr>))"

section \<open>Read, adjust, write\<close>

text \<open>
  The client on objects \<open>'o\<close>, which it gets by pointer: a get fills the object with what the server has
  (its key is read from the object), an update writes the object and fills it with the server's answer.
  Each call returns the error, the object as it is afterwards, and the world.
\<close>

record ('o, 'w) object_client =
  oc_Get :: "'o \<Rightarrow> 'w \<Rightarrow> goerror option \<times> 'o \<times> 'w"
  oc_Update :: "'o \<Rightarrow> 'w \<Rightarrow> goerror option \<times> 'o \<times> 'w"
  oc_StatusUpdate :: "'o \<Rightarrow> 'w \<Rightarrow> goerror option \<times> 'o \<times> 'w"

text \<open>
  \<open>UpdateFunc\<close>: it is handed the pointer and returns one.  Either it changes the object in place and
  returns the same pointer, or it returns another object, with the first one as it leaves it.
\<close>

datatype 'o adjusted = InPlace 'o | Another 'o 'o

type_synonym 'o update_func = "'o \<Rightarrow> 'o adjusted"

fun returned :: "'o adjusted \<Rightarrow> 'o" where
  "returned (InPlace ob) = ob"
| "returned (Another ob other) = other"

text \<open>The object behind the caller's pointer once the returned object has been filled with \<open>answer\<close>.\<close>

fun behind :: "'o adjusted \<Rightarrow> 'o \<Rightarrow> 'o" where
  "behind (InPlace ob) answer = answer"
| "behind (Another ob other) answer = ob"

record backoff =
  bo_Duration :: duration
  bo_Factor :: int
  bo_Steps :: nat

definition defaultBackoff :: backoff where
  "defaultBackoff = \<lparr>bo_Duration = 500 * 1000000, bo_Factor = 2, bo_Steps = 5\<rparr>"

type_synonym ('o, 'w) operation = "'o \<times> 'w \<Rightarrow> goerror option \<times> 'o \<times> 'w"
type_synonym ('o, 'w) retrier = "backoff \<Rightarrow> ('o, 'w) operation \<Rightarrow> ('o, 'w) operation"

definition update_operation :: "('o, 'w) object_client \<Rightarrow> 'o update_func \<Rightarrow> ('o, 'w) operation" where
  "update_operation cl adjust st =
     (case oc_Get cl (fst st) (snd st) of
        (Some err, o1, w1) \<Rightarrow> (Some err, o1, w1)
      | (None, o1, w1) \<Rightarrow>
          (let (err, answer, w2) = oc_Update cl (returned (adjust o1)) w1
           in (err, behind (adjust o1) answer, w2)))"

definition status_operation :: "('o, 'w) object_client \<Rightarrow> 'o update_func \<Rightarrow> ('o, 'w) operation" where
  "status_operation cl adjust st =
     (case oc_Get cl (fst st) (snd st) of
        (Some err, o1, w1) \<Rightarrow> (Some err, o1, w1)
      | (None, o1, w1) \<Rightarrow>
          (let (err, answer, w2) = oc_StatusUpdate cl (returned (adjust o1)) w1
           in (err, behind (adjust o1) answer, w2)))"

definition RetryUpdate ::
  "('o, 'w) retrier \<Rightarrow> 'o update_func \<Rightarrow> ('o, 'w) object_client \<Rightarrow> ('o, 'w) operation" where
  "RetryUpdate RetryOnConflict adjust cl = RetryOnConflict defaultBackoff (update_operation cl adjust)"

definition RetryStatusUpdate ::
  "('o, 'w) retrier \<Rightarrow> 'o update_func \<Rightarrow> ('o, 'w) object_client \<Rightarrow> ('o, 'w) operation" where
  "RetryStatusUpdate RetryOnConflict adjust cl = RetryOnConflict defaultBackoff (status_operation cl adjust)"

section \<open>Properties\<close>

text \<open>
  What the documentation of \<open>RetryOnConflict\<close> promises: the operation is run up to \<open>Steps\<close> times, again
  only after a conflict, and the last error is returned.
\<close>

fun attempts :: "(goerror \<Rightarrow> bool) \<Rightarrow> nat \<Rightarrow> ('o, 'w) operation \<Rightarrow> 'o \<times> 'w \<Rightarrow> (goerror option \<times> 'o \<times> 'w) list" where
  "attempts conflict 0 f st = []"
| "attempts conflict (Suc n) f st =
     (let r = f st in r # (case fst r of
        Some e \<Rightarrow> if conflict e then attempts conflict n f (snd r) else []
      | None \<Rightarrow> []))"

definition retry_laws :: "(goerror \<Rightarrow> bool) \<Rightarrow> ('o, 'w) retrier \<Rightarrow> bool" where
  "retry_laws conflict R \<longleftrightarrow> (\<forall>b f st. 0 < bo_Steps b \<longrightarrow> R b f st = last (attempts conflict (bo_Steps b) f st))"

lemma attempts_length: "length (attempts conflict n f st) \<le> n"
  by (induction n arbitrary: st) (auto simp: Let_def split: option.split)

lemma attempts_Suc:
  "\<not> (\<exists>e. fst (f st) = Some e \<and> conflict e) \<Longrightarrow> attempts conflict (Suc n) f st = [f st]"
  "fst (f st) = Some e \<Longrightarrow> conflict e \<Longrightarrow> attempts conflict (Suc n) f st = f st # attempts conflict n f (snd (f st))"
  by (auto simp: Let_def split: option.split)

lemma attempts_nonempty: "0 < n \<Longrightarrow> attempts conflict n f st \<noteq> []"
  by (cases n) (simp_all add: Let_def)

text \<open>
  The attempts are chained through the object behind the pointer: each starts from what the one before
  left.  All but the last ended in a conflict, and so did the last when all were used up.
\<close>

lemma attempts_spec:
  assumes "0 < n"
  shows "last (attempts conflict n f st) = f (last (st # map snd (butlast (attempts conflict n f st)))) \<and>
    (\<forall>a \<in> set (butlast (attempts conflict n f st)). \<exists>e. fst a = Some e \<and> conflict e) \<and>
    (\<forall>e. fst (last (attempts conflict n f st)) = Some e \<longrightarrow> conflict e \<longrightarrow> length (attempts conflict n f st) = n)"
  using assms
proof (induction n arbitrary: st)
  case (Suc n)
  show ?case
  proof (cases "\<exists>e. fst (f st) = Some e \<and> conflict e")
    case False
    then have "attempts conflict (Suc n) f st = [f st]" by (rule attempts_Suc(1))
    with False show ?thesis by (auto simp del: attempts.simps split_paired_Ex)
  next
    case True
    then obtain e where e: "fst (f st) = Some e" "conflict e" by blast
    note a = attempts_Suc(2) [of f st e conflict n, OF e]
    show ?thesis
    proof (cases "n = 0")
      case True
      with a have "attempts conflict (Suc n) f st = [f st]" by (simp del: attempts.simps(2))
      with True show ?thesis by (auto simp del: attempts.simps split_paired_Ex)
    next
      case False
      then have ne: "attempts conflict n f (snd (f st)) \<noteq> []" by (intro attempts_nonempty) simp
      have "last (st # map snd (butlast (f st # attempts conflict n f (snd (f st))))) =
          last (snd (f st) # map snd (butlast (attempts conflict n f (snd (f st)))))"
        using ne by simp
      with Suc.IH [of "snd (f st)"] False e ne show ?thesis unfolding a by simp
    qed
  qed
qed simp

text \<open>
  C29.  No lost update: let \<open>as\<close> be the attempts \<open>RetryUpdate\<close> makes on the object behind \<open>obj\<close>.  There
  are one to five, all but the last ended in a conflict, and a conflict is only returned after five.
  The last starts from the object and the world the attempts before have left; when it returns no error
  it has read an object \<open>o1\<close> from the server and written what the adjustment made of exactly \<open>o1\<close>, and the
  caller's object is then the server's answer (or, when the adjustment returned another object, its own object as
  the adjustment left it).
\<close>

theorem RetryUpdate_spec:
  assumes "retry_laws conflict R"
  shows "\<exists>as o0 w0. as = attempts conflict 5 (update_operation cl adjust) st \<and> as \<noteq> [] \<and> length as \<le> 5 \<and>
    (\<forall>a \<in> set (butlast as). \<exists>e. fst a = Some e \<and> conflict e) \<and>
    RetryUpdate R adjust cl st = last as \<and> (o0, w0) = last (st # map snd (butlast as)) \<and>
    (case RetryUpdate R adjust cl st of
       (None, ob, w2) \<Rightarrow> \<exists>o1 w1 answer. oc_Get cl o0 w0 = (None, o1, w1) \<and>
         oc_Update cl (returned (adjust o1)) w1 = (None, answer, w2) \<and> ob = behind (adjust o1) answer
     | (Some e, _, _) \<Rightarrow> conflict e \<longrightarrow> length as = 5)"
proof -
  let ?f = "update_operation cl adjust"
  let ?as = "attempts conflict 5 ?f st"
  obtain o0 w0 where s0: "(o0, w0) = last (st # map snd (butlast ?as))" by (metis surj_pair)
  have l: "RetryUpdate R adjust cl st = last ?as"
    using assms by (simp add: retry_laws_def RetryUpdate_def defaultBackoff_def del: split_paired_All)
  note spec = attempts_spec [of 5 conflict ?f st, simplified]
  then have f: "last ?as = ?f (o0, w0)" using s0 by simp
  have "case last ?as of
       (None, ob, w2) \<Rightarrow> \<exists>o1 w1 answer. oc_Get cl o0 w0 = (None, o1, w1) \<and>
         oc_Update cl (returned (adjust o1)) w1 = (None, answer, w2) \<and> ob = behind (adjust o1) answer
     | (Some e, _, _) \<Rightarrow> conflict e \<longrightarrow> length ?as = 5"
  proof (cases "last ?as")
    case (fields err ob w2)
    show ?thesis
    proof (cases err)
      case None
      with fields f show ?thesis by (auto simp: update_operation_def Let_def split: prod.splits option.splits)
    next
      case (Some e)
      with fields spec show ?thesis by simp
    qed
  qed
  then show ?thesis
    using s0 l spec attempts_length [of conflict 5 ?f st] attempts_nonempty [of 5 conflict ?f st]
    by (intro exI [of _ ?as] exI [of _ o0] exI [of _ w0]) simp
qed

definition doc_retrier :: "(goerror \<Rightarrow> bool) \<Rightarrow> ('o, 'w) retrier" where
  "doc_retrier conflict b f st = (if bo_Steps b = 0 then (None, st) else last (attempts conflict (bo_Steps b) f st))"

text \<open>
  A server that holds a value and a version, answers the first two updates with a conflict, because
  another client adds ten meanwhile, and counts the version up with every write.
\<close>

definition busy_client :: "(int \<times> nat, nat \<times> int) object_client" where
  "busy_client = \<lparr>oc_Get = (\<lambda>ob w. (None, (snd w, fst w), w)),
     oc_Update = (\<lambda>ob w. if fst w < 2 then (Some (Foreign 409 ''conflict''), ob, (Suc (fst w), snd w + 10))
        else (None, (fst ob, Suc (fst w)), (Suc (fst w), fst ob))),
     oc_StatusUpdate = (\<lambda>ob w. (None, ob, w))\<rparr>"

theorem RetryUpdate_spec_witness:
  "RetryUpdate (doc_retrier (\<lambda>e. e = Foreign 409 ''conflict'')) (\<lambda>ob. InPlace (fst ob + 1, snd ob)) busy_client
     ((0, 0), (0, 0)) = (None, (21, 3), (3, 21)) \<and>
   (\<exists>o0 w0 o1 w1. oc_Get busy_client o0 w0 = (None, o1, w1) \<and>
     oc_Update busy_client (fst o1 + 1, snd o1) w1 = (None, (21, 3), (3, 21)))"
proof -
  let ?c = "\<lambda>e. e = Foreign 409 ''conflict''" and ?a = "\<lambda>ob :: int \<times> nat. InPlace (fst ob + 1, snd ob)"
  have laws: "retry_laws ?c (doc_retrier ?c :: (int \<times> nat, nat \<times> int) retrier)" by (simp add: retry_laws_def doc_retrier_def)
  have five: "(5::nat) = Suc (Suc (Suc (Suc (Suc 0))))" by simp
  have r: "RetryUpdate (doc_retrier ?c) ?a busy_client ((0, 0), (0, 0)) = (None, (21, 3), (3, 21))"
    by (simp add: RetryUpdate_def doc_retrier_def defaultBackoff_def five update_operation_def busy_client_def)
  from RetryUpdate_spec [OF laws, of busy_client ?a "((0, 0), (0, 0))"] r show ?thesis by fastforce
qed

end
