(* ===== verification/Shutdown.thy ===== *)
theory Shutdown
  imports Context
begin

text \<open>
  Start and end of a service: the context of \<open>StartContext\<close> (\<open>context/context.go\<close>), the recovering function
  (\<open>context/sentry.go\<close>), and the context that ends on a signal (\<open>context/signal.go\<close>) as a transition
  system in which the goroutine, the operating system, the parent context and the callers take
  steps.
\<close>

section \<open>Recovering\<close>

text \<open>
  The state of a goroutine that runs deferred functions: the panic in flight, and what was reported.
  \<open>recover\<close> stops the panic when it is called directly by the deferred function; anywhere below it
  returns \<open>nil\<close>.  The first argument says whether the caller of \<open>recover\<close> is the deferred function.
\<close>

record unwinding =
  panicking :: "string option"
  reported :: "string list"

definition go_recover :: "bool \<Rightarrow> unwinding \<Rightarrow> string option \<times> unwinding" where
  "go_recover is_deferred u = (if is_deferred then (panicking u, u\<lparr>panicking := None\<rparr>) else (None, u))"

definition Recover :: "bool \<Rightarrow> unwinding \<Rightarrow> unwinding" where
  "Recover is_deferred u =
     (case go_recover is_deferred u of
        (Some err, u1) \<Rightarrow> u1\<lparr>reported := reported u1 @ [err]\<rparr>
      | (None, u1) \<Rightarrow> u1)"

section \<open>The service context\<close>

text \<open>
  \<open>notify\<close> is \<open>NotifyShutdownContext\<close> on the values of a context: it adds none.  The returned shutdown
  function is the deferred one; it calls \<open>Recover\<close>, stops the signal context and waits.
\<close>

definition StartWithContext :: "ctx \<Rightarrow> logger \<Rightarrow> nat \<Rightarrow> duration \<Rightarrow> ctx" where
  "StartWithContext c log cfg timeout =
     (let parentCtx = WithValue c ShutdownTimeoutKey (VDuration timeout);
          c1 = SetLoggerInContext parentCtx log
      in SetConfigInContext c1 cfg)"

definition StartContext :: "logger \<Rightarrow> nat \<Rightarrow> duration \<Rightarrow> ctx" where
  "StartContext log cfg timeout = StartWithContext Map.empty log cfg timeout"

definition shutdown_function :: "unwinding \<Rightarrow> unwinding" where
  "shutdown_function u = Recover False u"

text \<open>
  The service context carries what it was started with: its logger, its configuration and its
  timeout are found again, and every other key has the parent's value.
\<close>

theorem StartWithContext_spec:
  "LoadLoggerFromContext std (StartWithContext c log cfg timeout) = log \<and>
   LoadConfigFromContext (StartWithContext c log cfg timeout) = Some (VAny cfg) \<and>
   TimeoutFromContext (Some (StartWithContext c log cfg timeout)) = timeout \<and>
   StartWithContext c log cfg timeout |` (- {LoggerCtxKey, ConfigCtxKey, ShutdownTimeoutKey}) =
     c |` (- {LoggerCtxKey, ConfigCtxKey, ShutdownTimeoutKey})"
  by (simp add: StartWithContext_def SetLoggerInContext_def SetConfigInContext_def LoadLoggerFromContext_def
      LoadConfigFromContext_def TimeoutFromContext_def ctx_key_defs restrict_map_def fun_eq_iff)

text \<open>
  The deferred shutdown function does not recover: \<open>Recover\<close> deferred itself ends a panic and
  reports it, but called by the shutdown function it neither stops the panic nor reports it.
\<close>

theorem shutdown_does_not_recover:
  "Recover True \<lparr>panicking = Some e, reported = rs\<rparr> = \<lparr>panicking = None, reported = rs @ [e]\<rparr> \<and>
   shutdown_function \<lparr>panicking = Some e, reported = rs\<rparr> = \<lparr>panicking = Some e, reported = rs\<rparr>"
  by (simp add: Recover_def go_recover_def shutdown_function_def)

section \<open>The signal context\<close>

datatype os_signal = SIGKILL | SIGTERM | SIGINT | OtherSignal nat

text \<open>Why a context is done: \<open>ErrShutdown\<close>, a plain cancellation, or the cause of its parent.\<close>

datatype cause = ErrShutdown | Canceled | ParentCause nat

datatype waiter = NotStarted | Waiting | Exited

text \<open>\<open>arrivals\<close> is the history of the signals put into the channel.\<close>

record signal_ctx =
  parent_cause :: "cause option"
  ctx_cause :: "cause option"
  ch :: "os_signal option"
  registered :: bool
  goroutine :: waiter
  arrivals :: "os_signal list"

definition notified_signals :: "os_signal list" where
  "notified_signals = [SIGKILL, SIGTERM, SIGINT]"

definition NotifyShutdownContext :: "cause option \<Rightarrow> signal_ctx" where
  "NotifyShutdownContext parent =
     \<lparr>parent_cause = parent, ctx_cause = parent, ch = None, registered = True,
      goroutine = (if parent = None then Waiting else NotStarted), arrivals = []\<rparr>"

text \<open>\<open>cancel\<close> of a cancel-cause context: the first cause stays; \<open>nil\<close> stands for \<open>Canceled\<close>.\<close>

definition cancel :: "cause option \<Rightarrow> signal_ctx \<Rightarrow> signal_ctx" where
  "cancel c s = (case ctx_cause s of
     Some _ \<Rightarrow> s | None \<Rightarrow> s\<lparr>ctx_cause := Some (case c of Some x \<Rightarrow> x | None \<Rightarrow> Canceled)\<rparr>)"

definition stop :: "signal_ctx \<Rightarrow> signal_ctx" where
  "stop s = (cancel None s)\<lparr>registered := False\<rparr>"

text \<open>
  Which signals the operating system lets a process catch is a parameter.  The channel has room for one
  signal and a full one drops.  The parent may end with any cause, also with the exported \<open>ErrShutdown\<close>.
  The waiting goroutine takes either ready branch.
\<close>

inductive sig_step :: "(os_signal \<Rightarrow> bool) \<Rightarrow> signal_ctx \<Rightarrow> signal_ctx \<Rightarrow> bool" for catchable where
  parent_done: "parent_cause s = None \<Longrightarrow> sig_step catchable s (cancel (Some c) (s\<lparr>parent_cause := Some c\<rparr>))"
| deliver: "registered s \<Longrightarrow> sg \<in> set notified_signals \<Longrightarrow> catchable sg \<Longrightarrow> ch s = None \<Longrightarrow>
    sig_step catchable s (s\<lparr>ch := Some sg, arrivals := arrivals s @ [sg]\<rparr>)"
| drop: "registered s \<Longrightarrow> ch s \<noteq> None \<Longrightarrow> sig_step catchable s s"
| take_signal: "goroutine s = Waiting \<Longrightarrow> ch s = Some sg \<Longrightarrow>
    sig_step catchable s (cancel (Some ErrShutdown) (s\<lparr>ch := None, goroutine := Exited\<rparr>))"
| take_done: "goroutine s = Waiting \<Longrightarrow> ctx_cause s \<noteq> None \<Longrightarrow> sig_step catchable s (s\<lparr>goroutine := Exited\<rparr>)"
| stopped: "sig_step catchable s (stop s)"

inductive_cases sig_stepE: "sig_step catchable s s'"

inductive sig_reach :: "(os_signal \<Rightarrow> bool) \<Rightarrow> signal_ctx \<Rightarrow> signal_ctx \<Rightarrow> bool" for catchable s0 where
  sig_start: "sig_reach catchable s0 s0"
| sig_next: "sig_reach catchable s0 s \<Longrightarrow> sig_step catchable s s' \<Longrightarrow> sig_reach catchable s0 s'"

text \<open>What POSIX says of signals: \<open>SIGKILL\<close> cannot be caught, \<open>SIGTERM\<close> and \<open>SIGINT\<close> can.\<close>

definition posix_signals :: "(os_signal \<Rightarrow> bool) \<Rightarrow> bool" where
  "posix_signals catchable \<longleftrightarrow> \<not> catchable SIGKILL \<and> catchable SIGTERM \<and> catchable SIGINT"

lemma cancel_sel [simp]:
  "parent_cause (cancel c s) = parent_cause s" "ch (cancel c s) = ch s" "registered (cancel c s) = registered s"
  "goroutine (cancel c s) = goroutine s" "arrivals (cancel c s) = arrivals s"
  "ctx_cause (cancel c s) = (case ctx_cause s of Some x \<Rightarrow> Some x | None \<Rightarrow> Some (case c of Some x \<Rightarrow> x | None \<Rightarrow> Canceled))"
  by (auto simp: cancel_def split: option.split)

text \<open>The invariant: who has ended the context, and that somebody still waits while it is alive.\<close>

definition sig_inv :: "signal_ctx \<Rightarrow> bool" where
  "sig_inv s \<longleftrightarrow> (ctx_cause s = None \<longrightarrow> goroutine s = Waiting \<and> registered s \<and> parent_cause s = None) \<and>
     (\<forall>c. ctx_cause s = Some c \<longrightarrow> parent_cause s = Some c \<or>
        c = ErrShutdown \<and> arrivals s \<noteq> [] \<or> c = Canceled \<and> \<not> registered s) \<and>
     (ch s \<noteq> None \<longrightarrow> arrivals s \<noteq> []) \<and> set (arrivals s) \<subseteq> {SIGTERM, SIGINT}"

lemma sig_inv_step: "sig_step catchable s s' \<Longrightarrow> posix_signals catchable \<Longrightarrow> sig_inv s \<Longrightarrow> sig_inv s'"
  by (erule sig_stepE) (auto simp: sig_inv_def stop_def notified_signals_def posix_signals_def split: option.splits)

lemma sig_inv_reach: "sig_reach catchable (NotifyShutdownContext parent) s \<Longrightarrow> posix_signals catchable \<Longrightarrow> sig_inv s"
proof (induction rule: sig_reach.induct)
  case sig_start
  then show ?case by (auto simp: sig_inv_def NotifyShutdownContext_def)
qed (blast intro: sig_inv_step)

text \<open>While the context is alive, each of the two signals can arrive, and the goroutine takes it.\<close>

lemma signal_taken:
  assumes "sig_inv s" and "ctx_cause s = None" and "ch s = Some sg"
  shows "\<exists>s'. sig_step catchable s s' \<and> ctx_cause s' = Some ErrShutdown"
  using assms take_signal [of s sg]
  by (intro exI [of _ "cancel (Some ErrShutdown) (s\<lparr>ch := None, goroutine := Exited\<rparr>)"]) (simp add: sig_inv_def)

lemma signal_arrives:
  assumes "sig_inv s" and "posix_signals catchable" and "ctx_cause s = None" and "ch s = None"
    and "sg = SIGTERM \<or> sg = SIGINT"
  shows "\<exists>s1 s2. sig_step catchable s s1 \<and> arrivals s1 = arrivals s @ [sg] \<and>
    sig_step catchable s1 s2 \<and> ctx_cause s2 = Some ErrShutdown"
proof -
  let ?s1 = "s\<lparr>ch := Some sg, arrivals := arrivals s @ [sg]\<rparr>"
  have 1: "sig_step catchable s ?s1"
    using assms by (intro deliver) (auto simp: sig_inv_def notified_signals_def posix_signals_def)
  then have "sig_inv ?s1" using assms(2,1) by (rule sig_inv_step)
  then obtain s2 where "sig_step catchable ?s1 s2" "ctx_cause s2 = Some ErrShutdown"
    using signal_taken [of ?s1 sg] assms(3) by auto
  with 1 show ?thesis by (intro exI [of _ ?s1] exI [of _ s2]) simp
qed

lemma signal_kept:
  "sig_step catchable s s' \<Longrightarrow> sig_inv s \<Longrightarrow> ctx_cause s = None \<Longrightarrow> ch s = Some sg \<Longrightarrow>
   ctx_cause s' = None \<and> ch s' = Some sg \<or> ctx_cause s' \<noteq> None"
  by (erule sig_stepE) (auto simp: sig_inv_def stop_def)

text \<open>
  C30.  Shutdown on a signal, in every reachable state and whatever the parent is done with.  The
  context is done only with the cause of its parent, with \<open>ErrShutdown\<close> after a \<open>SIGTERM\<close> or \<open>SIGINT\<close> arrived, or
  with \<open>Canceled\<close> after the stop function was called; a done parent means a done context.  While the context is alive,
  either signal can arrive and the goroutine then ends the context with \<open>ErrShutdown\<close>; a signal that has
  arrived is not lost: it stays in the channel until the context is done.  Once the context is done the
  goroutine can exit.
\<close>

theorem NotifyShutdownContext_safe:
  assumes "sig_reach catchable (NotifyShutdownContext parent) s" and "posix_signals catchable"
  shows "(\<forall>c. ctx_cause s = Some c \<longrightarrow> parent_cause s = Some c \<or>
      c = ErrShutdown \<and> arrivals s \<noteq> [] \<or> c = Canceled \<and> \<not> registered s) \<and>
    set (arrivals s) \<subseteq> {SIGTERM, SIGINT} \<and> (parent_cause s \<noteq> None \<longrightarrow> ctx_cause s \<noteq> None) \<and>
    (ctx_cause s = None \<and> ch s = None \<longrightarrow> (\<forall>sg \<in> {SIGTERM, SIGINT}. \<exists>s1 s2. sig_step catchable s s1 \<and>
      arrivals s1 = arrivals s @ [sg] \<and> sig_step catchable s1 s2 \<and> ctx_cause s2 = Some ErrShutdown)) \<and>
    (ctx_cause s = None \<and> ch s \<noteq> None \<longrightarrow>
      (\<exists>s'. sig_step catchable s s' \<and> ctx_cause s' = Some ErrShutdown) \<and>
      (\<forall>s'. sig_step catchable s s' \<longrightarrow> ctx_cause s' \<noteq> None \<or> ch s' = ch s)) \<and>
    (ctx_cause s \<noteq> None \<and> goroutine s = Waiting \<longrightarrow> (\<exists>s'. sig_step catchable s s' \<and> goroutine s' = Exited))"
proof -
  have inv: "sig_inv s" using assms by (rule sig_inv_reach)
  have arr: "\<forall>sg \<in> {SIGTERM, SIGINT}. \<exists>s1 s2. sig_step catchable s s1 \<and> arrivals s1 = arrivals s @ [sg] \<and>
      sig_step catchable s1 s2 \<and> ctx_cause s2 = Some ErrShutdown" if "ctx_cause s = None" "ch s = None"
    using signal_arrives [OF inv assms(2) that] by simp
  have kept: "(\<exists>s'. sig_step catchable s s' \<and> ctx_cause s' = Some ErrShutdown) \<and>
      (\<forall>s'. sig_step catchable s s' \<longrightarrow> ctx_cause s' \<noteq> None \<or> ch s' = ch s)"
    if "ctx_cause s = None" "ch s \<noteq> None"
  proof -
    from that(2) obtain sg where sg: "ch s = Some sg" by blast
    have "ctx_cause s' \<noteq> None \<or> ch s' = ch s" if "sig_step catchable s s'" for s'
      using signal_kept [OF that inv \<open>ctx_cause s = None\<close> sg] sg by auto
    with signal_taken [OF inv that(1) sg] show ?thesis by simp
  qed
  have exit: "\<exists>s'. sig_step catchable s s' \<and> goroutine s' = Exited" if "ctx_cause s \<noteq> None" "goroutine s = Waiting"
    using take_done [of s catchable] that by (intro exI [of _ "s\<lparr>goroutine := Exited\<rparr>"]) simp
  from inv show ?thesis unfolding sig_inv_def by (intro conjI impI arr exit kept [THEN conjunct1] kept [THEN conjunct2]) blast+
qed

text \<open>A parent that ends with \<open>ErrShutdown\<close> ends the context with that cause, without any signal.\<close>

lemma parent_shutdown:
  "sig_step catchable (NotifyShutdownContext None)
     ((NotifyShutdownContext None)\<lparr>parent_cause := Some ErrShutdown, ctx_cause := Some ErrShutdown\<rparr>)"
  using parent_done [of "NotifyShutdownContext None" catchable ErrShutdown]
  by (simp add: NotifyShutdownContext_def cancel_def)

theorem NotifyShutdownContext_safe_witness:
  "\<exists>s1 s2. sig_step (\<lambda>sg. sg \<noteq> SIGKILL) (NotifyShutdownContext None) s1 \<and> arrivals s1 = [SIGINT] \<and>
     sig_step (\<lambda>sg. sg \<noteq> SIGKILL) s1 s2 \<and> ctx_cause s2 = Some ErrShutdown"
proof -
  have p: "posix_signals (\<lambda>sg. sg \<noteq> SIGKILL)" by (simp add: posix_signals_def)
  from NotifyShutdownContext_safe [OF sig_start p, of None] show ?thesis by (simp add: NotifyShutdownContext_def)
qed

end
