(* ===== verification/Service_Config.thy ===== *)
theory Service_Config
  imports Prelude
begin

text \<open>
  The common configuration of a service, \<open>config/config.go\<close>, with the flags it registers, and the
  defaults of the logger's configuration, \<open>logger/logger.go\<close>.  The nested structs are flattened into
  prefixed fields.  pflag's parser is a parameter: the model is which variable a flag sets, and to what type.
\<close>

section \<open>The configuration\<close>

record CommonServiceConfig =
  DebugLabelValue :: string
  MaxConcurrentReconciles :: int
  Environment :: string
  Region :: string
  Kubeconfig :: string
  IsLocal :: bool
  ImageName :: string
  ImageTag :: string
  LogLevel :: string
  LogNoJson :: bool
  ShutdownTimeout :: duration
  MetricsBindAddress :: string
  MetricsSecure :: bool
  TracingEnabled :: bool
  TracingServiceName :: string
  TracingServiceVersion :: string
  TracingCollectorEndpoint :: string
  EnableHTTP2 :: bool
  HealthProbeBindAddress :: string
  LeaderElectionEnabled :: bool
  SentryDsn :: string

text \<open>\<open>dsn\<close> is the value of the environment variable \<open>SENTRY_DSN\<close>.\<close>

definition NewDefaultConfig :: "string \<Rightarrow> CommonServiceConfig" where
  "NewDefaultConfig dsn = \<lparr>DebugLabelValue = [],
     MaxConcurrentReconciles = 10,
     Environment = [],
     Region = ''local'',
     Kubeconfig = [],
     IsLocal = False,
     ImageName = [],
     ImageTag = [],
     LogLevel = ''info'',
     LogNoJson = False,
     ShutdownTimeout = Minute,
     MetricsBindAddress = '':9090'',
     MetricsSecure = False,
     TracingEnabled = False,
     TracingServiceName = [],
     TracingServiceVersion = [],
     TracingCollectorEndpoint = [],
     EnableHTTP2 = True,
     HealthProbeBindAddress = '':8090'',
     LeaderElectionEnabled = False,
     SentryDsn = dsn\<rparr>"

section \<open>Flags\<close>

text \<open>The value of a flag variable, with its type, and how \<open>AddFlags\<close> binds the names to the fields.\<close>

datatype flag_value = FlagString string | FlagInt int | FlagBool bool | FlagDuration duration

fun flag_type :: "flag_value \<Rightarrow> nat" where
  "flag_type (FlagString _) = 0"
| "flag_type (FlagInt _) = 1"
| "flag_type (FlagBool _) = 2"
| "flag_type (FlagDuration _) = 3"

type_synonym flag_binding = "string \<times> (CommonServiceConfig \<Rightarrow> flag_value) \<times> (flag_value \<Rightarrow> CommonServiceConfig \<Rightarrow> CommonServiceConfig)"

definition bind_string where
  "bind_string n rd wr = (n, \<lambda>c. FlagString (rd c), \<lambda>v c. case v of FlagString s \<Rightarrow> wr (\<lambda>_. s) c | _ \<Rightarrow> c)"
definition bind_int where
  "bind_int n rd wr = (n, \<lambda>c. FlagInt (rd c), \<lambda>v c. case v of FlagInt i \<Rightarrow> wr (\<lambda>_. i) c | _ \<Rightarrow> c)"
definition bind_bool where
  "bind_bool n rd wr = (n, \<lambda>c. FlagBool (rd c), \<lambda>v c. case v of FlagBool b \<Rightarrow> wr (\<lambda>_. b) c | _ \<Rightarrow> c)"
definition bind_duration where
  "bind_duration n rd wr = (n, \<lambda>c. FlagDuration (rd c), \<lambda>v c. case v of FlagDuration d \<Rightarrow> wr (\<lambda>_. d) c | _ \<Rightarrow> c)"

definition AddFlags :: "flag_binding list" where
  "AddFlags = [bind_string ''debug-label-value'' DebugLabelValue DebugLabelValue_update,
     bind_int ''max-concurrent-reconciles'' MaxConcurrentReconciles MaxConcurrentReconciles_update,
     bind_string ''environment'' Environment Environment_update,
     bind_string ''region'' Region Region_update,
     bind_string ''kubeconfig'' Kubeconfig Kubeconfig_update,
     bind_bool ''is-local'' IsLocal IsLocal_update,
     bind_string ''image-name'' ImageName ImageName_update,
     bind_string ''image-tag'' ImageTag ImageTag_update,
     bind_string ''log-level'' LogLevel LogLevel_update,
     bind_bool ''no-json'' LogNoJson LogNoJson_update,
     bind_duration ''shutdown-timeout'' ShutdownTimeout ShutdownTimeout_update,
     bind_string ''metrics-bind-address'' MetricsBindAddress MetricsBindAddress_update,
     bind_bool ''metrics-secure'' MetricsSecure MetricsSecure_update,
     bind_bool ''tracing-enabled'' TracingEnabled TracingEnabled_update,
     bind_string ''tracing-config-service-name'' TracingServiceName TracingServiceName_update,
     bind_string ''tracing-config-service-version'' TracingServiceVersion TracingServiceVersion_update,
     bind_string ''tracing-config-collector-endpoint'' TracingCollectorEndpoint TracingCollectorEndpoint_update,
     bind_bool ''enable-http2'' EnableHTTP2 EnableHTTP2_update,
     bind_string ''health-probe-bind-address'' HealthProbeBindAddress HealthProbeBindAddress_update,
     bind_bool ''leader-elect'' LeaderElectionEnabled LeaderElectionEnabled_update]"

text \<open>
  What \<open>StringVar\<close>, \<open>IntVar\<close>, \<open>BoolVar\<close> and \<open>DurationVar\<close> promise about the address they are given, and the source
  relies on: a flag found on the command line, its text already parsed to the flag's type, is stored in its variable; an
  unknown name or a value of another type is an error.  The parsing of the text is not modelled.
\<close>

definition set_flag :: "string \<Rightarrow> flag_value \<Rightarrow> CommonServiceConfig \<Rightarrow> CommonServiceConfig option" where
  "set_flag name v c =
     (case List.find (\<lambda>b. fst b = name) AddFlags of
        None \<Rightarrow> None
      | Some (_, rd, wr) \<Rightarrow> if flag_type (rd c) = flag_type v then Some (wr v c) else None)"

fun set_flags :: "(string \<times> flag_value) list \<Rightarrow> CommonServiceConfig \<Rightarrow> CommonServiceConfig option" where
  "set_flags [] c = Some c"
| "set_flags ((n, v) # fs) c = (case set_flag n v c of None \<Rightarrow> None | Some c1 \<Rightarrow> set_flags fs c1)"

definition get_flag :: "string \<Rightarrow> CommonServiceConfig \<Rightarrow> flag_value option" where
  "get_flag name c = map_option (\<lambda>b. fst (snd b) c) (List.find (\<lambda>b. fst b = name) AddFlags)"

section \<open>The logger's configuration\<close>

text \<open>\<open>file\<close> is the source file \<open>runtime.Caller\<close> names; a writer is a number, \<open>None\<close> for nil.\<close>

record log_config =
  lg_Name :: string
  lg_Level :: string
  lg_NoJSON :: bool
  lg_Output :: "nat option"

definition SetDefaults :: "string \<Rightarrow> nat \<Rightarrow> log_config \<Rightarrow> log_config" where
  "SetDefaults file stdout c =
     (let c1 = (if lg_Name c = [] then c\<lparr>lg_Name := file\<rparr> else c);
          c2 = (if lg_Level c1 = [] then c1\<lparr>lg_Level := ''info''\<rparr> else c1)
      in if lg_Output c2 = None then c2\<lparr>lg_Output := Some stdout\<rparr> else c2)"

definition DefaultConfig_log :: "string \<Rightarrow> nat \<Rightarrow> log_config" where
  "DefaultConfig_log file stdout = SetDefaults file stdout \<lparr>lg_Name = [], lg_Level = [], lg_NoJSON = False, lg_Output = None\<rparr>"

lemma SetDefaults_idem: "SetDefaults f o1 (SetDefaults f o1 c) = SetDefaults f o1 c"
  by (cases c) (auto simp: SetDefaults_def Let_def)

section \<open>Properties\<close>

lemmas flag_defs = AddFlags_def bind_string_def bind_int_def bind_bool_def bind_duration_def

lemma flag_names_distinct: "distinct (map fst AddFlags)"
  by (simp add: flag_defs)

lemma bindings_lens:
  "b \<in> set AddFlags \<Longrightarrow> flag_type (fst (snd b) c) = flag_type v \<Longrightarrow>
     fst (snd b) (snd (snd b) v c) = v \<and> SentryDsn (snd (snd b) v c) = SentryDsn c"
  by (cases v) (auto simp: flag_defs)

lemma bindings_frame_all:
  "list_all (\<lambda>b. list_all (\<lambda>b1. fst b1 = fst b \<or> fst (snd b1) (snd (snd b) v c) = fst (snd b1) c) AddFlags) AddFlags"
  by (cases v) (simp_all add: flag_defs)

lemma bindings_frame:
  "b \<in> set AddFlags \<Longrightarrow> b1 \<in> set AddFlags \<Longrightarrow> fst b1 \<noteq> fst b \<Longrightarrow>
     fst (snd b1) (snd (snd b) v c) = fst (snd b1) c"
  using bindings_frame_all [of v c] by (simp add: list_all_iff) blast

lemma find_binding:
  "List.find (\<lambda>b. fst b = n) AddFlags = Some b \<Longrightarrow> b \<in> set AddFlags \<and> fst b = n"
  by (auto simp: find_Some_iff)

lemma get_flag_frame:
  assumes "b \<in> set AddFlags" "fst b \<noteq> n1"
  shows "get_flag n1 (snd (snd b) v c) = get_flag n1 c"
proof (cases "List.find (\<lambda>b. fst b = n1) AddFlags")
  case (Some b1)
  with find_binding [OF Some] assms show ?thesis
    by (simp add: get_flag_def bindings_frame [of b b1])
qed (simp add: get_flag_def)

text \<open>
  The flags \<open>AddFlags\<close> registers do not interfere: a flag that is accepted sets exactly the variable read back under
  its own name, every other flag keeps its value, and \<open>Sentry.Dsn\<close>, which has no flag, keeps the value it got
  from the environment.
\<close>

theorem flags_independent:
  assumes "set_flag n v c = Some c1"
  shows "get_flag n1 c1 = (if n1 = n then Some v else get_flag n1 c) \<and> SentryDsn c1 = SentryDsn c"
proof -
  from assms obtain b where b: "b \<in> set AddFlags" "fst b = n" "flag_type (fst (snd b) c) = flag_type v"
      "c1 = snd (snd b) v c" "List.find (\<lambda>b. fst b = n) AddFlags = Some b"
    by (auto simp: set_flag_def split: option.splits if_splits dest: find_binding)
  from b bindings_lens [OF b(1,3)] get_flag_frame [of b n1] show ?thesis by (simp add: get_flag_def)
qed

theorem flags_independent_witness:
  "set_flag ''region'' (FlagString ''eu'') (NewDefaultConfig ''d'') \<noteq> None \<and>
   get_flag ''region'' ((NewDefaultConfig ''d'')\<lparr>Region := ''eu''\<rparr>) = Some (FlagString ''eu'') \<and>
   get_flag ''log-level'' ((NewDefaultConfig ''d'')\<lparr>Region := ''eu''\<rparr>) = get_flag ''log-level'' (NewDefaultConfig ''d'')"
proof -
  have s: "set_flag ''region'' (FlagString ''eu'') (NewDefaultConfig ''d'') = Some ((NewDefaultConfig ''d'')\<lparr>Region := ''eu''\<rparr>)"
    by (simp add: set_flag_def flag_defs)
  show ?thesis
    using flags_independent [OF s, of "''region''"] flags_independent [OF s, of "''log-level''"] by (simp add: s)
qed

end
