(* ===== verification/Test_Logger.thy ===== *)
theory Test_Logger
  imports Service_Config Context
begin

text \<open>
  Making a logger (\<open>New\<close> and \<open>Level\<close> of \<open>logger/logger.go\<close>) and reading its output back in tests
  (\<open>logger/testlogger/test_logger.go\<close>).  Parsing a level, the JSON syntax and the encoder of zerolog are
  parameters; a level is zerolog's number.
\<close>

section \<open>Making a logger\<close>

datatype log_destination = RawWriter nat | ConsoleWriter nat

text \<open>
  \<open>parse\<close> is \<open>zerolog.ParseLevel\<close>.  The time stamp and the caller, which every message gets as well, are
  not modelled.
\<close>

definition New_logger ::
  "(string \<Rightarrow> string) \<Rightarrow> (string \<Rightarrow> goerror + int) \<Rightarrow> log_config \<Rightarrow> goerror + logger \<times> log_destination option" where
  "New_logger U parse config =
     (case parse (toLower U (lg_Level config)) of
        Inl err \<Rightarrow> Inl err
      | Inr zerologLevel \<Rightarrow>
          let logDest = (if lg_NoJSON config then map_option ConsoleWriter (lg_Output config)
                         else map_option RawWriter (lg_Output config))
          in Inr (\<lparr>log_level = zerologLevel, log_fields = [(''service'', lg_Name config)]\<rparr>, logDest))"

definition Level :: "logger \<Rightarrow> int \<Rightarrow> logger" where
  "Level l lvl = l\<lparr>log_level := lvl\<rparr>"

section \<open>Reading log messages back\<close>

record log_message =
  lm_Message :: string
  lm_Level :: int
  lm_Service :: string
  lm_Error :: "string option"
  lm_Attributes :: "string \<rightharpoonup> json"

text \<open>
  The two calls of \<open>json.Unmarshal\<close>, after the text has been parsed to a JSON value by \<open>jp\<close>, which keeps the members
  of an object in their order.  A member goes to the field of the struct whose JSON tag is its name up
  to case (for names in ASCII); the others are passed over; \<open>null\<close> leaves a string as it is and makes the pointer nil;
  another kind of value is an error.  The level is a \<open>TextUnmarshaler\<close> that parses its text by \<open>parse\<close>.  The field \<open>Attributes\<close> has the tag \<open>-\<close>.
\<close>

type_synonym json_parser = "string \<Rightarrow> goerror + json"

definition wrong_type :: goerror where
  "wrong_type = ErrorString ''json: cannot unmarshal value''"

fun into_string :: "json \<Rightarrow> string \<Rightarrow> goerror + string" where
  "into_string (JStr s) old = Inr s"
| "into_string JNull old = Inr old"
| "into_string _ old = Inl wrong_type"

fun into_pointer :: "json \<Rightarrow> goerror + string option" where
  "into_pointer (JStr s) = Inr (Some s)"
| "into_pointer JNull = Inr None"
| "into_pointer _ = Inl wrong_type"

fun into_level :: "(string \<Rightarrow> goerror + int) \<Rightarrow> json \<Rightarrow> int \<Rightarrow> goerror + int" where
  "into_level parse (JStr s) old = parse s"
| "into_level parse JNull old = Inr old"
| "into_level parse _ old = Inl wrong_type"

definition set_member ::
  "(string \<Rightarrow> goerror + int) \<Rightarrow> string \<Rightarrow> json \<Rightarrow> log_message \<Rightarrow> goerror + log_message" where
  "set_member parse k v m =
     (if equalFold k ''message'' then map_sum id (\<lambda>x. m\<lparr>lm_Message := x\<rparr>) (into_string v (lm_Message m))
      else if equalFold k ''level'' then map_sum id (\<lambda>x. m\<lparr>lm_Level := x\<rparr>) (into_level parse v (lm_Level m))
      else if equalFold k ''service'' then map_sum id (\<lambda>x. m\<lparr>lm_Service := x\<rparr>) (into_string v (lm_Service m))
      else if equalFold k ''error'' then map_sum id (\<lambda>x. m\<lparr>lm_Error := x\<rparr>) (into_pointer v)
      else Inr m)"

fun set_members ::
  "(string \<Rightarrow> goerror + int) \<Rightarrow> (string \<times> json) list \<Rightarrow> log_message \<Rightarrow> goerror + log_message" where
  "set_members parse [] m = Inr m"
| "set_members parse ((k, v) # kvs) m =
     (case set_member parse k v m of Inl err \<Rightarrow> Inl err | Inr m1 \<Rightarrow> set_members parse kvs m1)"

definition empty_message :: log_message where
  "empty_message = \<lparr>lm_Message = [], lm_Level = 0, lm_Service = [], lm_Error = None, lm_Attributes = Map.empty\<rparr>"

definition Unmarshal_message :: "(string \<Rightarrow> goerror + int) \<Rightarrow> json_parser \<Rightarrow> string \<Rightarrow> goerror + log_message" where
  "Unmarshal_message parse jp text =
     (case jp text of
        Inl err \<Rightarrow> Inl err
      | Inr j \<Rightarrow> (case j of JObj kvs \<Rightarrow> set_members parse kvs empty_message | JNull \<Rightarrow> Inr empty_message | _ \<Rightarrow> Inl wrong_type))"

definition Unmarshal_attributes :: "json_parser \<Rightarrow> string \<Rightarrow> goerror + (string \<rightharpoonup> json)" where
  "Unmarshal_attributes jp text =
     (case jp text of
        Inl err \<Rightarrow> Inl err
      | Inr j \<Rightarrow> (case j of JObj kvs \<Rightarrow> Inr (map_of (rev kvs)) | JNull \<Rightarrow> Inr Map.empty | _ \<Rightarrow> Inl wrong_type))"

text \<open>The parameters of reading back: the level parser and the JSON parser.\<close>

record json_decoder =
  jd_level :: "string \<Rightarrow> goerror + int"
  jd_parse :: json_parser

definition newline :: char where
  "newline = CHR 0x0A"

fun decode_lines :: "json_decoder \<Rightarrow> string list \<Rightarrow> log_message list \<Rightarrow> goerror + log_message list" where
  "decode_lines J [] result = Inr result"
| "decode_lines J (message # messages) result =
     (if message = [] then decode_lines J messages result
      else
        (case Unmarshal_message (jd_level J) (jd_parse J) message of
           Inl err \<Rightarrow> Inl err
         | Inr logMessage \<Rightarrow>
        (case Unmarshal_attributes (jd_parse J) message of
           Inl err \<Rightarrow> Inl err
         | Inr attributes \<Rightarrow>
             decode_lines J messages (result @ [logMessage\<lparr>lm_Attributes := attributes\<rparr>]))))"

definition GetLogMessages :: "json_decoder \<Rightarrow> string \<Rightarrow> goerror + log_message list" where
  "GetLogMessages J buffer = decode_lines J (splitOn newline buffer) []"

fun level_found :: "int \<Rightarrow> int list \<Rightarrow> bool" where
  "level_found l [] = False"
| "level_found l (lvl # lvls) = (if l = lvl then True else level_found l lvls)"

fun keep_levels :: "int list \<Rightarrow> log_message list \<Rightarrow> log_message list \<Rightarrow> log_message list" where
  "keep_levels levels [] result = result"
| "keep_levels levels (log # logs) result =
     (let shouldContinue = (\<not> level_found (lm_Level log) levels)
      in if shouldContinue then keep_levels levels logs result else keep_levels levels logs (result @ [log]))"

definition getMessagesForLevels :: "json_decoder \<Rightarrow> string \<Rightarrow> int list \<Rightarrow> goerror + log_message list" where
  "getMessagesForLevels J buffer levels =
     (case GetLogMessages J buffer of Inl err \<Rightarrow> Inl err | Inr messages \<Rightarrow> Inr (keep_levels levels messages []))"

definition GetMessagesForLevel :: "json_decoder \<Rightarrow> string \<Rightarrow> int \<Rightarrow> goerror + log_message list" where
  "GetMessagesForLevel J buffer level = getMessagesForLevels J buffer [level]"

text \<open>zerolog's numbers of the levels error, fatal and panic.\<close>

definition GetErrorMessages :: "json_decoder \<Rightarrow> string \<Rightarrow> goerror + log_message list" where
  "GetErrorMessages J buffer = getMessagesForLevels J buffer [3, 4, 5]"

section \<open>Properties\<close>

text \<open>The buffer after a sequence of messages: each is a line, closed by a newline.\<close>

definition buffer_of :: "string list \<Rightarrow> string" where
  "buffer_of ls = concat (map (\<lambda>l. l @ [newline]) ls)"

lemma splitOn_buffer: "\<forall>l \<in> set ls. newline \<notin> set l \<Longrightarrow> splitOn newline (buffer_of ls) = ls @ [[]]"
  by (induction ls) (simp_all add: buffer_of_def splitOn_here)

text \<open>A line that decodes to a message with its attributes.\<close>

definition decodes_to :: "json_decoder \<Rightarrow> string \<Rightarrow> log_message \<Rightarrow> bool" where
  "decodes_to J l m \<longleftrightarrow> (\<exists>m0 attrs. Unmarshal_message (jd_level J) (jd_parse J) l = Inr m0 \<and>
     Unmarshal_attributes (jd_parse J) l = Inr attrs \<and> m = m0\<lparr>lm_Attributes := attrs\<rparr>)"

lemma decode_lines_app:
  "list_all2 (\<lambda>l m. l \<noteq> [] \<and> decodes_to J l m) ls ms \<Longrightarrow> decode_lines J (ls @ [[]]) acc = Inr (acc @ ms)"
  by (induction ls ms arbitrary: acc rule: list_all2_induct) (auto simp: decodes_to_def)

text \<open>The tags, and the members that no field takes.\<close>

lemma tags: "equalFold k ''message'' \<longleftrightarrow> asciiLower k = ''message''" "equalFold k ''level'' \<longleftrightarrow> asciiLower k = ''level''"
  "equalFold k ''service'' \<longleftrightarrow> asciiLower k = ''service''" "equalFold k ''error'' \<longleftrightarrow> asciiLower k = ''error''"
proof -
  have "asciiLower ''message'' = ''message''" "asciiLower ''level'' = ''level''"
    "asciiLower ''service'' = ''service''" "asciiLower ''error'' = ''error''" by code_simp+
  then show "equalFold k ''message'' \<longleftrightarrow> asciiLower k = ''message''" "equalFold k ''level'' \<longleftrightarrow> asciiLower k = ''level''"
    "equalFold k ''service'' \<longleftrightarrow> asciiLower k = ''service''" "equalFold k ''error'' \<longleftrightarrow> asciiLower k = ''error''"
    by (simp_all add: equalFold_def)
qed

lemma tag_lower [simp]: "asciiLower ''message'' = ''message''" "asciiLower ''level'' = ''level''"
  "asciiLower ''service'' = ''service''" "asciiLower ''error'' = ''error''"
  by code_simp+

lemma set_members_append:
  "set_members parse (xs @ ys) m = (case set_members parse xs m of Inl e \<Rightarrow> Inl e | Inr m1 \<Rightarrow> set_members parse ys m1)"
  by (induction xs arbitrary: m) (auto split: sum.split)

lemma set_members_ignored:
  "\<forall>k \<in> fst ` set kvs. asciiLower k \<notin> {''message'', ''level'', ''service'', ''error''} \<Longrightarrow> set_members parse kvs m = Inr m"
  by (induction kvs) (auto simp: set_member_def tags)

lemma level_found_iff: "level_found l lvls \<longleftrightarrow> l \<in> set lvls"
  by (induction lvls) auto

lemma keep_levels_filter: "keep_levels levels logs acc = acc @ filter (\<lambda>m. lm_Level m \<in> set levels) logs"
  by (induction logs arbitrary: acc) (auto simp: level_found_iff)

lemma keep_levels_error: "GetLogMessages J b = Inl e \<Longrightarrow> getMessagesForLevels J b ls = Inl e"
  by (simp add: getMessagesForLevels_def)

end
