(* ===== verification/Log_Output.thy ===== *)
theory Log_Output
  imports Test_Logger
begin

text \<open>
  Where a logger writes: the writers of \<open>New\<close> (\<open>logger/logger.go\<close>) and the logger with a buffer of
  \<open>logger/testlogger/test_logger.go\<close>, whose messages are read back.  The bytes zerolog makes of an event
  and the format of its console writer are parameters.
\<close>

section \<open>Writers\<close>

text \<open>\<open>bytes.Buffer\<close>s by their addresses, the standard streams, and the writers made from others.\<close>

datatype io_stream = Stdout | Stderr

datatype io_writer =
    BufferWriter nat
  | StreamWriter io_stream
  | Pretty io_writer
  | MultiWriter "io_writer list"
  | Discard

text \<open>The third field gives the writers that configurations name by numbers.\<close>

record log_world =
  buffers :: "nat \<Rightarrow> string"
  streams :: "io_stream \<Rightarrow> string"
  writers :: "nat \<Rightarrow> io_writer"

record log_entry =
  le_Level :: int
  le_Message :: string
  le_Error :: "goerror option"
  le_time :: nat

text \<open>
  zerolog: the bytes a logger hands to its writer for an event, in one call, if it lets the event through;
  the format of the console writer; the global level.
\<close>

record zerolog_lib =
  zl_event :: "logger \<Rightarrow> log_entry \<Rightarrow> string option"
  zl_console :: "string \<Rightarrow> string"
  zl_global :: int

text \<open>\<open>Write\<close>; a multi-writer passes the bytes to its writers in order.\<close>

fun write_bytes :: "zerolog_lib \<Rightarrow> io_writer \<Rightarrow> string \<Rightarrow> log_world \<Rightarrow> log_world"
  and write_each :: "zerolog_lib \<Rightarrow> io_writer list \<Rightarrow> string \<Rightarrow> log_world \<Rightarrow> log_world" where
  "write_bytes Z (BufferWriter b) s W = W\<lparr>buffers := (buffers W)(b := buffers W b @ s)\<rparr>"
| "write_bytes Z (StreamWriter f) s W = W\<lparr>streams := (streams W)(f := streams W f @ s)\<rparr>"
| "write_bytes Z (Pretty w) s W = write_bytes Z w (zl_console Z s) W"
| "write_bytes Z (MultiWriter ws) s W = write_each Z ws s W"
| "write_bytes Z Discard s W = W"
| "write_each Z [] s W = W"
| "write_each Z (w # ws) s W = write_each Z ws s (write_bytes Z w s W)"

fun destination :: "log_world \<Rightarrow> log_destination option \<Rightarrow> io_writer" where
  "destination W None = Discard"
| "destination W (Some (RawWriter n)) = writers W n"
| "destination W (Some (ConsoleWriter n)) = Pretty (writers W n)"

section \<open>Loggers of the package\<close>

definition NewFromZerolog :: "logger \<Rightarrow> logger" where
  "NewFromZerolog l = l"

text \<open>The package's standard logger; the error is dropped, so it is nil when the level does not parse.\<close>

definition StdLogger :: "(string \<Rightarrow> string) \<Rightarrow> (string \<Rightarrow> goerror + int) \<Rightarrow> string \<Rightarrow> nat \<Rightarrow> (logger \<times> log_destination option) option" where
  "StdLogger U parse file stdout =
     (case New_logger U parse (DefaultConfig_log file stdout) of Inl _ \<Rightarrow> None | Inr l \<Rightarrow> Some l)"

text \<open>\<open>zerologr.New\<close> wraps the logger for \<open>logr\<close>.\<close>

definition Logr :: "(logger \<Rightarrow> 'r) \<Rightarrow> logger \<Rightarrow> 'r" where
  "Logr zerologr_New l = zerologr_New l"

section \<open>The test logger\<close>

record test_logger =
  tl_Logger :: "(logger \<times> io_writer) option"
  tl_buffer :: nat

text \<open>
  \<open>b\<close> is the address of the new buffer and \<open>n\<close> the number of the new multi-writer.  The error of
  \<open>logger.New\<close> is dropped and leaves a nil logger.
\<close>

definition New_test ::
  "(string \<Rightarrow> string) \<Rightarrow> (string \<Rightarrow> goerror + int) \<Rightarrow> string \<Rightarrow> nat \<Rightarrow> nat \<Rightarrow> nat \<Rightarrow> log_world \<Rightarrow>
   test_logger \<times> log_world" where
  "New_test U parse file stdout b n W =
     (let W1 = W\<lparr>buffers := (buffers W)(b := []),
            writers := (writers W)(n := MultiWriter [BufferWriter b, Pretty (StreamWriter Stderr)])\<rparr>;
          cfg = (DefaultConfig_log file stdout)\<lparr>lg_Level := ''debug'', lg_Output := Some n\<rparr>;
          l = (case New_logger U parse cfg of Inl _ \<Rightarrow> None | Inr (l, d) \<Rightarrow> Some (l, destination W1 d))
      in (\<lparr>tl_Logger = l, tl_buffer = b\<rparr>, W1))"

text \<open>A nil logger panics.\<close>

definition HideLogOutput :: "test_logger \<Rightarrow> test_logger option" where
  "HideLogOutput t =
     (case tl_Logger t of
        None \<Rightarrow> None
      | Some (l, _) \<Rightarrow> Some (t\<lparr>tl_Logger := Some (NewFromZerolog l, BufferWriter (tl_buffer t))\<rparr>))"

section \<open>Logging\<close>

definition log_event :: "zerolog_lib \<Rightarrow> logger \<Rightarrow> io_writer \<Rightarrow> log_entry \<Rightarrow> log_world \<Rightarrow> log_world" where
  "log_event Z l w e W = (case zl_event Z l e of None \<Rightarrow> W | Some s \<Rightarrow> write_bytes Z w s W)"

text \<open>Events through child loggers of a logger, each with the attributes of its child.\<close>

definition child_of :: "logger \<Rightarrow> (string \<times> string) list \<Rightarrow> logger" where
  "child_of l kvs = foldl (\<lambda>l (k, v). ChildLogger l k v) l kvs"

fun log_all :: "zerolog_lib \<Rightarrow> logger \<times> io_writer \<Rightarrow> ((string \<times> string) list \<times> log_entry) list \<Rightarrow> log_world \<Rightarrow> log_world" where
  "log_all Z lw [] W = W"
| "log_all Z lw ((kvs, e) # es) W = log_all Z lw es (log_event Z (child_of (fst lw) kvs) (snd lw) e W)"

lemma child_of_fields: "child_of l kvs = l\<lparr>log_fields := log_fields l @ kvs\<rparr>"
  unfolding child_of_def by (induction kvs arbitrary: l) (auto simp: ChildLogger_def)

section \<open>Properties\<close>

text \<open>
  The documented behaviour of zerolog, for events of its named levels: an event below the level of the logger or
  the global one is dropped; another, when its texts are ASCII, is one line, which parses as a JSON object with the
  members in the order of zerolog: the level's name, the fields of the logger, the error, the time stamp and
  the caller of this package's loggers, and the message unless it is empty.
\<close>

definition named_level :: "int \<Rightarrow> bool" where
  "named_level l \<longleftrightarrow> -1 \<le> l \<and> l \<le> 5"

definition level_text :: "int \<Rightarrow> string" where
  "level_text l = [''trace'', ''debug'', ''info'', ''warn'', ''error'', ''fatal'', ''panic''] ! nat (l + 1)"

definition level_laws :: "(string \<Rightarrow> goerror + int) \<Rightarrow> bool" where
  "level_laws parse \<longleftrightarrow> (\<forall>l. named_level l \<longrightarrow> parse (level_text l) = Inr l)"

definition passes :: "zerolog_lib \<Rightarrow> int \<Rightarrow> log_entry \<Rightarrow> bool" where
  "passes Z lvl e \<longleftrightarrow> lvl \<le> le_Level e \<and> zl_global Z \<le> le_Level e"

definition plain_text :: "(string \<times> string) list \<Rightarrow> log_entry \<Rightarrow> bool" where
  "plain_text kvs e \<longleftrightarrow> (\<forall>(k, v) \<in> set kvs. ascii k \<and> ascii v) \<and> ascii (le_Message e) \<and>
     (\<forall>err. le_Error e = Some err \<longrightarrow> ascii (error_text err))"

definition entry_members :: "logger \<Rightarrow> log_entry \<Rightarrow> (string \<times> json) list \<Rightarrow> (string \<times> json) list" where
  "entry_members l e extra =
     [(''level'', JStr (level_text (le_Level e)))] @ map (\<lambda>(k, v). (k, JStr v)) (log_fields l) @
     (case le_Error e of None \<Rightarrow> [] | Some err \<Rightarrow> [(''error'', JStr (error_text err))]) @ extra @
     (if le_Message e = [] then [] else [(''message'', JStr (le_Message e))])"

definition event_laws :: "zerolog_lib \<Rightarrow> json_parser \<Rightarrow> bool" where
  "event_laws Z jp \<longleftrightarrow> (\<forall>l e. named_level (le_Level e) \<longrightarrow>
     (\<not> passes Z (log_level l) e \<longrightarrow> zl_event Z l e = None) \<and>
     (passes Z (log_level l) e \<and> plain_text (log_fields l) e \<longrightarrow>
        (\<exists>line extra. zl_event Z l e = Some (line @ [newline]) \<and> line \<noteq> [] \<and> newline \<notin> set line \<and>
           fst ` set extra \<subseteq> {''time'', ''caller''} \<and> jp line = Inr (JObj (entry_members l e extra)))))"

text \<open>
  What can be read back: events of a named level with ASCII texts and attributes whose names are not the
  ones of the other members.
\<close>

definition reserved :: "string \<Rightarrow> bool" where
  "reserved k \<longleftrightarrow> asciiLower k \<in> {''message'', ''level'', ''service'', ''error'', ''time'', ''caller''}"

definition usable :: "(string \<times> string) list \<times> log_entry \<Rightarrow> bool" where
  "usable c \<longleftrightarrow> (\<forall>(k, v) \<in> set (fst c). \<not> reserved k) \<and> named_level (le_Level (snd c)) \<and> plain_text (fst c) (snd c)"

definition reads_back :: "string \<Rightarrow> (string \<times> string) list \<times> log_entry \<Rightarrow> log_message \<Rightarrow> bool" where
  "reads_back service c m \<longleftrightarrow> lm_Message m = le_Message (snd c) \<and> lm_Level m = le_Level (snd c) \<and>
     lm_Error m = map_option error_text (le_Error (snd c)) \<and> lm_Service m = service \<and>
     (\<forall>k v. map_of (rev (fst c)) k = Some v \<longrightarrow> lm_Attributes m k = Some (JStr v))"

definition line_decodes :: "json_decoder \<Rightarrow> string \<Rightarrow> (string \<times> string) list \<times> log_entry \<Rightarrow> string \<Rightarrow> bool" where
  "line_decodes J service c line \<longleftrightarrow> line \<noteq> [] \<and> newline \<notin> set line \<and> (\<exists>m. decodes_to J line m \<and> reads_back service c m)"

text \<open>The tags of \<open>LogMessage\<close> take up the members of an event.\<close>

lemma members_taken:
  assumes "level_laws parse" and u: "usable (kvs, e)" and "fst ` set extra \<subseteq> {''time'', ''caller''}"
    and f: "log_fields l = (''service'', service) # kvs"
  shows "set_members parse (entry_members l e extra) empty_message =
    Inr \<lparr>lm_Message = le_Message e, lm_Level = le_Level e, lm_Service = service,
      lm_Error = map_option error_text (le_Error e), lm_Attributes = Map.empty\<rparr>"
proof -
  have lvl: "parse (level_text (le_Level e)) = Inr (le_Level e)" using assms(1) u by (simp add: level_laws_def usable_def)
  have kv: "set_members parse (map (\<lambda>(k, v). (k, JStr v)) kvs) m = Inr m" for m
    using u by (intro set_members_ignored) (auto simp: usable_def reserved_def)
  have "asciiLower ''time'' = ''time''" "asciiLower ''caller'' = ''caller''" by code_simp+
  with assms(3) have ex: "set_members parse extra m = Inr m" for m
    by (intro set_members_ignored) auto
  show ?thesis
    by (cases "le_Error e") (simp_all add: entry_members_def set_members_append set_member_def tags f lvl kv ex empty_message_def)
qed

lemma last_member:
  assumes "map_of (rev kvs) k = Some v" and "\<forall>(k, v) \<in> set kvs. \<not> reserved k" and "fst ` set extra \<subseteq> {''time'', ''caller''}"
    and f: "log_fields l = (''service'', service) # kvs"
  shows "map_of (rev (entry_members l e extra)) k = Some (JStr v)"
proof -
  have "(k, v) \<in> set kvs" using map_of_SomeD [OF assms(1)] by simp
  then have k: "\<not> reserved k" using assms(2) by auto
  have low: "asciiLower ''time'' = ''time''" "asciiLower ''caller'' = ''caller''" by code_simp+
  have "k \<noteq> ''message''" "k \<noteq> ''error''" "k \<noteq> ''time''" "k \<noteq> ''caller''" "k \<noteq> ''level''" "k \<noteq> ''service''"
    using k low tag_lower by (auto simp: reserved_def)
  note ne = this
  have ex: "map_of (rev extra) k = None"
    using assms(3) ne by (auto simp: map_of_eq_None_iff)
  have kv: "map_of (rev (map (\<lambda>(k, v). (k, JStr v)) kvs)) k = Some (JStr v)"
    using assms(1) by (simp add: rev_map map_of_map)
  show ?thesis
    by (cases "le_Error e") (simp_all add: entry_members_def f ne ex kv map_add_def)
qed

lemma log_event_line:
  assumes "event_laws Z (jd_parse J)" "level_laws (jd_level J)" "log_fields l = [(''service'', service)]" "ascii service"
    "usable (kvs, e)"
  shows "if passes Z (log_level l) e
    then \<exists>line. log_event Z (child_of l kvs) w e W = write_bytes Z w (line @ [newline]) W \<and> line_decodes J service (kvs, e) line
    else log_event Z (child_of l kvs) w e W = W"
proof -
  let ?l = "child_of l kvs"
  have l: "log_level ?l = log_level l" "log_fields ?l = (''service'', service) # kvs"
    using assms(3) by (simp_all add: child_of_fields)
  have n: "named_level (le_Level e)" using assms(5) by (simp add: usable_def)
  show ?thesis
  proof (cases "passes Z (log_level l) e")
    case True
    have "plain_text (log_fields ?l) e" using assms(4,5) by (simp add: l usable_def plain_text_def)
    with assms(1) n True l(1) obtain line extra where ev: "zl_event Z ?l e = Some (line @ [newline])" "line \<noteq> []"
      "newline \<notin> set line" and x: "fst ` set extra \<subseteq> {''time'', ''caller''}"
      and jp: "jd_parse J line = Inr (JObj (entry_members ?l e extra))"
      unfolding event_laws_def by metis
    let ?m = "\<lparr>lm_Message = le_Message e, lm_Level = le_Level e, lm_Service = service,
      lm_Error = map_option error_text (le_Error e), lm_Attributes = map_of (rev (entry_members ?l e extra))\<rparr>"
    have "decodes_to J line ?m"
      using members_taken [OF assms(2,5) x l(2)] jp
      by (simp add: decodes_to_def Unmarshal_message_def Unmarshal_attributes_def)
    moreover have "\<forall>(k, v) \<in> set kvs. \<not> reserved k" using assms(5) by (simp add: usable_def)
    then have "reads_back service (kvs, e) ?m"
      using last_member [OF _ _ x l(2)] by (simp add: reads_back_def)
    ultimately have "line_decodes J service (kvs, e) line" using ev by (auto simp: line_decodes_def)
    with ev True show ?thesis by (auto simp: log_event_def)
  next
    case False
    with assms(1) n l(1) have "zl_event Z ?l e = None" unfolding event_laws_def by metis
    with False show ?thesis by (simp add: log_event_def)
  qed
qed

text \<open>The two writers of a test logger: the buffer gets the bytes as they are.\<close>

definition fills :: "io_writer \<Rightarrow> nat \<Rightarrow> bool" where
  "fills w b \<longleftrightarrow> w = BufferWriter b \<or> w = MultiWriter [BufferWriter b, Pretty (StreamWriter Stderr)]"

lemma fills_buffer: "fills w b \<Longrightarrow> buffers (write_bytes Z w s W) b = buffers W b @ s"
  by (auto simp: fills_def)

lemma buffer_of_Cons: "buffer_of (l # ls) = (l @ [newline]) @ buffer_of ls"
  by (simp add: buffer_of_def)

lemma log_all_lines:
  assumes "event_laws Z (jd_parse J)" "level_laws (jd_level J)" "log_fields l = [(''service'', service)]" "ascii service"
    "\<forall>c \<in> set cs. usable c" "fills w b"
  shows "\<exists>ls. buffers (log_all Z (l, w) cs W) b = buffers W b @ buffer_of ls \<and>
    list_all2 (line_decodes J service) (filter (\<lambda>c. passes Z (log_level l) (snd c)) cs) ls"
  using assms(5)
proof (induction cs arbitrary: W)
  case Nil
  then show ?case by (auto simp: buffer_of_def intro: exI [of _ "[]"])
next
  case (Cons c cs)
  obtain kvs e where c: "c = (kvs, e)" by fastforce
  let ?W = "log_event Z (child_of l kvs) w e W"
  from Cons obtain ls where ls: "buffers (log_all Z (l, w) cs ?W) b = buffers ?W b @ buffer_of ls"
    "list_all2 (line_decodes J service) (filter (\<lambda>c. passes Z (log_level l) (snd c)) cs) ls" by auto
  have u: "usable (kvs, e)" using Cons.prems c by simp
  show ?case
  proof (cases "passes Z (log_level l) e")
    case True
    with log_event_line [OF assms(1-4) u, of w W] obtain line where
      "?W = write_bytes Z w (line @ [newline]) W" "line_decodes J service (kvs, e) line" by auto
    with ls True show ?thesis unfolding c
      by (intro exI [of _ "line # ls"]) (simp add: fills_buffer [OF assms(6)] buffer_of_Cons)
  next
    case False
    with log_event_line [OF assms(1-4) u, of w W] ls show ?thesis unfolding c by (intro exI [of _ ls]) simp
  qed
qed

lemma decode_lines_all:
  "list_all2 (line_decodes J service) cs ls \<Longrightarrow>
    \<exists>ms. GetLogMessages J (buffer_of ls) = Inr ms \<and> list_all2 (reads_back service) cs ms"
proof -
  assume d: "list_all2 (line_decodes J service) cs ls"
  then have "\<exists>ms. list_all2 (\<lambda>l m. l \<noteq> [] \<and> decodes_to J l m) ls ms \<and> list_all2 (reads_back service) cs ms \<and>
      (\<forall>l \<in> set ls. newline \<notin> set l)"
  proof (induction rule: list_all2_induct)
    case (Cons c cs l ls)
    then obtain ms m where "list_all2 (\<lambda>l m. l \<noteq> [] \<and> decodes_to J l m) ls ms" "list_all2 (reads_back service) cs ms"
      "\<forall>l \<in> set ls. newline \<notin> set l" "l \<noteq> []" "newline \<notin> set l" "decodes_to J l m" "reads_back service c m"
      unfolding line_decodes_def by blast
    then show ?case by (intro exI [of _ "m # ms"]) simp
  qed simp
  then obtain ms where ms: "list_all2 (\<lambda>l m. l \<noteq> [] \<and> decodes_to J l m) ls ms" "list_all2 (reads_back service) cs ms"
    "\<forall>l \<in> set ls. newline \<notin> set l" by blast
  have "GetLogMessages J (buffer_of ls) = Inr ms"
    using decode_lines_app [OF ms(1), of "[]"] ms(3) by (simp add: GetLogMessages_def splitOn_buffer)
  with ms(2) show ?thesis by blast
qed

lemma log_all_silent: "streams (log_all Z (l, BufferWriter b) cs W) = streams W"
  by (induction cs arbitrary: W) (auto simp: log_event_def split: option.split)

text \<open>The logger of a new test logger, hidden or not.\<close>

lemma New_test_parts:
  assumes "level_laws parse" "New_test U parse file stdout b n W = (t0, W0)"
    and "t = t0 \<or> HideLogOutput t0 = Some t"
  obtains w where "tl_Logger t = Some (\<lparr>log_level = 0, log_fields = [(''service'', file)]\<rparr>, w)" "fills w b" "buffers W0 b = []"
    "HideLogOutput t0 = Some t \<longrightarrow> w = BufferWriter b"
proof -
  have "toLower U ''debug'' = ''debug''" by code_simp
  moreover have "parse ''debug'' = Inr 0"
    using assms(1) unfolding level_laws_def by (elim allE [of _ 0]) (simp add: named_level_def level_text_def)
  ultimately have n: "tl_Logger t0 = Some (\<lparr>log_level = 0, log_fields = [(''service'', file)]\<rparr>,
      MultiWriter [BufferWriter b, Pretty (StreamWriter Stderr)])" "tl_buffer t0 = b" "buffers W0 b = []"
    using assms(2) by (auto simp: New_test_def New_logger_def DefaultConfig_log_def SetDefaults_def Let_def)
  show ?thesis
  proof (cases "HideLogOutput t0 = Some t")
    case True
    with n have "tl_Logger t = Some (\<lparr>log_level = 0, log_fields = [(''service'', file)]\<rparr>, BufferWriter b)"
      by (auto simp: HideLogOutput_def NewFromZerolog_def)
    with n(3) show ?thesis by (intro that) (auto simp: fills_def)
  next
    case False
    with assms(3) n show ?thesis by (intro that) (auto simp: fills_def)
  qed
qed

text \<open>
  C38.  What is logged in a test is read back: take a new test logger in a program with an ASCII file name, whether its output is hidden or not, and
  any events of the named levels, trace to panic, with ASCII texts, logged through it or through children whose attributes are ASCII and have no name of
  another member (message, level, service, error, time, caller).  Its buffer keeps every event of level debug or above that the global level lets through,
  and none below: \<open>GetLogMessages\<close> succeeds and returns them in the order of the calls with message, level, error,
  service and attributes, and \<open>GetErrorMessages\<close> returns of these the ones of level error, fatal and panic; a hidden one
  writes nothing to the standard streams.
\<close>

theorem test_logger_roundtrip:
  assumes "event_laws Z (jd_parse J)" and "level_laws (jd_level J)" and "ascii file" and "\<forall>c \<in> set cs. usable c"
    and "New_test U (jd_level J) file stdout b n W = (t0, W0)" and "t = t0 \<or> HideLogOutput t0 = Some t"
  shows "\<exists>lw ms. tl_Logger t = Some lw \<and>
    (let buf = buffers (log_all Z lw cs W0) b in
      GetLogMessages J buf = Inr ms \<and> list_all2 (reads_back file) (filter (\<lambda>c. passes Z 0 (snd c)) cs) ms \<and>
      GetErrorMessages J buf = Inr (filter (\<lambda>m. lm_Level m \<in> {3, 4, 5}) ms) \<and>
      (HideLogOutput t0 = Some t \<longrightarrow> streams (log_all Z lw cs W0) = streams W0))"
proof -
  let ?l = "\<lparr>log_level = 0, log_fields = [(''service'', file)]\<rparr>"
  from New_test_parts [OF assms(2,5,6)] obtain w where
    w: "tl_Logger t = Some (?l, w)" "fills w b" "buffers W0 b = []"
      "HideLogOutput t0 = Some t \<longrightarrow> w = BufferWriter b" .
  have "log_fields ?l = [(''service'', file)]" by simp
  from log_all_lines [OF assms(1,2) this assms(3,4) w(2), of W0]
  obtain ls where ls: "buffers (log_all Z (?l, w) cs W0) b = buffer_of ls"
    "list_all2 (line_decodes J file) (filter (\<lambda>c. passes Z 0 (snd c)) cs) ls" using w(3) by auto
  from decode_lines_all [OF ls(2)] obtain ms where
    "GetLogMessages J (buffer_of ls) = Inr ms" "list_all2 (reads_back file) (filter (\<lambda>c. passes Z 0 (snd c)) cs) ms" by blast
  then show ?thesis unfolding w(1) Let_def
    by (intro exI [of _ "(?l, w)"] exI [of _ ms])
      (use w(4) in \<open>auto simp: ls(1) GetErrorMessages_def getMessagesForLevels_def keep_levels_filter log_all_silent\<close>)
qed

section \<open>An encoder\<close>

text \<open>
  A line format, as an instance of the parameters: the names and values of the members, closed by semicolons,
  with escapes for the three bytes it uses.
\<close>

definition escape_char :: "char \<Rightarrow> string" where
  "escape_char c = (if c = newline then [CHR ''%'', CHR ''n''] else if c = CHR '';'' then [CHR ''%'', CHR ''s'']
     else if c = CHR ''%'' then [CHR ''%'', CHR ''p''] else [c])"

definition escape :: "string \<Rightarrow> string" where
  "escape s = concat (map escape_char s)"

fun unescape :: "string \<Rightarrow> string" where
  "unescape (c # d # s) =
     (if c = CHR ''%'' then (if d = CHR ''n'' then newline else if d = CHR ''s'' then CHR '';'' else CHR ''%'') # unescape s
      else c # unescape (d # s))"
| "unescape s = s"

lemma unescape_plain: "c \<noteq> CHR ''%'' \<Longrightarrow> unescape (c # s) = c # unescape s"
  by (cases s) auto

lemma unescape_escape [simp]: "unescape (escape s) = s"
  by (induction s) (auto simp: escape_def escape_char_def newline_def unescape_plain)

lemma escape_free: "newline \<notin> set (escape s)" "CHR '';'' \<notin> set (escape s)"
  by (auto simp: escape_def escape_char_def newline_def)

fun field_tokens :: "(string \<times> json) list \<Rightarrow> string list" where
  "field_tokens [] = []"
| "field_tokens ((k, JStr v) # kvs) = k # v # field_tokens kvs"
| "field_tokens (_ # kvs) = field_tokens kvs"

definition plain_lib :: zerolog_lib where
  "plain_lib = \<lparr>zl_event = (\<lambda>l e. if log_level l \<le> le_Level e \<and> -1 \<le> le_Level e
       then Some (joinWith '';'' (map escape (field_tokens (entry_members l e []))) @ [newline]) else None),
     zl_console = (\<lambda>s. s), zl_global = -1\<rparr>"

definition tokens_of :: "string \<Rightarrow> string list" where
  "tokens_of line = map unescape (splitOn CHR '';'' line)"

definition level_of :: "string \<Rightarrow> goerror + int" where
  "level_of s = (case map_of (map (\<lambda>l. (level_text l, l)) [-1, 0, 1, 2, 3, 4, 5]) s of
     None \<Rightarrow> Inl (ErrorString ''unknown level'') | Some l \<Rightarrow> Inr l)"

definition token_decoder :: json_decoder where
  "token_decoder = \<lparr>jd_level = level_of,
     jd_parse = (\<lambda>line. Inr (JObj (map (\<lambda>(k, v). (k, JStr v)) (pairs_of (tokens_of line)))))\<rparr>"

lemma tokens_of_join: "ts \<noteq> [] \<Longrightarrow> tokens_of (joinWith '';'' (map escape ts)) = ts"
  by (simp add: tokens_of_def splitOn_joinWith escape_free comp_def)

lemma joinWith_free: "\<forall>w \<in> set ws. c \<notin> set w \<Longrightarrow> c \<notin> set sep \<Longrightarrow> c \<notin> set (joinWith sep ws)"
  by (induction sep ws rule: joinWith.induct) auto

lemma pairs_tokens:
  "snd ` set kvs \<subseteq> range JStr \<Longrightarrow> map (\<lambda>(k, v). (k, JStr v)) (pairs_of (field_tokens kvs)) = kvs"
  by (induction kvs rule: field_tokens.induct) auto

lemma level_cases: "named_level l \<Longrightarrow> l = -1 \<or> l = 0 \<or> l = 1 \<or> l = 2 \<or> l = 3 \<or> l = 4 \<or> l = 5"
  by (auto simp: named_level_def)

lemma level_of_laws: "level_laws level_of"
  unfolding level_laws_def
proof (intro allI impI)
  fix l assume "named_level l"
  from level_cases [OF this] show "level_of (level_text l) = Inr l"
    by (elim disjE) (simp_all add: level_of_def level_text_def)
qed

lemma plain_laws: "event_laws plain_lib (jd_parse token_decoder)"
  unfolding event_laws_def
proof (intro allI impI)
  fix l :: logger and e :: log_entry assume n: "named_level (le_Level e)"
  let ?ts = "field_tokens (entry_members l e [])"
  let ?line = "joinWith '';'' (map escape ?ts)"
  have ne: "?ts \<noteq> []" by (simp add: entry_members_def)
  have t: "tokens_of ?line = ?ts" by (rule tokens_of_join [OF ne])
  have free: "newline \<notin> set ?line" by (rule joinWith_free) (use escape_free(1) in \<open>auto simp: newline_def\<close>)
  have "?ts \<noteq> [[]]" by (simp add: entry_members_def)
  then have line: "?line \<noteq> []" using t by (auto simp: tokens_of_def)
  have "snd ` set (entry_members l e []) \<subseteq> range JStr" by (auto simp: entry_members_def split: option.split)
  then have jp: "jd_parse token_decoder ?line = Inr (JObj (entry_members l e []))"
    by (simp add: token_decoder_def t pairs_tokens)
  show "(\<not> passes plain_lib (log_level l) e \<longrightarrow> zl_event plain_lib l e = None) \<and>
     (passes plain_lib (log_level l) e \<and> plain_text (log_fields l) e \<longrightarrow>
        (\<exists>line extra. zl_event plain_lib l e = Some (line @ [newline]) \<and> line \<noteq> [] \<and> newline \<notin> set line \<and>
           fst ` set extra \<subseteq> {''time'', ''caller''} \<and> jd_parse token_decoder line = Inr (JObj (entry_members l e extra))))"
  proof (intro conjI impI)
    assume "\<not> passes plain_lib (log_level l) e"
    then show "zl_event plain_lib l e = None" by (auto simp: passes_def plain_lib_def)
  next
    assume "passes plain_lib (log_level l) e \<and> plain_text (log_fields l) e"
    then have "zl_event plain_lib l e = Some (?line @ [newline])" by (simp add: passes_def plain_lib_def)
    with free line jp show "\<exists>line extra. zl_event plain_lib l e = Some (line @ [newline]) \<and> line \<noteq> [] \<and> newline \<notin> set line \<and>
           fst ` set extra \<subseteq> {''time'', ''caller''} \<and> jd_parse token_decoder line = Inr (JObj (entry_members l e extra))"
      by (intro exI [of _ ?line] exI [of _ "[]"]) simp
  qed
qed

text \<open>Three events, one below the level and one through a child, of a hidden test logger.\<close>

definition no_output :: log_world where
  "no_output = \<lparr>buffers = (\<lambda>_. []), streams = (\<lambda>_. []), writers = (\<lambda>_. StreamWriter Stdout)\<rparr>"

definition three_events :: "((string \<times> string) list \<times> log_entry) list" where
  "three_events = [([], \<lparr>le_Level = -1, le_Message = ''trace'', le_Error = None, le_time = 0\<rparr>),
     ([(''component'', ''c'')], \<lparr>le_Level = 1, le_Message = ''up'', le_Error = None, le_time = 1\<rparr>),
     ([], \<lparr>le_Level = 3, le_Message = ''down'', le_Error = Some (ErrorString ''e''), le_time = 2\<rparr>)]"

lemma token_decoder_level: "jd_level token_decoder = level_of"
  by (simp add: token_decoder_def)

theorem test_logger_roundtrip_witness:
  "\<exists>t (W1 :: log_world) up down. HideLogOutput (fst (New_test id level_of ''f.go'' 0 7 8 no_output)) = Some t \<and>
     GetLogMessages token_decoder (buffers W1 7) = Inr [up, down] \<and>
     lm_Message up = ''up'' \<and> lm_Attributes up ''component'' = Some (JStr ''c'') \<and>
     lm_Service down = ''f.go'' \<and> lm_Error down = Some ''e''"
proof -
  obtain t0 W0 where n: "New_test id level_of ''f.go'' 0 7 8 no_output = (t0, W0)" by fastforce
  moreover have "toLower id ''debug'' = ''debug''" by code_simp
  moreover have "level_of ''debug'' = Inr 0" by (simp add: level_of_def level_text_def)
  ultimately obtain t where t: "HideLogOutput t0 = Some t"
    by (auto simp: New_test_def HideLogOutput_def New_logger_def DefaultConfig_log_def SetDefaults_def Let_def)
  have "\<not> reserved ''component''" unfolding reserved_def by code_simp
  then have "\<forall>c \<in> set three_events. usable c" by (simp add: three_events_def usable_def named_level_def plain_text_def)
  note n1 = n [folded token_decoder_level]
  have "ascii ''f.go''" by code_simp
  note f = this
  have "level_laws (jd_level token_decoder)" by (simp add: token_decoder_level level_of_laws)
  from test_logger_roundtrip [OF plain_laws this f \<open>\<forall>c \<in> set three_events. usable c\<close> n1 disjI2 [OF t]] obtain lw ms where
    "GetLogMessages token_decoder (buffers (log_all plain_lib lw three_events W0) 7) = Inr ms"
    "list_all2 (reads_back ''f.go'') (filter (\<lambda>c. passes plain_lib 0 (snd c)) three_events) ms" by (auto simp: Let_def)
  moreover from this(2) obtain up down where "ms = [up, down]" "lm_Message up = ''up''"
    "lm_Attributes up ''component'' = Some (JStr ''c'')" "lm_Service down = ''f.go''" "lm_Error down = Some ''e''"
    by (auto simp: three_events_def passes_def plain_lib_def list_all2_Cons1 reads_back_def)
  moreover have "HideLogOutput (fst (New_test id level_of ''f.go'' 0 7 8 no_output)) = Some t" using n t by simp
  ultimately show ?thesis
    by (intro exI [of _ t] exI [of _ "log_all plain_lib lw three_events W0"] exI [of _ up] exI [of _ down]) simp
qed

end
