(* ===== verification/Sentry_Report.thy ===== *)
theory Sentry_Report
  imports Context "HOL-Library.AList"
begin

text \<open>
  The package \<open>sentry\<close>: Sentry errors (\<open>error.go\<close>), the filter (\<open>filter.go\<close>), the events that
  \<open>CaptureError\<close> builds and the panic wrapper (\<open>sentry.go\<close>), and the GraphQL hooks
  (\<open>graphql_middleware.go\<close>).  The Sentry client is modelled by the events it is given; \<open>reflect\<close>'s type
  names, the stack traces it can extract and gqlgen's context are parameters.
\<close>

section \<open>Sentry errors\<close>

text \<open>The chain that \<open>errors.As\<close> and the loop of \<open>CaptureError\<close> follow.\<close>

fun unwrap :: "goerror \<Rightarrow> goerror option" where
  "unwrap (WrapError m e) = Some e"
| "unwrap (SentryErr e ts xs) = Some e"
| "unwrap _ = None"

definition SentryError :: "goerror option \<Rightarrow> goerror option" where
  "SentryError err = (case err of None \<Rightarrow> None | Some e \<Rightarrow> Some (SentryErr e [] []))"

text \<open>Maps with reference semantics: an error is changed where it is.\<close>

fun AddTag :: "string \<Rightarrow> string \<Rightarrow> goerror \<Rightarrow> goerror" where
  "AddTag k v (SentryErr e ts xs) = SentryErr e (AList.update k v ts) xs"
| "AddTag k v e = e"

fun AddExtra :: "string \<Rightarrow> string \<Rightarrow> goerror \<Rightarrow> goerror" where
  "AddExtra k v (SentryErr e ts xs) = SentryErr e ts (AList.update k v xs)"
| "AddExtra k v e = e"

fun AsSentryError :: "goerror \<Rightarrow> (goerror \<times> tags \<times> tags) option" where
  "AsSentryError (SentryErr e ts xs) = Some (e, ts, xs)"
| "AsSentryError (WrapError m e) = AsSentryError e"
| "AsSentryError _ = None"

definition IsSentryError :: "goerror option \<Rightarrow> bool" where
  "IsSentryError err = (case err of None \<Rightarrow> False | Some e \<Rightarrow> AsSentryError e \<noteq> None)"

text \<open>The accessors; only a Sentry error has them.\<close>

fun GetReason :: "goerror \<Rightarrow> goerror" where
  "GetReason (SentryErr e ts xs) = e"
| "GetReason e = e"

fun GetTags :: "goerror \<Rightarrow> tags" where
  "GetTags (SentryErr e ts xs) = ts"
| "GetTags e = []"

fun GetExtras :: "goerror \<Rightarrow> tags" where
  "GetExtras (SentryErr e ts xs) = xs"
| "GetExtras e = []"

lemma SentryError_parts:
  "SentryError (Some e) = Some s \<Longrightarrow> GetReason (AddExtra k v (AddTag k1 v1 s)) = e \<and>
     map_of (GetTags (AddTag k1 v1 (AddTag k v s))) = [k \<mapsto> v, k1 \<mapsto> v1] \<and> GetExtras (AddExtra k v s) = [(k, v)]"
  by (auto simp: SentryError_def fun_eq_iff)

section \<open>The filter\<close>

text \<open>\<open>errors.As\<close> for \<open>APIStatus\<close>: the causes of the first status error of the chain.\<close>

fun as_api_status :: "goerror \<Rightarrow> string list option option" where
  "as_api_status (ApiStatus r causes t) = Some causes"
| "as_api_status (WrapError m e) = as_api_status e"
| "as_api_status (SentryErr e ts xs) = as_api_status e"
| "as_api_status _ = None"

definition NamespaceTerminatingCause :: string where
  "NamespaceTerminatingCause = ''NamespaceTerminating''"

definition isTerminatingNSError :: "goerror \<Rightarrow> bool" where
  "isTerminatingNSError err =
     (case as_api_status err of
        Some (Some causes) \<Rightarrow> list_ex (\<lambda>cause. cause = NamespaceTerminatingCause) causes
      | _ \<Rightarrow> False)"

definition ShouldBeProcessed :: "goerror \<Rightarrow> bool" where
  "ShouldBeProcessed err =
     (let err1 = (case AsSentryError err of Some (reason, _, _) \<Rightarrow> reason | None \<Rightarrow> err)
      in \<not> isTerminatingNSError err1)"

section \<open>Events\<close>

record sentry_env =
  se_type_name :: "goerror \<Rightarrow> string"
  se_has_stack :: "goerror \<Rightarrow> bool"

record exception =
  ex_Value :: string
  ex_Type :: string
  ex_Stacktrace :: bool

record sentry_event =
  ev_Message :: string
  ev_Tags :: "string \<rightharpoonup> string"
  ev_Extras :: "tags option"
  ev_Exception :: "exception list"

definition maxErrorDepth :: nat where "maxErrorDepth = 10"

fun is_sentry_struct :: "goerror \<Rightarrow> bool" where
  "is_sentry_struct (SentryErr _ _ _) = True"
| "is_sentry_struct _ = False"

definition exception_of :: "sentry_env \<Rightarrow> goerror \<Rightarrow> exception" where
  "exception_of E err = \<lparr>ex_Value = error_text err,
     ex_Type = (if \<not> is_sentry_struct err then se_type_name E err else error_text err),
     ex_Stacktrace = se_has_stack E err\<rparr>"

text \<open>The loop over the chain, with the iterations that are left.\<close>

fun exceptions :: "sentry_env \<Rightarrow> nat \<Rightarrow> goerror option \<Rightarrow> exception list" where
  "exceptions E 0 err = []"
| "exceptions E (Suc n) None = []"
| "exceptions E (Suc n) (Some err) = exception_of E err # exceptions E n (unwrap err)"

definition CaptureError ::
  "sentry_env \<Rightarrow> goerror option \<Rightarrow> tags \<Rightarrow> tags list \<Rightarrow> sentry_event list \<Rightarrow> sentry_event list" where
  "CaptureError E err tags extras sent =
     (case err of
        None \<Rightarrow> sent
      | Some e \<Rightarrow>
          if \<not> ShouldBeProcessed e then sent
          else
            let (tags0, extras0) = (case AsSentryError e of
                  Some (_, ts, xs) \<Rightarrow> (map_of ts, Some xs) | None \<Rightarrow> (Map.empty, None));
                tags1 = tags0 ++ map_of tags;
                extras1 = fold (\<lambda>x acc. Some x) extras extras0;
                exs = exceptions E maxErrorDepth (Some e);
                exs1 = (if \<not> ex_Stacktrace (exs ! 0) then exs[0 := (exs ! 0)\<lparr>ex_Stacktrace := True\<rparr>] else exs)
            in sent @ [\<lparr>ev_Message = error_text e, ev_Tags = tags1, ev_Extras = extras1, ev_Exception = rev exs1\<rparr>])"

definition CaptureSentryError ::
  "sentry_env \<Rightarrow> goerror option \<Rightarrow> tags \<Rightarrow> tags list \<Rightarrow> sentry_event list \<Rightarrow> sentry_event list" where
  "CaptureSentryError E err tags extras sent =
     (if IsSentryError err then CaptureError E err tags extras sent else sent)"

section \<open>Panics\<close>

text \<open>What a function panics with: an error or another value, by its text.\<close>

datatype panic_arg = PanicError goerror | PanicOther string

definition Wrap ::
  "sentry_env \<Rightarrow> ('s \<Rightarrow> panic_arg option \<times> 's) \<Rightarrow> tags \<Rightarrow> tags list \<Rightarrow> 's \<times> sentry_event list \<Rightarrow> 's \<times> sentry_event list" where
  "Wrap E f tags extras st =
     (case f (fst st) of
        (None, s1) \<Rightarrow> (s1, snd st)
      | (Some r, s1) \<Rightarrow>
          let err = (case r of PanicError v \<Rightarrow> v | PanicOther v \<Rightarrow> ErrorString (''panic: '' @ v));
              merged = fold (\<lambda>(k, v) m. AList.update k v m) tags [(''panic'', ''true'')]
          in (s1, CaptureError E (Some err) merged extras (snd st)))"

text \<open>\<open>Go\<close> adds a goroutine to the ones the scheduler may run; they share the state.\<close>

type_synonym 's goroutine = "'s \<times> sentry_event list \<Rightarrow> 's \<times> sentry_event list"

definition Go ::
  "sentry_env \<Rightarrow> ('s \<Rightarrow> panic_arg option \<times> 's) \<Rightarrow> tags \<Rightarrow> tags list \<Rightarrow> 's goroutine list \<Rightarrow> 's goroutine list" where
  "Go E f tags extras goroutines = goroutines @ [Wrap E f tags extras]"

text \<open>\<open>Add\<close> of \<open>Tags\<close> and \<open>Extras\<close>: both are maps, and a nil map panics.\<close>

definition Tags_Add :: "tags option \<Rightarrow> string \<Rightarrow> string \<Rightarrow> tags option" where
  "Tags_Add t key v = map_option (AList.update key v) t"

definition Extras_Add :: "tags option \<Rightarrow> string \<Rightarrow> string \<Rightarrow> tags option" where
  "Extras_Add e key v = map_option (AList.update key v) e"

section \<open>GraphQL\<close>

record gql_env =
  ge_present :: "ctx \<Rightarrow> goerror \<Rightarrow> goerror option"
  ge_operation :: "ctx \<Rightarrow> tags option"
  ge_path :: "ctx \<Rightarrow> string option"

definition captureErrorForContext ::
  "sentry_env \<Rightarrow> gql_env \<Rightarrow> ctx \<Rightarrow> goerror \<Rightarrow> string \<Rightarrow> sentry_event list \<Rightarrow> sentry_event list" where
  "captureErrorForContext E G c err tenantID sent =
     (let extras = (case ge_operation G c of None \<Rightarrow> [] | Some oc \<Rightarrow> oc);
          tags0 = (case ge_path G c of None \<Rightarrow> [] | Some p \<Rightarrow> [(''path'', p)]);
          tags1 = (if tenantID \<noteq> [] then AList.update ''tenantID'' tenantID tags0 else tags0)
      in CaptureError E (Some err) tags1 [extras] sent)"

definition GraphQLErrorPresenter ::
  "sentry_env \<Rightarrow> gql_env \<Rightarrow> string list \<Rightarrow> ctx \<Rightarrow> goerror \<Rightarrow> sentry_event list \<Rightarrow> goerror option \<times> sentry_event list" where
  "GraphQLErrorPresenter E G skipTenants c e sent =
     (case ge_present G c e of
        None \<Rightarrow> (None, sent)
      | Some err \<Rightarrow>
          if \<not> IsSentryError (Some e) then (Some err, sent)
          else
            let sent1 = (if \<not> HasTenantInContext c then captureErrorForContext E G c err [] sent else sent);
                tenantID = (case GetTenantFromContext c of Inr t \<Rightarrow> t | Inl _ \<Rightarrow> [])
            in if list_ex (\<lambda>t. t = tenantID) skipTenants then (Some err, sent1)
               else (Some err, captureErrorForContext E G c err tenantID sent1))"

definition GraphQLRecover ::
  "sentry_env \<Rightarrow> gql_env \<Rightarrow> ctx \<Rightarrow> string \<Rightarrow> sentry_event list \<Rightarrow> goerror \<times> sentry_event list" where
  "GraphQLRecover E G c err sent =
     (let (tenantID, sent1) =
        (case GetTenantFromContext c of
           Inr t \<Rightarrow> (t, sent)
         | Inl ctxErr \<Rightarrow> ([], captureErrorForContext E G c ctxErr [] sent))
      in (ErrorString (''internal server error: '' @ err),
          captureErrorForContext E G c (ErrorString (''GraphQL panic: '' @ err)) tenantID sent1))"

section \<open>Properties\<close>

fun error_chain :: "goerror \<Rightarrow> goerror list" where
  "error_chain (WrapError m e) = WrapError m e # error_chain e"
| "error_chain (SentryErr e ts xs) = SentryErr e ts xs # error_chain e"
| "error_chain e = [e]"

lemma exceptions_chain: "exceptions E n (Some e) = map (exception_of E) (take n (error_chain e))"
proof (induction n arbitrary: e)
  case (Suc n)
  have none: "exceptions E n None = []" by (cases n) simp_all
  with Suc show ?case by (cases e) simp_all
qed simp

lemma chain_hd: "error_chain e \<noteq> [] \<and> hd (error_chain e) = e"
  by (cases e) simp_all

lemma AsSentryError_status: "AsSentryError e = Some (r, ts, xs) \<Longrightarrow> as_api_status r = as_api_status e"
  by (induction e) auto

lemma ShouldBeProcessed_iff: "ShouldBeProcessed e \<longleftrightarrow> \<not> isTerminatingNSError e"
  by (auto simp: ShouldBeProcessed_def isTerminatingNSError_def Let_def AsSentryError_status split: option.split)

text \<open>
  C36.  What is sent for an error: nothing for \<open>nil\<close> and for errors whose first API status has a
  terminating namespace among its causes; otherwise one event with the error's text, the tags of
  the innermost call taking precedence over those of the Sentry error, and one exception for each of
  at most the ten outermost errors of the chain, the outermost last and always with a stack trace.
\<close>

theorem CaptureError_spec:
  "CaptureError E err tags extras sent = sent @
    (case err of None \<Rightarrow> [] | Some e \<Rightarrow>
       if (\<exists>causes. as_api_status e = Some (Some causes) \<and> NamespaceTerminatingCause \<in> set causes) then []
       else [\<lparr>ev_Message = error_text e,
         ev_Tags = (case AsSentryError e of None \<Rightarrow> map_of tags | Some (_, ts, _) \<Rightarrow> map_of ts ++ map_of tags),
         ev_Extras = (if extras \<noteq> [] then Some (last extras) else map_option (\<lambda>x. snd (snd x)) (AsSentryError e)),
         ev_Exception = map (exception_of E) (rev (take 9 (tl (error_chain e)))) @
           [(exception_of E e)\<lparr>ex_Stacktrace := True\<rparr>]\<rparr>])"
proof (cases err)
  case (Some e)
  have ns: "isTerminatingNSError e \<longleftrightarrow>
      (\<exists>causes. as_api_status e = Some (Some causes) \<and> NamespaceTerminatingCause \<in> set causes)"
    by (auto simp: isTerminatingNSError_def list_ex_iff split: option.splits)
  have fold_last: "fold (\<lambda>x acc. Some x) xs z = (if xs \<noteq> [] then Some (last xs) else z)" for xs and z :: "'x option"
    by (induction xs arbitrary: z) auto
  obtain cs where cs: "error_chain e = e # cs" using chain_hd [of e] by (cases "error_chain e") auto
  have exs: "exceptions E maxErrorDepth (Some e) = exception_of E e # map (exception_of E) (take 9 cs)"
    by (simp add: exceptions_chain maxErrorDepth_def cs take_Cons')
  have st: "(if \<not> ex_Stacktrace (exception_of E e) then (exception_of E e)\<lparr>ex_Stacktrace := True\<rparr> else exception_of E e) =
      (exception_of E e)\<lparr>ex_Stacktrace := True\<rparr>" by (simp add: exception_of_def)
  show ?thesis
    unfolding CaptureError_def Some option.case ShouldBeProcessed_iff ns Let_def exs fold_last
    by (cases "AsSentryError e") (auto simp: cs st [symmetric] rev_map exception_of_def)
qed (simp add: CaptureError_def)

text \<open>
  Each GraphQL error is reported by its tenant: an error that is no Sentry error and one of a
  skipped tenant are not reported, an error of another tenant once, and an error without a tenant in the
  context twice (once when the empty tenant is skipped); the presented error is returned in all cases.
\<close>

theorem GraphQLErrorPresenter_reports:
  assumes "ge_present G c e = Some err" and "ShouldBeProcessed err"
  shows "fst (GraphQLErrorPresenter E G skip c e sent) = Some err \<and>
    length (snd (GraphQLErrorPresenter E G skip c e sent)) = length sent +
      (if AsSentryError e = None then 0
       else case GetTenantFromContext c of
         Inr t \<Rightarrow> if t \<in> set skip then 0 else 1
       | Inl _ \<Rightarrow> if [] \<in> set skip then 1 else 2)"
proof -
  have one: "length (captureErrorForContext E G c err t s) = Suc (length s)" for t s
    using assms(2) by (simp add: captureErrorForContext_def CaptureError_def Let_def split: option.split prod.split)
  have has: "HasTenantInContext c \<longleftrightarrow> (\<exists>t. GetTenantFromContext c = Inr t)"
    by (auto simp: HasTenantInContext_def GetTenantFromContext_def get_string_def split: option.splits ctx_value.splits)
  show ?thesis
    using assms(1)
    by (cases "GetTenantFromContext c")
      (auto simp: GraphQLErrorPresenter_def Let_def IsSentryError_def has one list_ex_iff split: option.splits)
qed

definition plain_sentry :: sentry_env where
  "plain_sentry = \<lparr>se_type_name = (\<lambda>e. ''error''), se_has_stack = (\<lambda>e. False)\<rparr>"

definition plain_gql :: gql_env where
  "plain_gql = \<lparr>ge_present = (\<lambda>c e. Some (WrapError ''input'' e)), ge_operation = (\<lambda>c. None), ge_path = (\<lambda>c. None)\<rparr>"

theorem GraphQLErrorPresenter_reports_witness:
  "length (snd (GraphQLErrorPresenter plain_sentry plain_gql [] Map.empty (SentryErr (ErrorString ''boom'') [] []) [])) = 2"
  by (subst GraphQLErrorPresenter_reports [where err = "WrapError ''input'' (SentryErr (ErrorString ''boom'') [] [])", THEN conjunct2])
    (simp_all add: plain_gql_def ShouldBeProcessed_iff isTerminatingNSError_def GetTenantFromContext_def get_string_def)

lemma update_fold: "map_of (fold (\<lambda>(k, v) m. AList.update k v m) ts m0) = map_of m0 ++ map_of (rev ts)"
proof (induction ts arbitrary: m0)
  case (Cons t ts)
  then show ?case by (cases t) (auto simp: update_conv' map_add_def fun_eq_iff split: option.splits)
qed simp

text \<open>
  A wrapped function never panics: its effects are kept, and a panic is reported once with the tag
  \<open>panic=true\<close>, unless the given tags have a tag \<open>panic\<close> themselves, which then replaces it.
\<close>

theorem Wrap_spec:
  assumes "f s = (p, s1)" and "\<And>e. p = Some (PanicError e) \<Longrightarrow> ShouldBeProcessed e \<and> AsSentryError e = None"
    and "distinct (map fst tags)"
  shows "\<exists>evs. Wrap E f tags extras (s, sent) = (s1, sent @ evs) \<and> length evs = (if p = None then 0 else 1) \<and>
    (\<forall>ev \<in> set evs. ev_Tags ev ''panic'' = Some (case map_of tags ''panic'' of None \<Rightarrow> ''true'' | Some v \<Rightarrow> v))"
proof (cases p)
  case None
  with assms(1) show ?thesis by (simp add: Wrap_def)
next
  case (Some r)
  define err where "err = (case r of PanicError v \<Rightarrow> v | PanicOther v \<Rightarrow> ErrorString (''panic: '' @ v))"
  have e: "ShouldBeProcessed err" "AsSentryError err = None"
    using assms(2) Some by (auto simp: err_def ShouldBeProcessed_iff isTerminatingNSError_def split: panic_arg.split)
  have "map_of (rev tags) = map_of tags" using assms(3) by (intro map_of_inject_set [THEN iffD2]) (simp_all add: rev_map [symmetric])
  then show ?thesis
    using assms(1) Some e
    by (auto simp: Wrap_def Let_def err_def [symmetric] CaptureError_def update_fold map_add_def split: option.split)
qed

theorem Wrap_spec_witness:
  "\<exists>evs. Wrap plain_sentry (\<lambda>n. (Some (PanicOther ''x''), Suc n)) [(''job'', ''a'')] [] (0, []) = (1, [] @ evs) \<and>
     length evs = 1 \<and> (\<forall>ev \<in> set evs. ev_Tags ev ''panic'' = Some ''true'')"
  using Wrap_spec [of "\<lambda>n. (Some (PanicOther ''x''), Suc n)" 0 "Some (PanicOther ''x'')" 1 "[(''job'', ''a'')]" plain_sentry "[]" "[]"]
  by simp

end
