(* ===== verification/Tenants.thy ===== *)
theory Tenants
  imports Middleware Cache
begin

text \<open>
  Finding the tenant of a request: the package \<open>policy_services\<close>.  \<open>TenantIdReader\<close> is the locale
  \<open>tenant_reader\<close>, with the local reader and the one that asks the iam service as its
  interpretations; \<open>TenantRetrieverService\<close> caches the answers under a key made of the token's issuer
  and audiences.  The GraphQL client and the LRU cache are parameters.
\<close>

section \<open>Readers\<close>

text \<open>A reader returns a tenant id together with an error.\<close>

type_synonym 'w reader = "ctx \<Rightarrow> 'w \<Rightarrow> (string \<times> goerror option) \<times> 'w"

definition local_Read :: "string \<Rightarrow> 'w reader" where
  "local_Read tenantId c w = ((tenantId, None), w)"

text \<open>
  \<open>run_query\<close> is \<open>GraphqlClient.Run\<close> for the \<open>tenantInfo\<close> query: it gets the \<open>Authorization\<close> value of
  the request and the time limit, and yields the tenant id of the response.
\<close>

type_synonym 'w graphql_run = "ctx \<Rightarrow> string \<Rightarrow> duration \<Rightarrow> 'w \<Rightarrow> (goerror + string) \<times> 'w"

record graphql_client =
  gc_url :: string
  gc_log :: "logger option"

text \<open>The logger \<open>LoadLoggerFromContext\<close> finds is never \<open>nil\<close> here: \<open>std\<close> is the default logger.\<close>

definition createClient :: "logger \<Rightarrow> ctx \<Rightarrow> string \<Rightarrow> graphql_client" where
  "createClient std c iamApiUrl =
     \<lparr>gc_url = iamApiUrl, gc_log = Some (ComponentLogger (LoadLoggerFromContext std c) ''graphql'')\<rparr>"

record graphqlTenantReader =
  gr_client :: graphql_client
  gr_iamUrl :: string
  gr_timeout :: duration

definition no_auth_header :: goerror where
  "no_auth_header = ErrorString (''the request context does not contain an auth header under the key '' @
     ''authHeader. You can use authz.context to set it'')"

definition run :: "'w graphql_run \<Rightarrow> ctx \<Rightarrow> duration \<Rightarrow> 'w \<Rightarrow> (goerror + string) \<times> 'w" where
  "run run_query c timeout w =
     (case GetAuthHeaderFromContext c of
        Inl err \<Rightarrow> (Inl no_auth_header, w)
      | Inr auth \<Rightarrow> if length auth = 0 then (Inl no_auth_header, w) else run_query c auth timeout w)"

text \<open>The response data that \<open>Run\<close> fills in are the tenant id alone (\<open>GraphqlData\<close>).\<close>

definition graphql_Read :: "(graphql_client \<Rightarrow> 'w graphql_run) \<Rightarrow> graphqlTenantReader \<Rightarrow> 'w reader" where
  "graphql_Read run_query r c w =
     (case run (run_query (gr_client r)) c (gr_timeout r) w of
        (Inl err, w1) \<Rightarrow> (([], Some err), w1)
      | (Inr tid, w1) \<Rightarrow>
          if tid = [] then (([], Some (ErrorString (''the tenantInfo query returned no tenant id. The iam service '' @
              gr_iamUrl r @ '' was called''))), w1)
          else ((tid, None), w1))"

section \<open>The retriever\<close>

definition tenant_key :: "string \<Rightarrow> string list \<Rightarrow> string" where
  "tenant_key issuer audiences = issuer @ ''-'' @ joinWith ''-'' audiences"

definition RetrieveOrAdd ::
  "'c string_cache \<Rightarrow> 'w reader \<Rightarrow> ctx \<Rightarrow> string \<Rightarrow> 'c \<times> 'w \<Rightarrow> (string \<times> goerror option) \<times> 'c \<times> 'w" where
  "RetrieveOrAdd K read c key st =
     (case cache_Get K key (fst st) of
        (Some cachedTenant, c1) \<Rightarrow> ((cachedTenant, None), c1, snd st)
      | (None, c1) \<Rightarrow>
          (case read c (snd st) of
             ((tenantId, Some err), w1) \<Rightarrow> ((tenantId, Some err), c1, w1)
           | ((tenantId, None), w1) \<Rightarrow> ((tenantId, None), cache_Add K key tenantId c1, w1)))"

definition RetrieveTenant ::
  "'c string_cache \<Rightarrow> 'w reader \<Rightarrow> ctx \<Rightarrow> 'c \<times> 'w \<Rightarrow> (string \<times> goerror option) \<times> 'c \<times> 'w" where
  "RetrieveTenant K read c st =
     (case GetWebTokenFromContext c of
        Inl err \<Rightarrow> (([], None), st)
      | Inr webToken \<Rightarrow>
          if Issuer webToken = [] then (([], None), st)
          else if length (Audiences webToken) = 0 then (([], None), st)
          else RetrieveOrAdd K read c (tenant_key (Issuer webToken) (Audiences webToken)) st)"

text \<open>
  A retriever is its reader and its cache.  When \<open>newLRU\<close> fails, the error is logged and the cache stays
  \<open>nil\<close>; the first lookup would then panic, so the lookups above are those of a retriever that has one.
\<close>

record ('c, 'w) TenantRetrieverService =
  tenantReader :: "'w reader"
  tenantCache :: "'c option"

definition NewCustomTenantRetriever :: "(nat \<Rightarrow> goerror + 'c) \<Rightarrow> 'w reader \<Rightarrow> ('c, 'w) TenantRetrieverService" where
  "NewCustomTenantRetriever newLRU tr =
     \<lparr>tenantReader = tr, tenantCache = (case newLRU 5 of Inl err \<Rightarrow> None | Inr cache \<Rightarrow> Some cache)\<rparr>"

definition NewLocalTenantRetriever :: "(nat \<Rightarrow> goerror + 'c) \<Rightarrow> string \<Rightarrow> ('c, 'w) TenantRetrieverService" where
  "NewLocalTenantRetriever newLRU tenantId = NewCustomTenantRetriever newLRU (local_Read tenantId)"

definition NewTenantRetriever ::
  "(graphql_client \<Rightarrow> 'w graphql_run) \<Rightarrow> (nat \<Rightarrow> goerror + 'c) \<Rightarrow> logger \<Rightarrow> ctx \<Rightarrow> string \<Rightarrow> duration option \<Rightarrow>
   ('c, 'w) TenantRetrieverService" where
  "NewTenantRetriever run_query newLRU std c iamUrl timeout =
     (let tr = \<lparr>gr_client = createClient std c iamUrl, gr_iamUrl = iamUrl, gr_timeout = Second * 5\<rparr>;
          tr1 = (case timeout of None \<Rightarrow> tr | Some t \<Rightarrow> tr\<lparr>gr_timeout := t\<rparr>)
      in NewCustomTenantRetriever newLRU (graphql_Read run_query tr1))"

lemma NewTenantRetriever_sel:
  "tenantReader (NewTenantRetriever run_query newLRU std c url timeout) =
     graphql_Read run_query \<lparr>gr_client = createClient std c url, gr_iamUrl = url,
       gr_timeout = (case timeout of None \<Rightarrow> Second * 5 | Some t \<Rightarrow> t)\<rparr>"
  "tenantCache (NewTenantRetriever run_query newLRU std c url timeout) = Some k0 \<longleftrightarrow> newLRU 5 = Inr k0"
  by (simp_all add: NewTenantRetriever_def NewCustomTenantRetriever_def Let_def split: option.split sum.split)

section \<open>The interface\<close>

text \<open>
  A reader whose answer for a context that is \<open>proper\<close> is the tenant of that context's issuer and
  audiences, as \<open>tenant_for\<close> says.
\<close>

locale tenant_reader =
  fixes read :: "'w reader"
    and tenant_for :: "string \<Rightarrow> string list \<Rightarrow> string"
    and lawful :: bool
    and proper :: "ctx \<Rightarrow> bool"
  assumes read_tenant: "lawful \<Longrightarrow> proper c \<Longrightarrow> read c w = ((tid, None), w') \<Longrightarrow> GetWebTokenFromContext c = Inr tok \<Longrightarrow>
      tid = tenant_for (Issuer tok) (Audiences tok)"
begin

end

section \<open>Keys\<close>

lemma tenant_key_split:
  assumes "CHR ''-'' \<notin> set iss" "\<forall>a \<in> set auds. CHR ''-'' \<notin> set a" "auds \<noteq> []"
  shows "splitOn CHR ''-'' (tenant_key iss auds) = iss # auds"
  using splitOn_joinWith [OF assms(3,2)] splitOn_here [OF assms(1)] by (simp add: tenant_key_def)

definition hyphen_free :: "web_token \<Rightarrow> bool" where
  "hyphen_free tok \<longleftrightarrow> CHR ''-'' \<notin> set (Issuer tok) \<and> (\<forall>a \<in> set (Audiences tok). CHR ''-'' \<notin> set a)"

text \<open>Entries made for hyphen-free tokens; the invariant of the cache below.\<close>

definition entry_for :: "(string \<Rightarrow> string list \<Rightarrow> string) \<Rightarrow> string \<Rightarrow> string \<Rightarrow> bool" where
  "entry_for tenant_for k v \<longleftrightarrow> (\<exists>iss auds. k = tenant_key iss auds \<and> auds \<noteq> [] \<and>
     CHR ''-'' \<notin> set iss \<and> (\<forall>a \<in> set auds. CHR ''-'' \<notin> set a) \<and> v = tenant_for iss auds)"

definition entries_for :: "(string \<Rightarrow> string list \<Rightarrow> string) \<Rightarrow> (string \<times> string) set \<Rightarrow> bool" where
  "entries_for tenant_for es \<longleftrightarrow> (\<forall>k v. (k, v) \<in> es \<longrightarrow> entry_for tenant_for k v)"

lemma entries_for_mono: "entries_for tf es \<Longrightarrow> fs \<subseteq> es \<Longrightarrow> entries_for tf fs"
  by (auto simp: entries_for_def)

lemma entries_for_insert: "entries_for tf es \<Longrightarrow> entry_for tf k v \<Longrightarrow> fs \<subseteq> insert (k, v) es \<Longrightarrow> entries_for tf fs"
  by (auto simp: entries_for_def)

lemma entries_for_hit:
  assumes "entries_for tf es" "(tenant_key iss auds, v) \<in> es" "auds \<noteq> []"
    "CHR ''-'' \<notin> set iss" "\<forall>a \<in> set auds. CHR ''-'' \<notin> set a"
  shows "v = tf iss auds"
proof -
  from assms(1,2) obtain i a where k: "tenant_key iss auds = tenant_key i a" "a \<noteq> []"
    "CHR ''-'' \<notin> set i" "\<forall>x \<in> set a. CHR ''-'' \<notin> set x" "v = tf i a"
    unfolding entries_for_def entry_for_def by blast
  have "splitOn CHR ''-'' (tenant_key iss auds) = iss # auds" by (rule tenant_key_split [OF assms(4,5,3)])
  moreover have "splitOn CHR ''-'' (tenant_key i a) = i # a" by (rule tenant_key_split [OF k(3,4,2)])
  ultimately have "iss # auds = i # a" unfolding k(1) by (rule trans [OF sym])
  with k(5) show ?thesis by simp
qed

fun retrievals :: "'c string_cache \<Rightarrow> 'w reader \<Rightarrow> ctx list \<Rightarrow> 'c \<times> 'w \<Rightarrow> 'c \<times> 'w" where
  "retrievals K read [] st = st"
| "retrievals K read (c # cs) st = retrievals K read cs (snd (RetrieveTenant K read c st))"

definition hyphen_free_ctx :: "ctx \<Rightarrow> bool" where
  "hyphen_free_ctx c \<longleftrightarrow> (\<forall>tok. GetWebTokenFromContext c = Inr tok \<longrightarrow> hyphen_free tok)"

context tenant_reader
begin

lemma RetrieveTenant_step:
  assumes l: "lawful" and K: "cache_laws K" and inv: "entries_for tenant_for (held K (fst st))"
    and c: "hyphen_free_ctx c" "proper c" and run: "RetrieveTenant K read c st = ((tid, err), st')"
  shows "entries_for tenant_for (held K (fst st')) \<and>
    (\<forall>tok. err = None \<longrightarrow> GetWebTokenFromContext c = Inr tok \<longrightarrow> Issuer tok \<noteq> [] \<longrightarrow> Audiences tok \<noteq> [] \<longrightarrow>
       tid = tenant_for (Issuer tok) (Audiences tok))"
proof (cases "\<exists>tok. GetWebTokenFromContext c = Inr tok \<and> Issuer tok \<noteq> [] \<and> Audiences tok \<noteq> []")
  case False
  with run have "st' = st" by (auto simp: RetrieveTenant_def split: sum.splits if_splits)
  with False inv show ?thesis by auto
next
  case True
  then obtain tok where t: "GetWebTokenFromContext c = Inr tok" "Issuer tok \<noteq> []" "Audiences tok \<noteq> []" by blast
  with c(1) have h: "CHR ''-'' \<notin> set (Issuer tok)" "\<forall>a \<in> set (Audiences tok). CHR ''-'' \<notin> set a"
    by (auto simp: hyphen_free_ctx_def hyphen_free_def)
  let ?k = "tenant_key (Issuer tok) (Audiences tok)"
  have ra: "RetrieveOrAdd K read c ?k st = ((tid, err), st')" using run t by (simp add: RetrieveTenant_def)
  obtain q c1 where g: "cache_Get K ?k (fst st) = (q, c1)" by fastforce
  have inv1: "entries_for tenant_for (held K c1)"
    using inv cache_lawsD(1) [OF K g] by (rule entries_for_mono)
  show ?thesis
  proof (cases q)
    case (Some v)
    with g cache_lawsD(2) [OF K] have "(?k, v) \<in> held K (fst st)" by blast
    from entries_for_hit [OF inv this t(3) h] show ?thesis
      using ra g Some inv1 t by (auto simp: RetrieveOrAdd_def)
  next
    case None
    obtain u e w1 where r: "read c (snd st) = ((u, e), w1)" by (metis surj_pair)
    show ?thesis
    proof (cases e)
      case (Some x)
      with ra g None r inv1 show ?thesis by (auto simp: RetrieveOrAdd_def)
    next
      assume e: "e = None"
      from read_tenant [OF l c(2) r [unfolded e] t(1)] have u: "u = tenant_for (Issuer tok) (Audiences tok)" .
      have "entry_for tenant_for ?k u" using u h t(3) unfolding entry_for_def by blast
      then have "entries_for tenant_for (held K (cache_Add K ?k u c1))"
        using entries_for_insert [OF inv1 _ cache_lawsD(3) [OF K]] by blast
      then show ?thesis using ra g None r e u t by (auto simp: RetrieveOrAdd_def)
    qed
  qed
qed

lemma retrievals_inv:
  assumes "lawful" "cache_laws K" "entries_for tenant_for (held K (fst st))" "\<forall>c \<in> set cs. hyphen_free_ctx c \<and> proper c"
  shows "entries_for tenant_for (held K (fst (retrievals K read cs st)))"
  using assms(3,4)
proof (induction cs arbitrary: st)
  case (Cons c cs)
  obtain tid err st1 where r: "RetrieveTenant K read c st = ((tid, err), st1)" by (metis surj_pair)
  from RetrieveTenant_step [OF assms(1,2) Cons.prems(1) _ _ r] Cons.prems(2) Cons.IH [of st1] r show ?case by simp
qed simp

end

text \<open>The local reader knows one tenant.\<close>

interpretation local_reader: tenant_reader "local_Read tenantId" "\<lambda>iss auds. tenantId" True "\<lambda>c. True" for tenantId
  by unfold_locales (simp add: local_Read_def)

text \<open>
  The iam service sees the \<open>Authorization\<close> header alone, and answers with what it has for it, or with
  nothing.  It keeps tenants by issuer and audiences, as the comment of \<open>TenantRetriever\<close> says, when what it
  has for the header of a request is what \<open>tenant_for\<close> says of the request's token.
\<close>

definition iam_laws :: "'w graphql_run \<Rightarrow> (string \<Rightarrow> string) \<Rightarrow> bool" where
  "iam_laws run_query iam \<longleftrightarrow>
     (\<forall>c auth d w tid w'. run_query c auth d w = (Inr tid, w') \<longrightarrow> tid = [] \<or> tid = iam auth)"

definition by_issuer :: "(string \<Rightarrow> string) \<Rightarrow> (string \<Rightarrow> string list \<Rightarrow> string) \<Rightarrow> ctx \<Rightarrow> bool" where
  "by_issuer iam tenant_for c \<longleftrightarrow> (\<forall>tok auth. GetWebTokenFromContext c = Inr tok \<longrightarrow>
     GetAuthHeaderFromContext c = Inr auth \<longrightarrow> iam auth = tenant_for (Issuer tok) (Audiences tok))"

lemma graphql_Read_Some:
  assumes "graphql_Read run_query r c w = ((tid, None), w')"
  shows "\<exists>auth. run_query (gr_client r) c auth (gr_timeout r) w = (Inr tid, w') \<and> tid \<noteq> [] \<and> GetAuthHeaderFromContext c = Inr auth"
  using assms by (auto simp: graphql_Read_def run_def split: prod.splits sum.splits if_splits)

interpretation iam_reader: tenant_reader "graphql_Read run_query r" tenant_for "iam_laws (run_query (gr_client r)) iam"
    "by_issuer iam tenant_for" for run_query r iam tenant_for
proof unfold_locales
  fix c w tid w' tok
  assume "iam_laws (run_query (gr_client r)) iam" "by_issuer iam tenant_for c"
    "graphql_Read run_query r c w = ((tid, None), w')" "GetWebTokenFromContext c = Inr tok"
  then show "tid = tenant_for (Issuer tok) (Audiences tok)"
    using graphql_Read_Some [of run_query r c w tid w'] unfolding iam_laws_def by_issuer_def by fastforce
qed

section \<open>Properties\<close>

text \<open>
  C18.  The right tenant.  Take the reader of a new iam retriever and its cache, empty at first, any
  retrievals before, and a retrieval that returns no error, all for requests whose tokens have no hyphens in
  issuer and audiences.  If what the iam service has for the \<open>Authorization\<close> headers of these requests depends only on the
  issuer and the audiences of their tokens, the retrieval returns what the service has for the header of
  its own request, whether the answer came from the service or, because of an earlier request, from the
  cache; without issuer or audiences it returns no tenant.
\<close>

theorem RetrieveTenant_sound:
  assumes "iam_laws (run_query (createClient std cb url)) iam" and "cache_laws K"
    and "T = NewTenantRetriever run_query newLRU std cb url timeout"
    and "tenantCache T = Some k0" and "held K k0 = {}"
    and "\<forall>c' \<in> set (c # cs). hyphen_free_ctx c' \<and> by_issuer iam tenant_for c'"
    and "RetrieveTenant K (tenantReader T) c (retrievals K (tenantReader T) cs (k0, w)) = ((tid, None), st')"
    and "GetWebTokenFromContext c = Inr tok" and "GetAuthHeaderFromContext c = Inr auth"
  shows "tid = (if Issuer tok = [] \<or> Audiences tok = [] then [] else iam auth)"
proof -
  let ?r = "\<lparr>gr_client = createClient std cb url, gr_iamUrl = url,
      gr_timeout = (case timeout of None \<Rightarrow> Second * 5 | Some t \<Rightarrow> t)\<rparr>"
  have reader: "tenantReader T = graphql_Read run_query ?r" using assms(3) by (simp add: NewTenantRetriever_sel)
  have laws: "iam_laws (run_query (gr_client ?r)) iam" using assms(1) by simp
  have "entries_for tenant_for (held K (fst (k0, w)))" using assms(5) by (simp add: entries_for_def)
  note inv = iam_reader.retrievals_inv [where run_query = run_query and r = ?r, OF laws assms(2) this, of cs]
  show ?thesis
  proof (cases "Issuer tok = [] \<or> Audiences tok = []")
    case True
    with assms(7,8) show ?thesis by (auto simp: RetrieveTenant_def split: if_splits)
  next
    case False
    have "by_issuer iam tenant_for c" using assms(6) by simp
    then have "iam auth = tenant_for (Issuer tok) (Audiences tok)" using assms(8,9) by (simp add: by_issuer_def)
    with False iam_reader.RetrieveTenant_step [where run_query = run_query and r = ?r,
        OF laws assms(2) inv _ _ assms(7) [unfolded reader]] assms(6,8) show ?thesis by simp
  qed
qed

definition tenant_token :: "string \<Rightarrow> string list \<Rightarrow> web_token" where
  "tenant_token iss auds = \<lparr>Issuer = iss, Subject = ''u'', FirstName = [], LastName = [], Audiences = auds, Mail = []\<rparr>"

text \<open>
  An iam service whose tenant of an issuer and audiences is the issuer and their number, and headers
  that name it.
\<close>

definition sample_tenant_for :: "string \<Rightarrow> string list \<Rightarrow> string" where
  "sample_tenant_for iss auds = iss @ ''#'' @ replicate (length auds) CHR ''1''"

definition tenant_ctx :: "string \<Rightarrow> string list \<Rightarrow> ctx" where
  "tenant_ctx iss auds = [WebTokenCtxKey \<mapsto> VToken (tenant_token iss auds),
     AuthHeaderCtxKey \<mapsto> VString (''Bearer '' @ sample_tenant_for iss auds)]"

definition sample_iam :: "string \<Rightarrow> string" where
  "sample_iam auth = drop 7 auth"

definition sample_run :: "graphql_client \<Rightarrow> nat graphql_run" where
  "sample_run cl c auth d w = (Inr (sample_iam auth), Suc w)"

lemma sample_run_laws: "iam_laws (sample_run cl) sample_iam"
  by (auto simp: iam_laws_def sample_run_def)

lemma tenant_ctx_get [simp]:
  "GetWebTokenFromContext (tenant_ctx iss auds) = Inr (tenant_token iss auds)"
  "GetAuthHeaderFromContext (tenant_ctx iss auds) = Inr (''Bearer '' @ sample_tenant_for iss auds)"
  "Issuer (tenant_token iss auds) = iss" "Audiences (tenant_token iss auds) = auds"
  by (simp_all add: tenant_ctx_def tenant_token_def GetWebTokenFromContext_def GetAuthHeaderFromContext_def ctx_key_defs)

lemma tenant_ctx_by_issuer: "by_issuer sample_iam sample_tenant_for (tenant_ctx iss auds)"
  by (simp add: by_issuer_def sample_iam_def)

definition sample_retriever :: "(string \<rightharpoonup> string, nat) TenantRetrieverService" where
  "sample_retriever = NewTenantRetriever sample_run (\<lambda>n. Inr Map.empty) \<lparr>log_level = 0, log_fields = []\<rparr> Map.empty ''iam'' None"

lemmas tenant_defs = RetrieveTenant_def RetrieveOrAdd_def graphql_Read_def run_def sample_run_def sample_iam_def
  sample_tenant_for_def NewTenantRetriever_sel sample_retriever_def map_cache_def

theorem RetrieveTenant_sound_witness:
  "fst (fst (RetrieveTenant map_cache (tenantReader sample_retriever) (tenant_ctx ''i'' [''a''])
     (retrievals map_cache (tenantReader sample_retriever) [tenant_ctx ''j'' [''a''], tenant_ctx ''i'' [''a'']]
       (Map.empty, 0)))) = ''i#1''"
proof -
  let ?read = "tenantReader sample_retriever"
  let ?cs = "[tenant_ctx ''j'' [''a''], tenant_ctx ''i'' [''a'']]"
  let ?r = "RetrieveTenant map_cache ?read (tenant_ctx ''i'' [''a'']) (retrievals map_cache ?read ?cs (Map.empty, 0))"
  have "snd (fst ?r) = None" by (simp add: tenant_defs tenant_key_def)
  then have r: "?r = ((fst (fst ?r), None), snd ?r)" by (metis prod.collapse)
  have e: "tenantCache sample_retriever = Some Map.empty" "held map_cache Map.empty = {}"
    by (simp_all add: sample_retriever_def NewTenantRetriever_sel map_cache_def)
  have h: "\<forall>c' \<in> set (tenant_ctx ''i'' [''a''] # ?cs). hyphen_free_ctx c' \<and> by_issuer sample_iam sample_tenant_for c'"
    by (simp add: hyphen_free_ctx_def hyphen_free_def tenant_ctx_by_issuer)
  from RetrieveTenant_sound [OF sample_run_laws map_cache_laws sample_retriever_def e h r tenant_ctx_get(1,2)] show ?thesis
    by (simp add: sample_tenant_for_def sample_iam_def)
qed

text \<open>
  Hyphens break the separation of tenants: the key joins issuer and audiences with hyphens, so the
  tokens of two issuers can share a key, and a request of the second is given the cached tenant of the
  first, without the iam service being asked.
\<close>

theorem RetrieveTenant_key_collision:
  "\<exists>st1. RetrieveTenant map_cache (tenantReader sample_retriever)
       (tenant_ctx ''https://a'' [''b'', ''c'']) (Map.empty, 0) = ((''https://a#11'', None), st1) \<and>
     RetrieveTenant map_cache (tenantReader sample_retriever)
       (tenant_ctx ''https://a-b'' [''c'']) st1 = ((''https://a#11'', None), st1) \<and>
     sample_tenant_for ''https://a-b'' [''c''] \<noteq> ''https://a#11''"
  by (simp add: tenant_defs tenant_key_def)

text \<open>
  The iam reader: without a non-empty authorization header in the context the service is not
  asked; otherwise it is asked with that header and the configured time limit, five seconds by default,
  and an empty tenant id is an error.
\<close>

theorem graphql_Read_spec:
  "tenantReader (NewTenantRetriever run_query newLRU std cb url timeout) c w =
     (case GetAuthHeaderFromContext c of
        Inl _ \<Rightarrow> (([], Some no_auth_header), w)
      | Inr auth \<Rightarrow>
          (case run_query (createClient std cb url) c auth (case timeout of None \<Rightarrow> 5 * Second | Some t \<Rightarrow> t) w of
             (Inl err, w1) \<Rightarrow> (([], Some err), w1)
           | (Inr tid, w1) \<Rightarrow> ((tid, if tid = [] then Some (ErrorString (''the tenantInfo query returned no tenant id. '' @
                 ''The iam service '' @ url @ '' was called'')) else None), w1)))"
proof (cases "GetAuthHeaderFromContext c")
  case (Inl e)
  then show ?thesis by (simp add: NewTenantRetriever_sel graphql_Read_def run_def)
next
  case (Inr auth)
  then have "auth \<noteq> []" by (auto simp: GetAuthHeaderFromContext_def split: option.splits ctx_value.splits if_splits)
  with Inr show ?thesis
    by (auto simp: graphql_Read_def run_def NewTenantRetriever_sel split: prod.split sum.split option.split)
qed

text \<open>
  The lookups of a local retriever: a cache that holds nothing but the configured tenant, such as the new
  one, keeps doing so, and a token with issuer and audience gets this tenant.
\<close>

lemma local_retriever_tenant:
  assumes "cache_laws K" and "snd ` held K k0 \<subseteq> {tid}" and "GetWebTokenFromContext c = Inr tok"
    and "Issuer tok \<noteq> []" and "Audiences tok \<noteq> []"
    and "RetrieveTenant K (tenantReader (NewLocalTenantRetriever newLRU tid)) c (k0, w) = (r, k2, w2)"
  shows "r = (tid, None) \<and> snd ` held K k2 \<subseteq> {tid}"
proof -
  let ?key = "tenant_key (Issuer tok) (Audiences tok)"
  have rd: "tenantReader (NewLocalTenantRetriever newLRU tid) = local_Read tid"
    by (simp add: NewLocalTenantRetriever_def NewCustomTenantRetriever_def)
  obtain x k1 where g: "cache_Get K ?key k0 = (x, k1)" by fastforce
  have get: "held K k1 \<subseteq> held K k0 \<and> (\<forall>v. x = Some v \<longrightarrow> (?key, v) \<in> held K k0)"
    using assms(1) g unfolding cache_laws_def by simp
  have add: "held K (cache_Add K ?key tid k1) \<subseteq> insert (?key, tid) (held K k1)"
    using assms(1) unfolding cache_laws_def by simp
  have "RetrieveOrAdd K (local_Read tid) c ?key (k0, w) = (r, k2, w2)"
    using assms(3-6) by (simp add: RetrieveTenant_def rd)
  then have "(x = None \<and> r = (tid, None) \<and> k2 = cache_Add K ?key tid k1) \<or> (x \<noteq> None \<and> r = (the x, None) \<and> k2 = k1)"
    using g by (cases x) (auto simp: RetrieveOrAdd_def local_Read_def)
  then show ?thesis
  proof
    assume "x = None \<and> r = (tid, None) \<and> k2 = cache_Add K ?key tid k1"
    then have "held K k2 \<subseteq> insert (?key, tid) (held K k0)" using get add by blast
    then have "snd ` held K k2 \<subseteq> snd ` insert (?key, tid) (held K k0)" by (rule image_mono)
    also have "\<dots> \<subseteq> {tid}" using assms(2) by simp
    finally show ?thesis using \<open>x = None \<and> r = (tid, None) \<and> k2 = cache_Add K ?key tid k1\<close> by simp
  next
    assume h: "x \<noteq> None \<and> r = (the x, None) \<and> k2 = k1"
    then obtain v where v: "x = Some v" by blast
    then have "v \<in> snd ` held K k0" using get by force
    then have "v = tid" using assms(2) by blast
    moreover have "snd ` held K k1 \<subseteq> snd ` held K k0" using get by (intro image_mono) simp
    ultimately show ?thesis using h v assms(2) by auto
  qed
qed

end
