(* ===== verification/Startup.thy ===== *)
theory Startup
  imports Sentry_Report Tenants Fga_Client
begin

text \<open>
  What a process sets up when it starts: tracing (\<open>traces/otel.go\<close>), the Sentry client (\<open>Start\<close> of
  \<open>sentry/sentry.go\<close>) and the OpenFGA client (\<open>fga/client/client.go\<close>).  OpenTelemetry, gRPC, Sentry's \<open>Init\<close> and the cache libraries are parameters.
\<close>

section \<open>Tracing\<close>

record trace_config =
  ServiceName :: string
  ServiceVersion :: string
  CollectorEndpoint :: string

datatype file_target = Discard | Stdout

text \<open>
  The library: \<open>'n\<close> is a gRPC connection, \<open>'x\<close> an exporter, \<open>'r\<close> a resource and \<open>'p\<close> a tracer provider.
  The limit given to \<open>otlptracegrpcNew\<close> is the one of its context; the flag of \<open>stdouttraceNew\<close> is for
  indented output.  \<open>newTracerProvider\<close> samples always and exports in batches.
\<close>

record ('n, 'x, 'r, 'p, 'w) otel =
  grpcNewClient :: "string \<Rightarrow> 'w \<Rightarrow> (goerror + 'n) \<times> 'w"
  otlptracegrpcNew :: "duration \<Rightarrow> 'n \<Rightarrow> 'w \<Rightarrow> (goerror + 'x) \<times> 'w"
  stdouttraceNew :: "file_target \<Rightarrow> bool \<Rightarrow> 'w \<Rightarrow> (goerror + 'x) \<times> 'w"
  resourceNew :: "(string \<times> string) list \<Rightarrow> 'w \<Rightarrow> (goerror + 'r) \<times> 'w"
  newTracerProvider :: "'r \<Rightarrow> 'x \<Rightarrow> 'w \<Rightarrow> 'p \<times> 'w"

text \<open>The process: its global tracer provider and propagator, and the rest of the world.\<close>

datatype propagator = NoPropagator | TraceContext

record ('p, 'w) process =
  tracerProvider :: "'p option"
  textMapPropagator :: propagator
  outside :: 'w

text \<open>The function that is returned shuts the provider down.\<close>

datatype 'p shutdown_func = ShutdownOf 'p

definition with_outside :: "('w \<Rightarrow> 'a \<times> 'w) \<Rightarrow> ('p, 'w) process \<Rightarrow> 'a \<times> ('p, 'w) process" where
  "with_outside f s = (let (a, w) = f (outside s) in (a, s\<lparr>outside := w\<rparr>))"

definition initProvider ::
  "('n, 'x, 'r, 'p, 'w) otel \<Rightarrow> trace_config \<Rightarrow> 'x \<Rightarrow> ('p, 'w) process \<Rightarrow>
   (goerror + 'p shutdown_func) \<times> ('p, 'w) process" where
  "initProvider Q c exporter s =
     (case with_outside (resourceNew Q [(''service.name'', ServiceName c), (''service.version'', ServiceVersion c)]) s of
        (Inl err, s1) \<Rightarrow> (Inl (WrapError ''failed to create resouce'' err), s1)
      | (Inr res, s1) \<Rightarrow>
          (let (tp, s2) = with_outside (newTracerProvider Q res exporter) s1
           in (Inr (ShutdownOf tp), s2\<lparr>tracerProvider := Some tp, textMapPropagator := TraceContext\<rparr>)))"

definition InitProvider ::
  "('n, 'x, 'r, 'p, 'w) otel \<Rightarrow> trace_config \<Rightarrow> ('p, 'w) process \<Rightarrow>
   (goerror + 'p shutdown_func) \<times> ('p, 'w) process" where
  "InitProvider Q config s =
     (case with_outside (grpcNewClient Q (CollectorEndpoint config)) s of
        (Inl err, s1) \<Rightarrow> (Inl (WrapError ''failed to create gRPC connection to collector'' err), s1)
      | (Inr client, s1) \<Rightarrow>
     (case with_outside (otlptracegrpcNew Q Second client) s1 of
        (Inl err, s2) \<Rightarrow> (Inl (WrapError ''failed to create trace exporter'' err), s2)
      | (Inr traceExporter, s2) \<Rightarrow> initProvider Q config traceExporter s2))"

definition InitLocalProvider ::
  "('n, 'x, 'r, 'p, 'w) otel \<Rightarrow> trace_config \<Rightarrow> bool \<Rightarrow> ('p, 'w) process \<Rightarrow>
   (goerror + 'p shutdown_func) \<times> ('p, 'w) process" where
  "InitLocalProvider Q config exportToConsole s =
     (let fileTarget = (if exportToConsole then Stdout else Discard)
      in case with_outside (stdouttraceNew Q fileTarget True) s of
           (Inl err, s1) \<Rightarrow> (Inl (WrapError ''failed to create trace exporter'' err), s1)
         | (Inr traceExporter, s1) \<Rightarrow> initProvider Q config traceExporter s1)"

section \<open>Sentry\<close>

record client_options =
  co_Dsn :: string
  co_Environment :: string
  co_Release :: string
  co_AttachStacktrace :: bool
  co_TracesSampleRate :: nat

text \<open>
  The second result is the time limit of the flush that waits for the end of the context, if there is one.
\<close>

definition Start ::
  "(client_options \<Rightarrow> 'w \<Rightarrow> goerror option \<times> 'w) \<Rightarrow> string \<Rightarrow> string \<Rightarrow> string \<Rightarrow> string \<Rightarrow> string \<Rightarrow> 'w \<Rightarrow>
   (goerror option \<times> duration option) \<times> 'w" where
  "Start init dsn env region name tag w =
     (case init \<lparr>co_Dsn = dsn, co_Environment = env @ ''-'' @ region, co_Release = name @ '':'' @ tag,
              co_AttachStacktrace = True, co_TracesSampleRate = 1\<rparr> w of
        (Some err, w1) \<Rightarrow> ((Some err, None), w1)
      | (None, w1) \<Rightarrow> ((None, Some (5 * Second)), w1))"

section \<open>The OpenFGA client\<close>

text \<open>\<open>newCache\<close> makes an empty cache whose entries live for the given time; the error is always \<open>nil\<close>.\<close>

definition NewOpenFGAClient ::
  "(duration \<Rightarrow> 'c) \<Rightarrow> 'w fga_service \<Rightarrow> ('w fga_service \<times> 'c) \<times> goerror option" where
  "NewOpenFGAClient newCache openFGAServiceClient = ((openFGAServiceClient, newCache (5 * Minute)), None)"

section \<open>Properties\<close>

lemma with_outside_frame [simp]:
  "with_outside f s = (a, s1) \<Longrightarrow> tracerProvider s1 = tracerProvider s \<and> textMapPropagator s1 = textMapPropagator s"
  by (auto simp: with_outside_def split: prod.splits)

text \<open>Whether a provider was installed, or an error returned and the globals left as they were.\<close>

definition installed :: "('p, 'w) process \<Rightarrow> (goerror + 'p shutdown_func) \<times> ('p, 'w) process \<Rightarrow> bool" where
  "installed s r =
     (case r of
        (Inr (ShutdownOf tp), s1) \<Rightarrow> tracerProvider s1 = Some tp \<and> textMapPropagator s1 = TraceContext
      | (Inl err, s1) \<Rightarrow> unwrap err \<noteq> None \<and> tracerProvider s1 = tracerProvider s \<and>
          textMapPropagator s1 = textMapPropagator s)"

lemma initProvider_installed: "installed s (initProvider Q c x s)"
  by (auto simp: initProvider_def installed_def Let_def dest: with_outside_frame split: prod.splits sum.splits)

lemma installed_frame:
  "with_outside f s = (a, s1) \<Longrightarrow> installed s r = installed s1 r"
  by (auto simp: installed_def dest: with_outside_frame split: prod.splits sum.splits)

text \<open>
  Both ways to set up tracing either install the provider whose shutdown function they return as
  the global one, with the W3C propagator, or return an error that wraps the library's and leave the
  global provider and propagator as they were.
\<close>

theorem tracing_all_or_nothing:
  "installed s (InitProvider Q config s) \<and> installed s (InitLocalProvider Q config exportToConsole s)"
proof
  show "installed s (InitProvider Q config s)"
  proof -
    obtain a s1 where g: "with_outside (grpcNewClient Q (CollectorEndpoint config)) s = (a, s1)" by fastforce
    note f1 = with_outside_frame [OF g]
    show ?thesis
    proof (cases a)
      case (Inl e)
      with g f1 show ?thesis by (simp add: InitProvider_def installed_def)
    next
      case (Inr n)
      obtain b s2 where x: "with_outside (otlptracegrpcNew Q Second n) s1 = (b, s2)" by fastforce
      note f2 = with_outside_frame [OF x]
      show ?thesis
      proof (cases b)
        case (Inl e)
        with g Inr x f1 f2 show ?thesis by (simp add: InitProvider_def installed_def)
      next
        case (Inr y)
        with g x \<open>a = Inr n\<close> show ?thesis
          by (simp add: InitProvider_def installed_frame [OF g] installed_frame [OF x] initProvider_installed)
      qed
    qed
  qed
next
  obtain b s1 where x: "with_outside (stdouttraceNew Q (if exportToConsole then Stdout else Discard) True) s = (b, s1)"
    by fastforce
  note f = with_outside_frame [OF x]
  show "installed s (InitLocalProvider Q config exportToConsole s)"
  proof (cases b)
    case (Inl e)
    with x f show ?thesis by (simp add: InitLocalProvider_def installed_def)
  next
    case (Inr y)
    with x show ?thesis
      by (simp add: InitLocalProvider_def installed_frame [OF x] initProvider_installed)
  qed
qed

end
