(* ===== verification/Spec2Isabelle.thy ===== *)
theory Spec2Isabelle
  imports Error_Stacks Deletion_Loop Lifecycle_Names Lifecycle_Status Test_Objects Tenant_Concurrency Fga_Test_Run Request_Path Oauth
    Retry Shutdown Log_Output Startup
begin

text \<open>
  A verification development of \<open>platform-mesh/golang-commons\<close>, the Go library the services and
  controllers of Platform Mesh share.

  \<^bold>\<open>Parts of the program.\<close>  A controller builds a lifecycle manager
  (\<open>controller/lifecycle/builder\<close>), registers it with a rate limiter and an event filter, and hands
  every request to \<open>Reconcile\<close> (\<open>controller/lifecycle/lifecycle.go\<close>), which runs the controller's
  subroutines on one object, with conditions, spreading, finalizers, terminators and initializers.  A
  service wraps its handlers in the HTTP middlewares, which put token, tenant and logger into the
  context; the GraphQL directive \<open>@authorized\<close> and the tenant retriever read them there and ask
  OpenFGA and the iam service.  Both kinds of process report errors to Sentry and end on a signal.

  \<^bold>\<open>Theories.\<close>  They are in the order of their imports.
  \<^item> \<open>Prelude\<close>: durations and times, Go's \<open>error\<close> values, \<open>strings\<close> and \<open>slices\<close> functions.
  \<^item> \<open>Errors\<close>, \<open>Error_Stacks\<close>: \<open>errors/operatorerror.go\<close>, and \<open>errors/errors.go\<close>: the comparison of
    stacks, and how \<open>New\<close> and \<open>Wrap\<close> make and keep stack traces.
  \<^item> \<open>Jwt\<close>: the package \<open>jwt\<close>, JSON values and headers.
  \<^item> \<open>Context\<close>: the logger's attributes (\<open>logger/logger.go\<close>), context keys and values (\<open>context\<close>,
    \<open>context/keys\<close>, \<open>config\<close>, \<open>sentry/context.go\<close>).
  \<^item> \<open>Api\<close>: objects, subroutines and the managers' interfaces (\<open>controller/lifecycle/api\<close>,
    \<open>subroutine\<close>, \<open>util\<close>), the API client as a parameter, and the events a reconciliation leaves.
  \<^item> \<open>Conditions\<close>, \<open>Spread\<close>: the condition manager, the conditions service and the spreader
    (\<open>controller/lifecycle/conditions\<close>, \<open>controller/conditions\<close>, \<open>controller/lifecycle/spread\<close>); the
    locales \<open>condition_contract\<close> and \<open>spread_contract\<close> with their interpretations.
  \<^item> \<open>Lifecycle\<close>: \<open>controller/lifecycle/lifecycle.go\<close>, function by function; \<open>Reconcile\<close> is cut into
    the definitions \<open>spread_check\<close>, \<open>init_conditions\<close>, \<open>prepare_context\<close>, \<open>process_subs\<close> (the loop) and
    \<open>finish\<close>.
  \<^item> \<open>Lifecycle_Trace\<close> (which events each function can add, and that none panics),
    \<open>Lifecycle_Props\<close>, \<open>Lifecycle_Conditions\<close>, \<open>Lifecycle_Paths\<close>: the properties of the
    reconciliation.  \<open>Lifecycle_Status\<close>: what the status says about each subroutine, and what the
    answers of the API server make it forget.  \<open>Api_Server\<close>: the laws of the API server for one object, its
    status subresource, merge patches and the decoding of answers, with an executable instance.
    \<open>Lifecycle_Runs\<close>: what whole reconciliations achieve against it: the server releases an object in
    deletion, and an object whose next reconcile time it has stored is left alone.  \<open>Deletion_Loop\<close>: the
    repetition of reconciliations by the work queue ends for an object in deletion whose finalizations
    end.  \<open>Lifecycle_Names\<close>: initializer and terminator are removed from the status last, and an
    initialization completes.
  \<^item> \<open>RateLimiter\<close>: \<open>controller/lifecycle/ratelimiter\<close>, with the interleavings of concurrent \<open>When\<close>
    and \<open>Forget\<close> as a step relation; the locale \<open>rate_limiter\<close>.
  \<^item> \<open>Managers\<close>: the managers for controller-runtime and multicluster-runtime, the builder, the event
    filter and the stand-ins of \<open>controller/testSupport/lifecycle.go\<close>; the locale \<open>lifecycle_provider\<close>.
  \<^item> \<open>Test_Kit\<close>, \<open>Test_Objects\<close>: the rest of \<open>controller/testSupport\<close>: objects, subroutines and the fake
    manager, which is shown to make both managers reconcile alike; the deep copies of the objects over a
    store with addresses, which shows what they share, and the dummy object, clusters and fake client.
  \<^item> \<open>Cache\<close>: the contract of the string caches.
  \<^item> \<open>Fga_Naming\<close>, \<open>Fga_Store\<close>, \<open>Fga_Client\<close>: the package \<open>fga\<close>: names and tuples, the store and
    model of a tenant (the locale \<open>tenant_ids\<close>, three implementations), reading and writing tuples (the
    locale \<open>tuple_client\<close>).  \<open>Tenant_Concurrency\<close>: the lookups of \<open>fga/store\<close> cut into the steps
    between which other lookups may run.  \<open>Fga_Test_Server\<close>, \<open>Fga_Test_Run\<close>: the server for tests
    (\<open>test/openfga.go\<close>), its set-up, and starting and stopping it as a step relation.
  \<^item> \<open>Middleware\<close>, \<open>Tenants\<close>, \<open>Directive\<close>: the packages \<open>middleware\<close>, \<open>policy_services\<close> (the locale
    \<open>tenant_reader\<close>) and \<open>directive\<close>.  \<open>Request_Path\<close>: middlewares and directive together, from the
    headers of a request to the check for its sender.
  \<^item> \<open>Sentry_Report\<close>, \<open>Oauth\<close>, \<open>Retry\<close>, \<open>Shutdown\<close>, \<open>Service_Config\<close>: the packages \<open>sentry\<close>,
    \<open>oauth\<close>, \<open>controller/client\<close> and \<open>controller/errors\<close>, the start and end of \<open>context\<close>, and \<open>config\<close>.
  \<^item> \<open>Test_Logger\<close>, \<open>Log_Output\<close>, \<open>Startup\<close>: making a logger, its writers, and reading the output of a test
    logger back (\<open>logger\<close>, \<open>logger/testlogger\<close>); tracing
    (\<open>traces\<close>), the start of Sentry, and the constructor of the OpenFGA client.

  \<^bold>\<open>How the code is translated.\<close>  A struct is a record, an interface value a record of functions.  A
  panic or an exit of the process is \<open>None\<close>; a returned error is an \<open>Inl\<close> of type \<open>goerror\<close>, or the
  \<open>goerror option\<close> beside the other results.  Code outside the repository is a parameter: the API
  client, the Kubernetes helpers, the clock and random source, the caches, the OpenFGA and iam services,
  Sentry's and gqlgen's functions.  What is relied on is stated in definitions named \<open>_laws\<close>, \<open>_frame\<close>
  or \<open>_ok\<close>, each satisfied by a concrete instance in the witnesses.  The world these functions
  act on is a state \<open>'w\<close> handed through.  A reconciliation also keeps a trace of its events (get,
  patch, status update, subroutine action, Sentry report); the properties speak about it.

  Durations and times are integers of nanoseconds; where an \<open>int64\<close> saturates (\<open>time.Time.Sub\<close>) this is
  written out; the reconcile delays that are computed lie between zero and the given interval, so that no
  product of them leaves \<open>int64\<close>.  \<open>getNextReconcileTime\<close> and the oauth expiration go through \<open>float64\<close> in the code; the
  values stay below \<open>2 ^ 53\<close> units there and the model divides integers (\<open>Oauth\<close> says where a rounding can differ).  Strings are lists of
  bytes and lengths count these; \<open>strings.ToLower\<close> is written out for ASCII and is a parameter for other strings.  \<open>GetConditions\<close> returns the object's own slice, so a change
  of an element of the caller's slice is seen through the object and an appended one is not
  (\<open>callers_view\<close>, \<open>write_through\<close>).

  \<^bold>\<open>Loops.\<close>  All loops of the modelled code are structural recursions over lists, so no fuel is
  needed; the loop of \<open>CaptureError\<close> has its own bound of ten.  The retries of \<open>RetryOnConflict\<close> are a
  parameter with the law that at most the backoff's number of steps is made.  The work queue, which
  calls \<open>Reconcile\<close> until nothing is to be requeued, need not end: \<open>reconcile_until\<close> is a partial
  function with the result \<open>None\<close> for a loop that does not return, and is proved to return for deletions.
  Where goroutines share state (rate limiter, shutdown signal, tenant store, test server) their steps are
  a relation or a function on schedules, and the properties hold for every interleaving.

  \<^bold>\<open>Not modelled.\<close>  The generated mocks; tracing spans and goroutines that only wait (the flush of
  Sentry, the expiry of caches); the parsing of flags and of JSON, the formats of zerolog, and the time
  stamp and caller of a log message.  A failed type assertion inside a test subroutine is left undefined
  (\<open>FinalizerSubroutine\<close>, \<open>ContextValueSubroutine\<close>), since an action cannot panic in the model.  Deep
  copies are values in the lifecycle, as the generated ones of Kubernetes objects are; \<open>Test_Objects\<close> shows
  what changes for the test objects, whose copies share slices.
\<close>

end
